theory Spec2Isabelle
  imports Complex_Main "HOL-Library.Word" "HOL-Library.AList" "HOL-Library.Sublist"
begin

unbundle bit_operations_syntax

chapter \<open>teardown: decoders for mobile build artifacts\<close>

text \<open>
  A shallow embedding of the JavaScript decoders of the repository: the CgBI PNG restorer
  (\<^verbatim>\<open>CrushedPNG\<close>), the manifest projector (\<^verbatim>\<open>APKParser\<close>), the binary XML decoder
  (\<^verbatim>\<open>AXMLParser\<close>), the binary property list decoder (\<^verbatim>\<open>BPlistParser\<close>), the
  protobuf reader and proto-XML walker (\<^verbatim>\<open>ProtoDecoder\<close>, \<^verbatim>\<open>ProtoXMLParser\<close>) and the
  archive-level parsers. A leading underscore of a source name is dropped
  (\<^verbatim>\<open>_paeth\<close> is \<open>paeth\<close>), since an Isabelle name starts with a letter.
\<close>

section \<open>CgBI PNG restorer: definitions\<close>

subsection \<open>The Paeth predictor\<close>

text \<open>
  \<^verbatim>\<open>static _paeth(a, b, c)\<close>. The arguments are bytes of the current and the prior row (or
  the constant 0), so the arithmetic of the source is exact integer arithmetic.
\<close>

definition paeth :: "int \<Rightarrow> int \<Rightarrow> int \<Rightarrow> int" where
  "paeth a b c =
     (let p = a + b - c;
          pa = \<bar>p - a\<bar>;
          pb = \<bar>p - b\<bar>;
          pc = \<bar>p - c\<bar>
      in if pa \<le> pb \<and> pa \<le> pc then a
         else if pb \<le> pc then b
         else c)"

subsection \<open>Typed arrays and numbers\<close>

text \<open>
  A \<^verbatim>\<open>Uint8Array\<close> is a list of 8-bit words. A read \<^verbatim>\<open>xs[k]\<close> past the end yields
  \<^verbatim>\<open>undefined\<close> (\<open>None\<close>); a store \<^verbatim>\<open>xs[k] = v\<close> converts the number to an unsigned
  byte (modulo 256; \<^verbatim>\<open>undefined\<close> and \<^verbatim>\<open>NaN\<close> store 0) and is ignored past the end, as
  \<open>list_update\<close> is. A number that may be \<^verbatim>\<open>undefined\<close> or \<^verbatim>\<open>NaN\<close> is an \<open>int option\<close>.
\<close>

type_synonym u8array = "8 word list"

definition getb :: "u8array \<Rightarrow> nat \<Rightarrow> int option" where
  "getb xs k = (if k < length xs then Some (uint (xs ! k)) else None)"

definition toUint8 :: "int option \<Rightarrow> 8 word" where
  "toUint8 v = (case v of None \<Rightarrow> 0 | Some n \<Rightarrow> word_of_int n)"

definition setb :: "u8array \<Rightarrow> nat \<Rightarrow> int option \<Rightarrow> u8array" where
  "setb xs k v = xs[k := toUint8 v]"

text \<open>
  \<^verbatim>\<open>(v) & 0xff\<close> for a sum \<open>v\<close> of byte values; \<^verbatim>\<open>NaN & 0xff\<close> is 0.
\<close>

definition and255 :: "int option \<Rightarrow> int option" where
  "and255 v = (case v of None \<Rightarrow> Some 0 | Some n \<Rightarrow> Some (n mod 256))"

text \<open>
  \<^verbatim>\<open>Math.round(n / d)\<close> for integers \<open>0 \<le> n\<close> and \<open>0 < d\<close>: \<^verbatim>\<open>Math.round\<close> is
  \<open>floor (x + 1/2)\<close>. The quotients of the restorer have \<open>n \<le> 255 * 255\<close> and \<open>d < 255\<close>,
  so the double \<^verbatim>\<open>n / d\<close> is on the same side of every half-integer as the exact quotient
  (it is exact when the quotient is a half-integer), and the rounding is that of the
  exact quotient.
\<close>

definition mathRoundDiv :: "int \<Rightarrow> int \<Rightarrow> int" where
  "mathRoundDiv n d = (2 * n + d) div (2 * d)"

subsection \<open>Row-filter inversion and channel reorder\<close>

text \<open>
  One iteration of the inner loop \<^verbatim>\<open>for (let i = 0; i < width * bpp; i++)\<close> of
  \<^verbatim>\<open>_decodePixels\<close>. \<open>prev\<close> and \<open>curr\<close> hold \<open>width * bpp\<close> bytes and \<open>i\<close> is below
  that, so the reads of \<open>a\<close>, \<open>b\<close> and \<open>c\<close> are in range; \<open>raw\<close> and the filter type are
  read from the input and may be \<^verbatim>\<open>undefined\<close>.
\<close>

definition reverseFilterAt ::
  "u8array \<Rightarrow> nat \<Rightarrow> int option \<Rightarrow> nat \<Rightarrow> u8array \<Rightarrow> nat \<Rightarrow> u8array \<Rightarrow> u8array" where
  "reverseFilterAt inflated rowOff filterType bpp prev i cur =
     (let raw = getb inflated (rowOff + 1 + i);
          a = (if i \<ge> bpp then uint (cur ! (i - bpp)) else 0);
          b = uint (prev ! i);
          c = (if i \<ge> bpp then uint (prev ! (i - bpp)) else 0)
      in if filterType = Some 0 then setb cur i raw
         else if filterType = Some 1 then setb cur i (and255 (map_option (\<lambda>r. r + a) raw))
         else if filterType = Some 2 then setb cur i (and255 (map_option (\<lambda>r. r + b) raw))
         else if filterType = Some 3
           then setb cur i (and255 (map_option (\<lambda>r. r + (a + b) div 2) raw))
         else if filterType = Some 4
           then setb cur i (and255 (map_option (\<lambda>r. r + paeth a b c) raw))
         else setb cur i raw)"

text \<open>
  \<^verbatim>\<open>Math.min(255, Math.round(C * 255 / A))\<close> for a stored channel \<open>C\<close> and an alpha
  \<open>0 < A < 255\<close>.
\<close>

definition unpremultiply :: "int option \<Rightarrow> int \<Rightarrow> int option" where
  "unpremultiply C A = map_option (\<lambda>v. min 255 (mathRoundDiv (v * 255) A)) C"

text \<open>
  One iteration of the loop \<^verbatim>\<open>for (let x = 0; x < width; x++)\<close>: the pixel \<open>x\<close> of row
  \<open>y\<close> is read from \<open>curr\<close> as B, G, R, A and written to \<open>out\<close> as R, G, B, A.
\<close>

definition convertPixel :: "nat \<Rightarrow> u8array \<Rightarrow> nat \<Rightarrow> nat \<Rightarrow> nat \<Rightarrow> u8array \<Rightarrow> u8array" where
  "convertPixel bpp cur width y x out =
     (let s = x * bpp;
          d = (y * width + x) * 4;
          B = getb cur s;
          G = getb cur (s + 1);
          R = getb cur (s + 2);
          A = (if bpp = 4 then getb cur (s + 3) else Some 255)
      in if A = Some 0
           then setb (setb (setb (setb out (d + 3) (Some 0)) (d + 2) (Some 0)) (d + 1) (Some 0))
                  d (Some 0)
         else if (case A of None \<Rightarrow> False | Some al \<Rightarrow> al < 255) \<and> bpp = 4
           then setb (setb (setb (setb out d (unpremultiply R (the A)))
                  (d + 1) (unpremultiply G (the A))) (d + 2) (unpremultiply B (the A))) (d + 3) A
         else setb (setb (setb (setb out d R) (d + 1) G) (d + 2) B) (d + 3) A)"

text \<open>
  One iteration of the loop over the rows \<open>y\<close>, on the state \<open>(out, prev, curr)\<close>;
  \<^verbatim>\<open>prev.set(curr)\<close> copies the finished row into \<open>prev\<close>.
\<close>

definition decodeRow ::
  "u8array \<Rightarrow> nat \<Rightarrow> nat \<Rightarrow> nat \<Rightarrow> u8array \<times> u8array \<times> u8array
     \<Rightarrow> u8array \<times> u8array \<times> u8array" where
  "decodeRow inflated width bpp y st =
     (case st of (out, prev, cur) \<Rightarrow>
        let stride = 1 + width * bpp;
            rowOff = y * stride;
            filterType = getb inflated rowOff;
            cur' = fold (reverseFilterAt inflated rowOff filterType bpp prev)
                      [0..<width * bpp] cur;
            out' = fold (convertPixel bpp cur' width y) [0..<width] out
        in (out', cur', cur'))"

definition decodeRows ::
  "u8array \<Rightarrow> nat \<Rightarrow> nat \<Rightarrow> nat \<Rightarrow> nat \<Rightarrow> u8array \<times> u8array \<times> u8array" where
  "decodeRows inflated width height bpp n =
     fold (decodeRow inflated width bpp) [0..<n]
       (replicate (width * height * 4) 0, replicate (width * bpp) 0, replicate (width * bpp) 0)"

definition decodePixels :: "u8array \<Rightarrow> nat \<Rightarrow> nat \<Rightarrow> nat \<Rightarrow> u8array" where
  "decodePixels inflated width height bpp = fst (decodeRows inflated width height bpp height)"

text \<open>
  The unfiltered row \<open>y\<close>: the contents of \<open>curr\<close> when the pixel loop of row \<open>y\<close> runs.
\<close>

definition currRow :: "u8array \<Rightarrow> nat \<Rightarrow> nat \<Rightarrow> nat \<Rightarrow> nat \<Rightarrow> u8array" where
  "currRow inflated width height bpp y = snd (snd (decodeRows inflated width height bpp (Suc y)))"

text \<open>
  The four bytes the pixel loop stores for pixel \<open>x\<close>, in the order R, G, B, A: the
  right-hand sides of the assignments to \<^verbatim>\<open>out[d]\<close> .. \<^verbatim>\<open>out[d + 3]\<close>, collected
  for the statements below.
\<close>

definition pixelOut :: "nat \<Rightarrow> u8array \<Rightarrow> nat \<Rightarrow> 8 word list" where
  "pixelOut bpp cur x =
     (let s = x * bpp;
          B = getb cur s;
          G = getb cur (s + 1);
          R = getb cur (s + 2);
          A = (if bpp = 4 then getb cur (s + 3) else Some 255)
      in if A = Some 0 then [0, 0, 0, 0]
         else if (case A of None \<Rightarrow> False | Some al \<Rightarrow> al < 255) \<and> bpp = 4
           then [toUint8 (unpremultiply R (the A)), toUint8 (unpremultiply G (the A)),
                 toUint8 (unpremultiply B (the A)), toUint8 A]
         else [toUint8 R, toUint8 G, toUint8 B, toUint8 A])"

section \<open>CgBI PNG restorer: theorems\<close>

subsection \<open>The pixel loop writes each pixel once\<close>

lemma length_pixelOut: "length (pixelOut bpp cur x) = 4"
  by (simp add: pixelOut_def Let_def)

lemma length_setb: "length (setb xs k v) = length xs"
  by (simp add: setb_def)

lemma length_convertPixel: "length (convertPixel bpp cur w y x out) = length out"
  by (simp add: convertPixel_def Let_def length_setb)

lemma toUint8_0: "toUint8 (Some 0) = 0"
  by (simp add: toUint8_def)

lemma nth4:
  fixes k :: nat
  assumes "k < 4"
  shows "k = 0 \<or> k = 1 \<or> k = 2 \<or> k = 3"
  using assms by arith

lemma convertPixel_nth_in:
  assumes "k < 4" "(y * w + x) * 4 + k < length out"
  shows "convertPixel bpp cur w y x out ! ((y * w + x) * 4 + k) = pixelOut bpp cur x ! k"
  using nth4 [OF assms(1)] assms(2)
  by (auto simp add: convertPixel_def pixelOut_def Let_def setb_def toUint8_0)

lemma convertPixel_nth_out:
  assumes "j < (y * w + x) * 4 \<or> (y * w + x) * 4 + 4 \<le> j"
  shows "convertPixel bpp cur w y x out ! j = out ! j"
  using assms
  by (auto simp add: convertPixel_def Let_def setb_def)

lemma length_fold_convertPixel:
  "length (fold (convertPixel bpp cur w y) xs out) = length out"
  by (induction xs arbitrary: out) (simp_all add: length_convertPixel)

lemma fold_upt_Suc: "fold f [0..<Suc n] s = f n (fold f [0..<n] s)"
  by simp

lemma fold_convertPixel_nth_in:
  assumes "x < n" "k < 4" "(y * w + x) * 4 + k < length out"
  shows "fold (convertPixel bpp cur w y) [0..<n] out ! ((y * w + x) * 4 + k) = pixelOut bpp cur x ! k"
  using assms
proof (induction n)
  case 0
  then show ?case by simp
next
  case (Suc n)
  let ?o = "fold (convertPixel bpp cur w y) [0..<n] out"
  have len: "length ?o = length out" by (rule length_fold_convertPixel)
  show ?case
  proof (cases "x = n")
    case True
    have "convertPixel bpp cur w y x ?o ! ((y * w + x) * 4 + k) = pixelOut bpp cur x ! k"
      by (rule convertPixel_nth_in) (use Suc.prems len in simp_all)
    then show ?thesis unfolding fold_upt_Suc True .
  next
    case False
    with Suc.prems have lt: "x < n" by simp
    have "(y * w + x) * 4 + k < (y * w + n) * 4 \<or> (y * w + n) * 4 + 4 \<le> (y * w + x) * 4 + k"
      using lt Suc.prems(2) by auto
    then have "convertPixel bpp cur w y n ?o ! ((y * w + x) * 4 + k) = ?o ! ((y * w + x) * 4 + k)"
      by (rule convertPixel_nth_out)
    then show ?thesis
      unfolding fold_upt_Suc using Suc.IH [OF lt Suc.prems(2,3)] by simp
  qed
qed

lemma fold_convertPixel_nth_out:
  assumes "j < y * w * 4 \<or> (y * w + n) * 4 \<le> j"
  shows "fold (convertPixel bpp cur w y) [0..<n] out ! j = out ! j"
  using assms
proof (induction n)
  case 0
  then show ?case by simp
next
  case (Suc n)
  let ?o = "fold (convertPixel bpp cur w y) [0..<n] out"
  have a: "j < y * w * 4 \<or> (y * w + n) * 4 \<le> j" using Suc.prems by auto
  have b: "j < (y * w + n) * 4 \<or> (y * w + n) * 4 + 4 \<le> j" using Suc.prems by auto
  have "convertPixel bpp cur w y n ?o ! j = ?o ! j"
    using b by (rule convertPixel_nth_out)
  then show ?case unfolding fold_upt_Suc using Suc.IH [OF a] by simp
qed

lemma length_reverseFilterAt:
  "length (reverseFilterAt inflated rowOff ft bpp prev i cur) = length cur"
  by (simp add: reverseFilterAt_def Let_def length_setb)

lemma length_fold_reverseFilterAt:
  "length (fold (reverseFilterAt inflated rowOff ft bpp prev) xs cur) = length cur"
  by (induction xs arbitrary: cur) (simp_all add: length_reverseFilterAt)

lemma decodeRow_lengths:
  "length (fst (decodeRow inflated w bpp y st)) = length (fst st)
   \<and> length (snd (snd (decodeRow inflated w bpp y st))) = length (snd (snd st))"
  by (cases st)
     (simp add: decodeRow_def Let_def length_fold_convertPixel length_fold_reverseFilterAt)

lemma decodeRow_nth_in:
  assumes "x < w" "k < 4" "(y * w + x) * 4 + k < length (fst st)"
  shows "fst (decodeRow inflated w bpp y st) ! ((y * w + x) * 4 + k)
         = pixelOut bpp (snd (snd (decodeRow inflated w bpp y st))) x ! k"
proof (cases st)
  case (fields out prev cur)
  let ?c = "fold (reverseFilterAt inflated (y * (1 + w * bpp)) (getb inflated (y * (1 + w * bpp))) bpp prev)
              [0..<w * bpp] cur"
  have "fold (convertPixel bpp ?c w y) [0..<w] out ! ((y * w + x) * 4 + k) = pixelOut bpp ?c x ! k"
    by (rule fold_convertPixel_nth_in) (use assms fields in simp_all)
  then show ?thesis by (simp add: fields decodeRow_def Let_def)
qed

lemma decodeRow_nth_out:
  assumes "j < y * w * 4"
  shows "fst (decodeRow inflated w bpp y st) ! j = fst st ! j"
proof (cases st)
  case (fields out prev cur)
  have "fold (convertPixel bpp cx w y) [0..<w] out ! j = out ! j" for cx
    by (rule fold_convertPixel_nth_out) (use assms in simp)
  then show ?thesis by (simp add: fields decodeRow_def Let_def)
qed

lemma decodeRows_Suc:
  "decodeRows inflated w h bpp (Suc n) = decodeRow inflated w bpp n (decodeRows inflated w h bpp n)"
  by (simp add: decodeRows_def)

lemma decodeRows_lengths:
  "length (fst (decodeRows inflated w h bpp n)) = w * h * 4
   \<and> length (snd (snd (decodeRows inflated w h bpp n))) = w * bpp"
proof (induction n)
  case 0
  show ?case by (simp add: decodeRows_def)
next
  case (Suc n)
  then show ?case unfolding decodeRows_Suc by (simp add: decodeRow_lengths)
qed

lemma decodeRows_stable:
  assumes "y < n" "j < Suc y * w * 4"
  shows "fst (decodeRows inflated w h bpp n) ! j = fst (decodeRows inflated w h bpp (Suc y)) ! j"
  using assms(1)
proof (induction n)
  case 0
  then show ?case by simp
next
  case (Suc n)
  show ?case
  proof (cases "y = n")
    case True
    then show ?thesis by simp
  next
    case False
    with Suc.prems have lt: "y < n" by simp
    then have "Suc y * w \<le> n * w" by (intro mult_le_mono1) simp
    with assms(2) have "j < n * w * 4" by simp
    then have "fst (decodeRow inflated w bpp n (decodeRows inflated w h bpp n)) ! j
               = fst (decodeRows inflated w h bpp n) ! j"
      by (rule decodeRow_nth_out)
    then have "fst (decodeRows inflated w h bpp (Suc n)) ! j
               = fst (decodeRows inflated w h bpp n) ! j"
      by (simp only: decodeRows_Suc)
    then show ?thesis using Suc.IH [OF lt] by simp
  qed
qed

lemma pixel_index_bound:
  fixes x y w h k :: nat
  assumes "x < w" "y < h" "k < 4"
  shows "(y * w + x) * 4 + k < Suc y * w * 4 \<and> Suc y * w * 4 \<le> w * h * 4"
proof -
  have "Suc y * w \<le> h * w" using assms(2) by (intro mult_le_mono1) simp
  moreover have "y * w + x < Suc y * w" using assms(1) by simp
  ultimately show ?thesis using assms(3) by (simp add: mult.commute)
qed

lemma decodePixels_nth:
  assumes "x < w" "y < h" "k < 4"
  shows "decodePixels inflated w h bpp ! ((y * w + x) * 4 + k)
         = pixelOut bpp (currRow inflated w h bpp y) x ! k"
proof -
  let ?j = "(y * w + x) * 4 + k"
  from pixel_index_bound [OF assms]
  have b1: "?j < Suc y * w * 4" and b2: "Suc y * w * 4 \<le> w * h * 4" by simp_all
  have "decodePixels inflated w h bpp ! ?j = fst (decodeRows inflated w h bpp (Suc y)) ! ?j"
    unfolding decodePixels_def using assms(2) b1 by (rule decodeRows_stable)
  also have "\<dots> = pixelOut bpp (currRow inflated w h bpp y) x ! k"
    unfolding currRow_def decodeRows_Suc
    by (rule decodeRow_nth_in) (use assms b1 b2 decodeRows_lengths [of inflated w h bpp y] in simp_all)
  finally show ?thesis .
qed

lemma length_currRow: "length (currRow inflated w h bpp y) = w * bpp"
  unfolding currRow_def using decodeRows_lengths by blast

lemma mathRoundDiv_floor:
  assumes "0 < d"
  shows "mathRoundDiv n d = \<lfloor>real_of_int n / real_of_int d + 1 / 2\<rfloor>"
proof -
  have "real_of_int n / real_of_int d + 1 / 2 = real_of_int (2 * n + d) / real_of_int (2 * d)"
    using assms by (simp add: field_simps)
  then show ?thesis
    unfolding mathRoundDiv_def by (simp only: floor_divide_of_int_eq)
qed

lemma uint_toUint8_unpremultiply:
  fixes C A :: int
  assumes "0 \<le> C" "0 < A"
  shows "uint (toUint8 (unpremultiply (Some C) A))
         = min 255 \<lfloor>real_of_int (C * 255) / real_of_int A + 1 / 2\<rfloor>"
proof -
  let ?v = "min 255 (mathRoundDiv (C * 255) A)"
  have "0 \<le> mathRoundDiv (C * 255) A"
    unfolding mathRoundDiv_def using assms by (intro pos_imp_zdiv_nonneg_iff [THEN iffD2]) auto
  then have "0 \<le> ?v" "?v < 256" by simp_all
  then have "uint (word_of_int ?v :: 8 word) = ?v"
    by (simp add: uint_word_of_int)
  then show ?thesis
    by (simp add: toUint8_def unpremultiply_def mathRoundDiv_floor [OF assms(2)])
qed

lemma pixelOut_rgba_partial:
  assumes "x < w" "length cur = w * 4"
    and "0 < uint (cur ! (x * 4 + 3))" "uint (cur ! (x * 4 + 3)) < 255"
  shows "pixelOut 4 cur x =
          [toUint8 (unpremultiply (Some (uint (cur ! (x * 4 + 2)))) (uint (cur ! (x * 4 + 3)))),
           toUint8 (unpremultiply (Some (uint (cur ! (x * 4 + 1)))) (uint (cur ! (x * 4 + 3)))),
           toUint8 (unpremultiply (Some (uint (cur ! (x * 4)))) (uint (cur ! (x * 4 + 3)))),
           cur ! (x * 4 + 3)]"
  using assms by (simp add: pixelOut_def getb_def Let_def toUint8_def)


text \<open>
  Claim C2. In \<^verbatim>\<open>_decodePixels\<close> with RGBA input (\<open>bpp = 4\<close>), take any pixel \<open>x\<close> of any
  row \<open>y\<close> whose unfiltered bytes are \<open>B, G, R, A\<close> with \<open>0 < A < 255\<close>. The output holds,
  at the pixel's offset \<open>(y * width + x) * 4\<close>, the colour channels
  \<open>min 255 (round (C * 255 / A))\<close> for \<open>C = R, G, B\<close> in this order (\<open>round v\<close> being
  \<open>floor (v + 1/2)\<close>, as \<^verbatim>\<open>Math.round\<close> is), followed by the alpha \<open>A\<close> unchanged.
\<close>

theorem decodePixels_unpremultiply:
  assumes "x < width" and "y < height"
    and "B = uint (currRow inflated width height 4 y ! (x * 4))"
    and "G = uint (currRow inflated width height 4 y ! (x * 4 + 1))"
    and "R = uint (currRow inflated width height 4 y ! (x * 4 + 2))"
    and "A = uint (currRow inflated width height 4 y ! (x * 4 + 3))"
    and "0 < A" and "A < 255"
  shows "uint (decodePixels inflated width height 4 ! ((y * width + x) * 4))
           = min 255 \<lfloor>real_of_int (R * 255) / real_of_int A + 1 / 2\<rfloor>
       \<and> uint (decodePixels inflated width height 4 ! ((y * width + x) * 4 + 1))
           = min 255 \<lfloor>real_of_int (G * 255) / real_of_int A + 1 / 2\<rfloor>
       \<and> uint (decodePixels inflated width height 4 ! ((y * width + x) * 4 + 2))
           = min 255 \<lfloor>real_of_int (B * 255) / real_of_int A + 1 / 2\<rfloor>
       \<and> uint (decodePixels inflated width height 4 ! ((y * width + x) * 4 + 3)) = A"
proof -
  let ?row = "currRow inflated width height 4 y"
  let ?out = "decodePixels inflated width height 4"
  let ?d = "(y * width + x) * 4"
  have px: "pixelOut 4 ?row x =
          [toUint8 (unpremultiply (Some R) A), toUint8 (unpremultiply (Some G) A),
           toUint8 (unpremultiply (Some B) A), ?row ! (x * 4 + 3)]"
    using pixelOut_rgba_partial [OF assms(1) length_currRow, of inflated height y] assms(3-8)
    by simp
  have nth: "?out ! (?d + k) = pixelOut 4 ?row x ! k" if "k < 4" for k
    using assms(1,2) that by (rule decodePixels_nth)
  have n0: "?out ! ?d = toUint8 (unpremultiply (Some R) A)"
    using nth [of 0] px by simp
  have n1: "?out ! (?d + 1) = toUint8 (unpremultiply (Some G) A)"
    using nth [of 1] px by simp
  have n2: "?out ! (?d + 2) = toUint8 (unpremultiply (Some B) A)"
    using nth [of 2] px by simp
  have n3: "?out ! (?d + 3) = ?row ! (x * 4 + 3)"
    using nth [of 3] px by simp
  have nonneg: "0 \<le> R" "0 \<le> G" "0 \<le> B"
    using assms(3-5) by simp_all
  show ?thesis
    unfolding n0 n1 n2 n3
    using nonneg assms(6,7) by (simp add: uint_toUint8_unpremultiply)
qed

text \<open>
  Witness for C2, the fixture of the specification: one pixel stored as BGRA
  \<open>(80, 80, 80, 128)\<close> under filter type 0 decodes to RGBA \<open>(159, 159, 159, 128)\<close>.
\<close>

theorem decodePixels_unpremultiply_witness:
  "uint (decodePixels [0, 80, 80, 80, 128] 1 1 4 ! 0) = 159
   \<and> uint (decodePixels [0, 80, 80, 80, 128] 1 1 4 ! 1) = 159
   \<and> uint (decodePixels [0, 80, 80, 80, 128] 1 1 4 ! 2) = 159
   \<and> uint (decodePixels [0, 80, 80, 80, 128] 1 1 4 ! 3) = 128"
proof -
  have row: "currRow [0, 80, 80, 80, 128] 1 1 4 0 = [80, 80, 80, 128]"
    by code_simp
  have fl: "\<lfloor>real_of_int (80 * 255) / real_of_int 128 + 1 / 2\<rfloor> = 159"
    by (simp add: floor_eq_iff)
  have h1: "(0::nat) < 1" by simp
  have hB: "80 = uint (currRow [0, 80, 80, 80, 128] 1 1 4 0 ! (0 * 4))"
    unfolding row by simp
  have hG: "80 = uint (currRow [0, 80, 80, 80, 128] 1 1 4 0 ! (0 * 4 + 1))"
    unfolding row by simp
  have hR: "80 = uint (currRow [0, 80, 80, 80, 128] 1 1 4 0 ! (0 * 4 + 2))"
    unfolding row by simp
  have hA: "128 = uint (currRow [0, 80, 80, 80, 128] 1 1 4 0 ! (0 * 4 + 3))"
    unfolding row by simp
  have lo: "(0::int) < 128" and hi: "(128::int) < 255" by simp_all
  show ?thesis
    using decodePixels_unpremultiply [OF h1 h1 hB hG hR hA lo hi]
    unfolding fl by (simp add: numeral_2_eq_2)
qed


subsection \<open>The Paeth predictor\<close>

text \<open>
  Claim C8. The Paeth predictor returns one of \<open>a\<close>, \<open>b\<close>, \<open>c\<close>, and the one it returns has
  the smallest absolute distance from \<open>p = a + b - c\<close>. Ties break in the order a, b, c:
  \<open>a\<close> is returned whenever its distance is minimal (also when \<open>b\<close> or \<open>c\<close> is as near),
  \<open>b\<close> is returned when it is strictly nearer than \<open>a\<close> and at least as near as \<open>c\<close>, and
  \<open>c\<close> only when it is strictly nearer than both.
\<close>

theorem paeth_nearest_ties_a_b_c:
  fixes a b c :: int
  shows "paeth a b c \<in> {a, b, c}
       \<and> \<bar>(a + b - c) - paeth a b c\<bar> \<le> \<bar>(a + b - c) - a\<bar>
       \<and> \<bar>(a + b - c) - paeth a b c\<bar> \<le> \<bar>(a + b - c) - b\<bar>
       \<and> \<bar>(a + b - c) - paeth a b c\<bar> \<le> \<bar>(a + b - c) - c\<bar>
       \<and> (\<bar>(a + b - c) - a\<bar> \<le> \<bar>(a + b - c) - b\<bar> \<and> \<bar>(a + b - c) - a\<bar> \<le> \<bar>(a + b - c) - c\<bar>
            \<longrightarrow> paeth a b c = a)
       \<and> (\<bar>(a + b - c) - b\<bar> < \<bar>(a + b - c) - a\<bar> \<and> \<bar>(a + b - c) - b\<bar> \<le> \<bar>(a + b - c) - c\<bar>
            \<longrightarrow> paeth a b c = b)
       \<and> (\<bar>(a + b - c) - c\<bar> < \<bar>(a + b - c) - a\<bar> \<and> \<bar>(a + b - c) - c\<bar> < \<bar>(a + b - c) - b\<bar>
            \<longrightarrow> paeth a b c = c)"
  unfolding paeth_def Let_def by auto

text \<open>
  Witness for C8: with \<open>a = b = 5\<close> and \<open>c = 0\<close>, \<open>a\<close> and \<open>b\<close> are equally near
  (distance 5, \<open>c\<close> has distance 10) and \<open>a\<close> wins; with \<open>a = 9\<close>, \<open>b = 3\<close>, \<open>c = 3\<close>
  all three distances differ and the nearest, \<open>a\<close>, wins.
\<close>

theorem paeth_nearest_ties_a_b_c_witness:
  "paeth 5 5 0 = 5 \<and> paeth 9 3 3 = 9"
  using paeth_nearest_ties_a_b_c [of 5 5 0] paeth_nearest_ties_a_b_c [of 9 3 3]
  by simp

section \<open>JavaScript values shared by the decoders\<close>

text \<open>
  A JavaScript string is a sequence of UTF-16 code units; \<open>lit\<close> is a string literal of the
  source (ASCII).
\<close>

type_synonym jsstring = "nat list"

definition lit :: "string \<Rightarrow> jsstring" where
  "lit s = map of_char s"

text \<open>
  The values the decoders store in attributes, and those a property read gives.
  \<open>JFloat w\<close> is the number whose IEEE-754 single-precision bits are \<open>w\<close> (the result of
  \<^verbatim>\<open>getFloat32\<close>). \<open>JMember n\<close> is the member of \<^verbatim>\<open>Object.prototype\<close> with the name \<open>n\<close>,
  which a read of \<open>n\<close> on a plain object gives when the object has no property of its
  own with that name: a function, or for \<^verbatim>\<open>__proto__\<close> the prototype itself. The decoders
  read members but store none.
\<close>

datatype jsval =
    JUndefined
  | JNull
  | JBool bool
  | JNum int
  | JStr jsstring
  | JFloat "32 word"
  | JMember jsstring

text \<open>
  Three functions of the platform are parameters of the decoders: \<open>utf8Decode\<close> is
  \<^verbatim>\<open>new TextDecoder('utf-8').decode\<close>; \<open>numberText m r\<close> is the text JavaScript gives
  the number \<open>m * 2 ^ -k\<close> when it is concatenated with a string, for \<open>k\<close> = 0, 7, 15, 23
  at \<open>r\<close> = 0, 1, 2, 3 (the product \<^verbatim>\<open>mantissa * factors[radix]\<close> of
  \<^verbatim>\<open>_complexToFloat\<close>); and \<open>functionText n\<close> is the text, in a template literal, of the
  function that is the member \<open>n\<close> of \<^verbatim>\<open>Object.prototype\<close>.
\<close>

record platform =
  utf8Decode :: "8 word list \<Rightarrow> jsstring"
  numberText :: "nat \<Rightarrow> nat \<Rightarrow> jsstring"
  functionText :: "jsstring \<Rightarrow> jsstring"

text \<open>
  The platform of the closed examples below. Their strings are ASCII, which
  \<^verbatim>\<open>TextDecoder\<close> maps byte by byte to code units, and they hold no dimension or
  fraction value, so \<open>numberText\<close> is never called in them; the text of a function is
  V8's, where the member \<^verbatim>\<open>constructor\<close> is the function \<^verbatim>\<open>Object\<close> and every other
  function has the name of the member.
\<close>

definition asciiPlatform :: platform where
  "asciiPlatform =
     \<lparr>utf8Decode = map unat, numberText = (\<lambda>m r. []),
      functionText = (\<lambda>n. lit ''function ''
                           @ (if n = lit ''constructor'' then lit ''Object'' else n)
                           @ lit ''() { [native code] }'')\<rparr>"

text \<open>\<^verbatim>\<open>ToBoolean\<close>, as used by \<^verbatim>\<open>&&\<close>, \<^verbatim>\<open>||\<close>, \<^verbatim>\<open>?:\<close> and \<^verbatim>\<open>filter(Boolean)\<close>.\<close>

fun truthy :: "jsval \<Rightarrow> bool" where
  "truthy JUndefined = False"
| "truthy JNull = False"
| "truthy (JBool b) = b"
| "truthy (JNum n) = (n \<noteq> 0)"
| "truthy (JStr s) = (s \<noteq> [])"
| "truthy (JFloat w) =
     (w AND 0x7FFFFFFF \<noteq> 0 \<and> \<not> (w AND 0x7F800000 = 0x7F800000 \<and> w AND 0x7FFFFF \<noteq> 0))"
| "truthy (JMember n) = True"

text \<open>
  An error object: \<open>JsError msg\<close> is \<^verbatim>\<open>new Error(msg)\<close>, thrown by the source;
  \<open>JsRangeError msg\<close> is a \<^verbatim>\<open>RangeError\<close> thrown by the platform (a \<^verbatim>\<open>DataView\<close> read or
  a typed-array view outside the buffer). The message of a platform error is the
  engine's; the text used here is V8's.
\<close>

datatype js_error = JsError jsstring | JsRangeError jsstring

definition message :: "js_error \<Rightarrow> jsstring" where
  "message e = (case e of JsError m \<Rightarrow> m | JsRangeError m \<Rightarrow> m)"

definition isRangeError :: "js_error \<Rightarrow> bool" where
  "isRangeError e = (case e of JsError m \<Rightarrow> False | JsRangeError m \<Rightarrow> True)"

definition dataViewRangeError :: js_error where
  "dataViewRangeError = JsRangeError (lit ''Offset is outside the bounds of the DataView'')"

text \<open>
  The decimal text of a number, and the error of a typed-array view of \<open>n\<close> elements that
  does not lie in its buffer.
\<close>

function decimal :: "nat \<Rightarrow> jsstring" where
  "decimal n = (if n < 10 then [48 + n] else decimal (n div 10) @ [48 + n mod 10])"
  by pat_completeness auto
termination
  by (relation "measure id") auto

declare decimal.simps [simp del]

definition typedArrayRangeError :: "nat \<Rightarrow> js_error" where
  "typedArrayRangeError n = JsRangeError (lit ''Invalid typed array length: '' @ decimal n)"

text \<open>
  An object created as \<^verbatim>\<open>{}\<close> and used as a dictionary: its own properties, an
  association list in insertion order, and whether its prototype still is
  \<^verbatim>\<open>Object.prototype\<close>, as it is at creation. The names of the members of
  \<^verbatim>\<open>Object.prototype\<close> are those of ECMAScript, with the ones of its Annex B, which
  browsers have.
\<close>

datatype 'v jsobject = JsObject (own: "(jsstring \<times> 'v) list") (plain: bool)

definition emptyObject :: "'v jsobject" where
  "emptyObject = JsObject [] True"

definition protoName :: jsstring where
  "protoName = lit ''__proto__''"

definition prototypeNames :: "jsstring list" where
  "prototypeNames = map lit
     [''constructor'', ''__defineGetter__'', ''__defineSetter__'', ''hasOwnProperty'',
      ''__lookupGetter__'', ''__lookupSetter__'', ''isPrototypeOf'', ''propertyIsEnumerable'',
      ''toString'', ''valueOf'', ''__proto__'', ''toLocaleString'']"

text \<open>
  A read \<^verbatim>\<open>obj[key]\<close>: the own property, else the member of the prototype with that name,
  else nothing (\<^verbatim>\<open>undefined\<close>).
\<close>

datatype 'v lookup = Own 'v | Inherited jsstring | Absent

definition lookupProp :: "'v jsobject \<Rightarrow> jsstring \<Rightarrow> 'v lookup" where
  "lookupProp obj key =
     (case map_of (own obj) key of
        Some v \<Rightarrow> Own v
      | None \<Rightarrow> if plain obj \<and> key \<in> set prototypeNames then Inherited key else Absent)"

text \<open>
  A store \<^verbatim>\<open>obj[key] = v\<close> of a value that is not an object; \<open>null\<close> says that the value
  is \<^verbatim>\<open>null\<close>. On a plain object the name \<^verbatim>\<open>__proto__\<close> is the accessor it inherits, whose
  setter makes no property: it takes the prototype away when the value is \<^verbatim>\<open>null\<close> and
  does nothing for another value. Every other store, and a store of \<^verbatim>\<open>__proto__\<close> on an
  object without prototype, makes or updates an own property.
\<close>

definition setProp :: "bool \<Rightarrow> jsstring \<Rightarrow> 'v \<Rightarrow> 'v jsobject \<Rightarrow> 'v jsobject" where
  "setProp null key v obj =
     (if key = protoName \<and> plain obj
      then (if null then JsObject (own obj) False else obj)
      else JsObject (AList.update key v (own obj)) (plain obj))"

text \<open>
  The element tree both XML decoders produce:
  \<^verbatim>\<open>{ tag, attributes: {}, children: [], _rawAttrs: [] }\<close>. An entry of \<^verbatim>\<open>_rawAttrs\<close> is
  \<^verbatim>\<open>{ namespace, name, value, type, data }\<close>; the proto-XML walker leaves \<^verbatim>\<open>type\<close> and
  \<^verbatim>\<open>data\<close> out.
\<close>

record rawattr =
  ra_namespace :: jsval
  ra_name :: jsval
  ra_value :: jsval
  ra_type :: "nat option"
  ra_data :: "nat option"

datatype element =
  Element (tag: jsval) (attributes: "jsval jsobject") (children: "element list")
    (rawAttrs: "rawattr list")

text \<open>\<^verbatim>\<open>obj[key]\<close> on a dictionary of values, as a value.\<close>

definition getProp :: "jsval jsobject \<Rightarrow> jsstring \<Rightarrow> jsval" where
  "getProp obj key =
     (case lookupProp obj key of
        Own v \<Rightarrow> v
      | Inherited n \<Rightarrow> JMember n
      | Absent \<Rightarrow> JUndefined)"

text \<open>\<^verbatim>\<open>obj[key] = v\<close> on a dictionary of values, for a value the decoders store.\<close>

definition putProp :: "jsstring \<Rightarrow> jsval \<Rightarrow> jsval jsobject \<Rightarrow> jsval jsobject" where
  "putProp key v obj = setProp (v = JNull) key v obj"

text \<open>
  The text of a member of \<^verbatim>\<open>Object.prototype\<close> in a template literal: the prototype is
  an object, the other members are functions.
\<close>

definition memberText :: "platform \<Rightarrow> jsstring \<Rightarrow> jsstring" where
  "memberText pf n = (if n = protoName then lit ''[object Object]'' else functionText pf n)"

text \<open>The text of a value inside a template literal or as a property key.\<close>

definition hexDigit :: "nat \<Rightarrow> nat" where
  "hexDigit d = (if d < 10 then 48 + d else 87 + d)"

function hexLower :: "nat \<Rightarrow> jsstring" where
  "hexLower n = (if n < 16 then [hexDigit n] else hexLower (n div 16) @ [hexDigit (n mod 16)])"
  by pat_completeness auto
termination
  by (relation "measure id") auto

section \<open>AXML decoder: definitions\<close>

subsection \<open>State-and-exception passing\<close>

text \<open>
  A method that reads and updates the fields of \<^verbatim>\<open>this\<close> and may throw is a function
  from the state to either the error thrown or the result with the new state.
\<close>

definition bindS ::
  "('s \<Rightarrow> 'e + ('a \<times> 's)) \<Rightarrow> ('a \<Rightarrow> 's \<Rightarrow> 'e + ('b \<times> 's)) \<Rightarrow> 's \<Rightarrow> 'e + ('b \<times> 's)" where
  "bindS m k s = (case m s of Inl e \<Rightarrow> Inl e | Inr (a, s') \<Rightarrow> k a s')"

definition retS :: "'a \<Rightarrow> 's \<Rightarrow> 'e + ('a \<times> 's)" where
  "retS a s = Inr (a, s)"

subsection \<open>DataView reads, little-endian\<close>

text \<open>A read of \<open>n\<close> bytes at \<open>off\<close> throws \<^verbatim>\<open>RangeError\<close> unless \<open>off + n\<close> is within the buffer.\<close>

definition getUint8 :: "u8array \<Rightarrow> nat \<Rightarrow> js_error + nat" where
  "getUint8 buf off =
     (if off + 1 \<le> length buf then Inr (unat (buf ! off)) else Inl dataViewRangeError)"

definition getUint16 :: "u8array \<Rightarrow> nat \<Rightarrow> js_error + nat" where
  "getUint16 buf off =
     (if off + 2 \<le> length buf then Inr (unat (buf ! off) + 256 * unat (buf ! (off + 1)))
      else Inl dataViewRangeError)"

definition getUint32 :: "u8array \<Rightarrow> nat \<Rightarrow> js_error + nat" where
  "getUint32 buf off =
     (if off + 4 \<le> length buf
      then Inr (unat (buf ! off) + 256 * unat (buf ! (off + 1)) + 65536 * unat (buf ! (off + 2))
                + 16777216 * unat (buf ! (off + 3)))
      else Inl dataViewRangeError)"

definition getInt32 :: "u8array \<Rightarrow> nat \<Rightarrow> js_error + int" where
  "getInt32 buf off =
     (case getUint32 buf off of
        Inl e \<Rightarrow> Inl e
      | Inr u \<Rightarrow> Inr (if u < 2147483648 then int u else int u - 4294967296))"

subsection \<open>The parser object\<close>

text \<open>
  The mutable fields of an \<^verbatim>\<open>AXMLParser\<close>; the buffer is never written and is passed
  beside the state.
\<close>

record axml =
  offset :: nat
  strings :: "jsstring list"
  resourceIds :: "nat list"
  namespaces :: "jsstring jsobject"

definition readUint8 :: "u8array \<Rightarrow> axml \<Rightarrow> js_error + (nat \<times> axml)" where
  "readUint8 buf st =
     (case getUint8 buf (offset st) of
        Inl e \<Rightarrow> Inl e
      | Inr v \<Rightarrow> Inr (v, st\<lparr>offset := offset st + 1\<rparr>))"

definition readUint16 :: "u8array \<Rightarrow> axml \<Rightarrow> js_error + (nat \<times> axml)" where
  "readUint16 buf st =
     (case getUint16 buf (offset st) of
        Inl e \<Rightarrow> Inl e
      | Inr v \<Rightarrow> Inr (v, st\<lparr>offset := offset st + 2\<rparr>))"

definition readUint32 :: "u8array \<Rightarrow> axml \<Rightarrow> js_error + (nat \<times> axml)" where
  "readUint32 buf st =
     (case getUint32 buf (offset st) of
        Inl e \<Rightarrow> Inl e
      | Inr v \<Rightarrow> Inr (v, st\<lparr>offset := offset st + 4\<rparr>))"

definition readInt32 :: "u8array \<Rightarrow> axml \<Rightarrow> js_error + (int \<times> axml)" where
  "readInt32 buf st =
     (case getInt32 buf (offset st) of
        Inl e \<Rightarrow> Inl e
      | Inr v \<Rightarrow> Inr (v, st\<lparr>offset := offset st + 4\<rparr>))"

subsection \<open>Strings of the pool\<close>

text \<open>\<^verbatim>\<open>_str(index)\<close>: the pooled string, or \<^verbatim>\<open>null\<close> (\<open>None\<close>).\<close>

definition axml_str :: "jsstring list \<Rightarrow> int \<Rightarrow> jsstring option" where
  "axml_str strs index =
     (if index < 0 \<or> index \<ge> int (length strs) then None else Some (strs ! nat index))"

definition strVal :: "jsstring option \<Rightarrow> jsval" where
  "strVal s = (case s of None \<Rightarrow> JNull | Some t \<Rightarrow> JStr t)"

text \<open>The text of a string-or-null inside a template literal or as a property key.\<close>

definition strText :: "jsstring option \<Rightarrow> jsstring" where
  "strText s = (case s of None \<Rightarrow> lit ''null'' | Some t \<Rightarrow> t)"

primrec readUint32s :: "u8array \<Rightarrow> nat \<Rightarrow> axml \<Rightarrow> js_error + (nat list \<times> axml)" where
  "readUint32s buf 0 st = Inr ([], st)"
| "readUint32s buf (Suc n) st =
     (case readUint32 buf st of
        Inl e \<Rightarrow> Inl e
      | Inr (v, st1) \<Rightarrow>
          (case readUint32s buf n st1 of
             Inl e \<Rightarrow> Inl e
           | Inr (vs, st2) \<Rightarrow> Inr (v # vs, st2)))"

primrec getUint16s :: "u8array \<Rightarrow> nat \<Rightarrow> nat \<Rightarrow> js_error + nat list" where
  "getUint16s buf n 0 = Inr []"
| "getUint16s buf off (Suc n) =
     (case getUint16 buf off of
        Inl e \<Rightarrow> Inl e
      | Inr v \<Rightarrow>
          (case getUint16s buf (off + 2) n of
             Inl e \<Rightarrow> Inl e
           | Inr vs \<Rightarrow> Inr (v # vs)))"

text \<open>
  The body of the \<^verbatim>\<open>try\<close> block of \<^verbatim>\<open>_readStringAt\<close>. \<open>pf\<close> stands for
  \<^verbatim>\<open>new TextDecoder('utf-8').decode\<close>, a function of the platform.
\<close>

definition readStringBody ::
  "platform \<Rightarrow> u8array \<Rightarrow> bool \<Rightarrow> axml \<Rightarrow> js_error + (jsstring \<times> axml)" where
  "readStringBody pf buf isUTF8 =
     (if isUTF8 then
        bindS (readUint8 buf) (\<lambda>u16len.
        bindS (if bit u16len 7 then readUint8 buf else retS 0) (\<lambda>skipped.
        bindS (readUint8 buf) (\<lambda>u8len0.
        bindS (if bit u8len0 7
               then bindS (readUint8 buf) (\<lambda>b. retS ((u8len0 mod 128) * 256 + b))
               else retS u8len0) (\<lambda>u8len st.
          if offset st + u8len \<le> length buf
          then Inr (utf8Decode pf (take u8len (drop (offset st) buf)), st)
          else Inl (typedArrayRangeError u8len)))))
      else
        bindS (readUint16 buf) (\<lambda>charCount0.
        bindS (if bit charCount0 15
               then bindS (readUint16 buf) (\<lambda>w. retS ((charCount0 mod 32768) * 65536 + w))
               else retS charCount0) (\<lambda>charCount st.
          case getUint16s buf (offset st) charCount of
            Inl e \<Rightarrow> Inl e
          | Inr units \<Rightarrow> Inr (units, st))))"

text \<open>\<^verbatim>\<open>_readStringAt\<close>: the \<^verbatim>\<open>finally\<close> block puts the saved offset back.\<close>

definition readStringAt ::
  "platform \<Rightarrow> u8array \<Rightarrow> nat \<Rightarrow> bool \<Rightarrow> axml \<Rightarrow> js_error + (jsstring \<times> axml)" where
  "readStringAt pf buf off isUTF8 st =
     (case readStringBody pf buf isUTF8 (st\<lparr>offset := off\<rparr>) of
        Inl e \<Rightarrow> Inl e
      | Inr (s, st') \<Rightarrow> Inr (s, st'\<lparr>offset := offset st\<rparr>))"

primrec readStrings ::
  "platform \<Rightarrow> u8array \<Rightarrow> nat \<Rightarrow> bool \<Rightarrow> nat list \<Rightarrow> axml
     \<Rightarrow> js_error + (jsstring list \<times> axml)" where
  "readStrings pf buf dataStart isUTF8 [] st = Inr ([], st)"
| "readStrings pf buf dataStart isUTF8 (off # offs) st =
     (case readStringAt pf buf (dataStart + off) isUTF8 st of
        Inl e \<Rightarrow> Inl e
      | Inr (s, st1) \<Rightarrow>
          (case readStrings pf buf dataStart isUTF8 offs st1 of
             Inl e \<Rightarrow> Inl e
           | Inr (ss, st2) \<Rightarrow> Inr (s # ss, st2)))"

subsection \<open>Chunk parsers\<close>

definition parseStringPool ::
  "platform \<Rightarrow> u8array \<Rightarrow> nat \<Rightarrow> nat \<Rightarrow> axml \<Rightarrow> js_error + (unit \<times> axml)" where
  "parseStringPool pf buf chunkStart chunkSize =
     bindS (readUint32 buf) (\<lambda>stringCount.
     bindS (readUint32 buf) (\<lambda>styleCount.
     bindS (readUint32 buf) (\<lambda>flags.
     bindS (readUint32 buf) (\<lambda>stringsStart.
     bindS (readUint32 buf) (\<lambda>stylesStart.
     bindS (readUint32s buf stringCount) (\<lambda>stringOffsets st.
       bindS (readStrings pf buf (chunkStart + stringsStart) (bit flags 8) stringOffsets)
         (\<lambda>strs st'. Inr ((), st'\<lparr>strings := strs\<rparr>))
         (st\<lparr>offset := offset st + styleCount * 4\<rparr>)))))))"

definition parseResourceMap :: "u8array \<Rightarrow> nat \<Rightarrow> axml \<Rightarrow> js_error + (unit \<times> axml)" where
  "parseResourceMap buf chunkSize =
     bindS (readUint32s buf ((chunkSize - 8) div 4))
       (\<lambda>ids st. Inr ((), st\<lparr>resourceIds := ids\<rparr>))"

definition parseStartNamespace :: "u8array \<Rightarrow> axml \<Rightarrow> js_error + (unit \<times> axml)" where
  "parseStartNamespace buf =
     bindS (readUint32 buf) (\<lambda>lineNumber.
     bindS (readUint32 buf) (\<lambda>comment.
     bindS (readUint32 buf) (\<lambda>prefix.
     bindS (readUint32 buf) (\<lambda>uri st.
       case (axml_str (strings st) (int prefix), axml_str (strings st) (int uri)) of
         (Some prefixStr, Some uriStr) \<Rightarrow>
           if prefixStr \<noteq> [] \<and> uriStr \<noteq> []
           then Inr ((), st\<lparr>namespaces := setProp False uriStr prefixStr (namespaces st)\<rparr>)
           else Inr ((), st)
       | _ \<Rightarrow> Inr ((), st)))))"

definition skipNodeBody :: "axml \<Rightarrow> js_error + (unit \<times> axml)" where
  "skipNodeBody st = Inr ((), st\<lparr>offset := offset st + 16\<rparr>)"

definition complexToFloat :: "nat \<Rightarrow> nat \<times> nat" where
  "complexToFloat data = ((data div 256) mod 16777216, (data div 16) mod 4)"

definition resolveValue :: "platform \<Rightarrow> jsstring list \<Rightarrow> nat \<Rightarrow> nat \<Rightarrow> jsval" where
  "resolveValue pf strs type data =
     (if type = 0x03 then strVal (axml_str strs (int data))
      else if type = 0x10 then JNum (int data)
      else if type = 0x11 then JStr (lit ''0x'' @ hexLower data)
      else if type = 0x12 then JBool (data \<noteq> 0)
      else if type = 0x01 then JStr (lit ''@0x'' @ hexLower data)
      else if type = 0x02 then JStr (lit ''?0x'' @ hexLower data)
      else if type = 0x04 then JFloat (word_of_nat data)
      else if type = 0x05 then
        (case complexToFloat data of (mantissa, radix) \<Rightarrow>
           JStr (numberText pf mantissa radix @
             (if data mod 16 < 6
              then [lit ''px'', lit ''dp'', lit ''sp'', lit ''pt'', lit ''in'', lit ''mm''] ! (data mod 16)
              else [])))
      else if type = 0x06 then
        (case complexToFloat data of (mantissa, radix) \<Rightarrow>
           JStr (numberText pf mantissa radix @
             (if data mod 16 < 2 then [lit ''%'', lit ''%p''] ! (data mod 16) else [])))
      else if type = 0x00 then JNull
      else JNum (int data))"

text \<open>
  The key of an attribute in \<^verbatim>\<open>element.attributes\<close>:
  \<^verbatim>\<open>prefix = nsStr ? this.namespaces[nsStr] : null\<close> and
  \<^verbatim>\<open>key = prefix ? `${prefix}:${nameStr}` : nameStr\<close>.
\<close>

definition attrKey ::
  "platform \<Rightarrow> jsstring jsobject \<Rightarrow> jsstring option \<Rightarrow> jsstring option \<Rightarrow> jsstring" where
  "attrKey pf nss nsStr nameStr =
     (let prefix = (case nsStr of
                      None \<Rightarrow> Absent
                    | Some u \<Rightarrow> if u \<noteq> [] then lookupProp nss u else Absent)
      in case prefix of
           Own p \<Rightarrow> if p \<noteq> [] then p @ lit '':'' @ strText nameStr else strText nameStr
         | Inherited n \<Rightarrow> memberText pf n @ lit '':'' @ strText nameStr
         | Absent \<Rightarrow> strText nameStr)"

text \<open>One iteration of the attribute loop of \<^verbatim>\<open>_parseStartElement\<close>.\<close>

definition parseAttr :: "platform \<Rightarrow> u8array \<Rightarrow> nat \<Rightarrow> element \<Rightarrow> axml \<Rightarrow> js_error + (element \<times> axml)" where
  "parseAttr pf buf attrSize el st0 =
     bindS (readInt32 buf) (\<lambda>aNs.
     bindS (readUint32 buf) (\<lambda>aName.
     bindS (readInt32 buf) (\<lambda>aRawValue.
     bindS (readUint16 buf) (\<lambda>valueSize.
     bindS (readUint8 buf) (\<lambda>res0.
     bindS (readUint8 buf) (\<lambda>aType.
     bindS (readUint32 buf) (\<lambda>aData st.
       let st' = st\<lparr>offset := offset st0 + (if attrSize \<noteq> 0 then attrSize else 20)\<rparr>;
           nameStr = axml_str (strings st') (int aName);
           nsStr = (if aNs \<ge> 0 then axml_str (strings st') aNs else None);
           val = (if aRawValue \<ge> 0 then strVal (axml_str (strings st') aRawValue)
                  else resolveValue pf (strings st') aType aData);
           raw = \<lparr>ra_namespace = strVal nsStr, ra_name = strVal nameStr, ra_value = val,
                  ra_type = Some aType, ra_data = Some aData\<rparr>;
           key = attrKey pf (namespaces st') nsStr nameStr
       in Inr (Element (tag el) (putProp key val (attributes el)) (children el)
                 (rawAttrs el @ [raw]), st')))))))) st0"

primrec parseAttrs ::
  "platform \<Rightarrow> u8array \<Rightarrow> nat \<Rightarrow> nat \<Rightarrow> element \<Rightarrow> axml \<Rightarrow> js_error + (element \<times> axml)" where
  "parseAttrs pf buf attrSize 0 el st = Inr (el, st)"
| "parseAttrs pf buf attrSize (Suc n) el st =
     (case parseAttr pf buf attrSize el st of
        Inl e \<Rightarrow> Inl e
      | Inr (el', st') \<Rightarrow> parseAttrs pf buf attrSize n el' st')"

definition parseStartElement :: "platform \<Rightarrow> u8array \<Rightarrow> nat \<Rightarrow> axml \<Rightarrow> js_error + (element \<times> axml)" where
  "parseStartElement pf buf chunkStart =
     bindS (readUint32 buf) (\<lambda>lineNumber.
     bindS (readUint32 buf) (\<lambda>comment.
     bindS (readInt32 buf) (\<lambda>ns.
     bindS (readUint32 buf) (\<lambda>name.
     bindS (readUint16 buf) (\<lambda>attrStart.
     bindS (readUint16 buf) (\<lambda>attrSize.
     bindS (readUint16 buf) (\<lambda>attrCount.
     bindS (readUint16 buf) (\<lambda>idIndex.
     bindS (readUint16 buf) (\<lambda>classIndex.
     bindS (readUint16 buf) (\<lambda>styleIndex st.
       parseAttrs pf buf attrSize attrCount
         (Element (strVal (axml_str (strings st) (int name))) emptyObject [] [])
         (st\<lparr>offset := chunkStart + 16 + attrStart\<rparr>)))))))))))"

subsection \<open>The chunk loop\<close>

text \<open>
  The source keeps a stack of element objects, each already appended to the children of
  the one below it, and appends to the children of the top. Here the stack holds the
  open elements, innermost first, each with the children appended to it so far except
  the open one above it: popping an element appends it to its parent, and
  \<open>closeAll\<close> does so for every element still open when the loop ends, which gives the
  tree the source's \<^verbatim>\<open>root\<close> then is.
\<close>

definition rootDocument :: element where
  "rootDocument = Element (JStr (lit ''#document'')) emptyObject [] []"

definition addChild :: "element \<Rightarrow> element \<Rightarrow> element" where
  "addChild parent c =
     Element (tag parent) (attributes parent) (children parent @ [c]) (rawAttrs parent)"

fun popElement :: "element list \<Rightarrow> element list" where
  "popElement (e # parent # rest) = addChild parent e # rest"
| "popElement stack = stack"

fun closeAll :: "element list \<Rightarrow> element" where
  "closeAll [] = rootDocument"
| "closeAll [r] = r"
| "closeAll (e # parent # rest) = closeAll (addChild parent e # rest)"

definition parseChunk ::
  "platform \<Rightarrow> u8array \<Rightarrow> nat \<Rightarrow> nat \<Rightarrow> nat \<Rightarrow> element list \<Rightarrow> axml
     \<Rightarrow> js_error + (element list \<times> axml)" where
  "parseChunk pf buf chunkType chunkStart chunkSize stack =
     (if chunkType = 0x0001
        then bindS (parseStringPool pf buf chunkStart chunkSize) (\<lambda>u. retS stack)
      else if chunkType = 0x0180
        then bindS (parseResourceMap buf chunkSize) (\<lambda>u. retS stack)
      else if chunkType = 0x0100
        then bindS (parseStartNamespace buf) (\<lambda>u. retS stack)
      else if chunkType = 0x0101
        then bindS skipNodeBody (\<lambda>u. retS stack)
      else if chunkType = 0x0102
        then bindS (parseStartElement pf buf chunkStart) (\<lambda>el. retS (el # stack))
      else if chunkType = 0x0103
        then bindS skipNodeBody (\<lambda>u. retS (popElement stack))
      else retS stack)"

definition readChunkHeader :: "u8array \<Rightarrow> axml \<Rightarrow> js_error + ((nat \<times> nat \<times> nat) \<times> axml)" where
  "readChunkHeader buf =
     bindS (readUint16 buf) (\<lambda>chunkType.
     bindS (readUint16 buf) (\<lambda>chunkHeaderSize.
     bindS (readUint32 buf) (\<lambda>chunkSize.
       retS (chunkType, chunkHeaderSize, chunkSize))))"

function chunkLoop ::
  "platform \<Rightarrow> u8array \<Rightarrow> nat \<Rightarrow> element list \<Rightarrow> axml
     \<Rightarrow> js_error + (element list \<times> axml)" where
  "chunkLoop pf buf fileSize stack st =
     (if offset st < fileSize \<and> offset st < length buf then
        (case readChunkHeader buf st of
           Inl e \<Rightarrow> Inl e
         | Inr ((chunkType, chunkHeaderSize, chunkSize), st1) \<Rightarrow>
             if chunkSize < 8 \<or> offset st + chunkSize > length buf then Inr (stack, st1)
             else
               (case parseChunk pf buf chunkType (offset st) chunkSize stack st1 of
                  Inl e \<Rightarrow> Inl e
                | Inr (stack', st2) \<Rightarrow>
                    chunkLoop pf buf fileSize stack' (st2\<lparr>offset := offset st + chunkSize\<rparr>)))
      else Inr (stack, st))"
  by pat_completeness auto
termination
  by (relation "measure (\<lambda>(pf, buf, fileSize, stack, st). length buf - offset st)") auto

declare chunkLoop.simps [simp del]

definition notAxml :: js_error where
  "notAxml = JsError (lit ''Not a valid Android Binary XML file'')"

definition newAXMLParser :: axml where
  "newAXMLParser = \<lparr>offset = 0, strings = [], resourceIds = [], namespaces = emptyObject\<rparr>"

text \<open>\<^verbatim>\<open>new AXMLParser(buffer).parse()\<close>.\<close>

definition axml_parse :: "platform \<Rightarrow> u8array \<Rightarrow> js_error + element" where
  "axml_parse pf buf =
     (case bindS (readUint16 buf) (\<lambda>type.
           bindS (readUint16 buf) (\<lambda>headerSize.
           bindS (readUint32 buf) (\<lambda>fileSize st.
             if type \<noteq> 0x0003 then Inl notAxml
             else chunkLoop pf buf fileSize [rootDocument] st))) newAXMLParser of
        Inl e \<Rightarrow> Inl e
      | Inr (stack, st) \<Rightarrow>
          (case children (closeAll stack) of
             [] \<Rightarrow> Inr (closeAll stack)
           | c # cs \<Rightarrow> Inr c))"

section \<open>AXML decoder: theorems\<close>

text \<open>
  Offsets are sums of numerals; they stay numerals when \<open>n + 2\<close> is not rewritten to
  \<open>Suc (Suc n)\<close>.
\<close>

declare add_2_eq_Suc [simp del] add_2_eq_Suc' [simp del]

text \<open>The values the decoder stores in attributes are no members of the prototype.\<close>

lemma strVal_not_member:
  "strVal s \<noteq> JMember n"
  by (simp add: strVal_def split: option.splits)

lemma resolveValue_not_member:
  "resolveValue pf strs type data \<noteq> JMember n"
  by (simp add: resolveValue_def strVal_not_member split: prod.splits)

subsection \<open>Only out-of-bounds reads throw inside the chunk parsers\<close>

definition throwsOnlyRange :: "('s \<Rightarrow> js_error + 'a) \<Rightarrow> bool" where
  "throwsOnlyRange m = (\<forall>s e. m s = Inl e \<longrightarrow> isRangeError e)"

lemma throwsOnlyRangeI: "(\<And>s e. m s = Inl e \<Longrightarrow> isRangeError e) \<Longrightarrow> throwsOnlyRange m"
  by (simp add: throwsOnlyRange_def)

lemma throwsOnlyRangeD: "throwsOnlyRange m \<Longrightarrow> m s = Inl e \<Longrightarrow> isRangeError e"
  by (simp add: throwsOnlyRange_def)

lemma isRangeError_dataView: "isRangeError dataViewRangeError"
  by (simp add: isRangeError_def dataViewRangeError_def)

lemma isRangeError_typedArray: "isRangeError (typedArrayRangeError n)"
  by (simp add: isRangeError_def typedArrayRangeError_def)

lemma throwsOnlyRange_bindS:
  assumes "throwsOnlyRange m" and "\<And>a. throwsOnlyRange (k a)"
  shows "throwsOnlyRange (bindS m k)"
proof (rule throwsOnlyRangeI)
  fix s e
  assume "bindS m k s = Inl e"
  then show "isRangeError e"
    using assms
    by (auto simp add: bindS_def throwsOnlyRange_def split: sum.splits prod.splits)
qed

lemma throwsOnlyRange_retS: "throwsOnlyRange (retS a)"
  by (simp add: throwsOnlyRange_def retS_def)

lemma throwsOnlyRange_if:
  "throwsOnlyRange m \<Longrightarrow> throwsOnlyRange n \<Longrightarrow> throwsOnlyRange (if b then m else n)"
  by simp

lemma getUint8_err: "getUint8 buf off = Inl e \<Longrightarrow> isRangeError e"
  by (auto simp add: getUint8_def isRangeError_dataView split: if_splits)

lemma getUint16_err: "getUint16 buf off = Inl e \<Longrightarrow> isRangeError e"
  by (auto simp add: getUint16_def isRangeError_dataView split: if_splits)

lemma getUint32_err: "getUint32 buf off = Inl e \<Longrightarrow> isRangeError e"
  by (auto simp add: getUint32_def isRangeError_dataView split: if_splits)

lemma getInt32_err: "getInt32 buf off = Inl e \<Longrightarrow> isRangeError e"
  by (auto simp add: getInt32_def dest: getUint32_err split: sum.splits)

lemma throwsOnlyRange_readUint8: "throwsOnlyRange (readUint8 buf)"
  by (auto simp add: throwsOnlyRange_def readUint8_def dest: getUint8_err split: sum.splits)

lemma throwsOnlyRange_readUint16: "throwsOnlyRange (readUint16 buf)"
  by (auto simp add: throwsOnlyRange_def readUint16_def dest: getUint16_err split: sum.splits)

lemma throwsOnlyRange_readUint32: "throwsOnlyRange (readUint32 buf)"
  by (auto simp add: throwsOnlyRange_def readUint32_def dest: getUint32_err split: sum.splits)

lemma throwsOnlyRange_readInt32: "throwsOnlyRange (readInt32 buf)"
  by (auto simp add: throwsOnlyRange_def readInt32_def dest: getInt32_err split: sum.splits)

lemmas throwsOnlyRange_intros =
  throwsOnlyRange_bindS throwsOnlyRange_retS throwsOnlyRange_if
  throwsOnlyRange_readUint8 throwsOnlyRange_readUint16 throwsOnlyRange_readUint32
  throwsOnlyRange_readInt32

lemma readUint32s_err: "readUint32s buf n st = Inl e \<Longrightarrow> isRangeError e"
proof (induction n arbitrary: st)
  case 0
  then show ?case by simp
next
  case (Suc n)
  then show ?case
    using throwsOnlyRangeD [OF throwsOnlyRange_readUint32]
    by (auto split: sum.splits prod.splits)
qed

lemma throwsOnlyRange_readUint32s: "throwsOnlyRange (readUint32s buf n)"
  by (rule throwsOnlyRangeI) (rule readUint32s_err)

lemma getUint16s_err: "getUint16s buf off n = Inl e \<Longrightarrow> isRangeError e"
proof (induction n arbitrary: off)
  case 0
  then show ?case by simp
next
  case (Suc n)
  then show ?case
    by (auto dest: getUint16_err split: sum.splits)
qed

lemma throwsOnlyRange_readStringBody: "throwsOnlyRange (readStringBody pf buf isUTF8)"
proof -
  have a: "throwsOnlyRange (\<lambda>st. if offset st + n \<le> length buf
             then Inr (utf8Decode pf (take n (drop (offset st) buf)), st)
             else Inl (typedArrayRangeError n))" for n
    by (rule throwsOnlyRangeI) (auto simp add: isRangeError_typedArray split: if_splits)
  have b: "throwsOnlyRange (\<lambda>st. case getUint16s buf (offset st) n of
             Inl e \<Rightarrow> Inl e | Inr units \<Rightarrow> Inr (units, st))" for n
    by (rule throwsOnlyRangeI) (auto dest: getUint16s_err split: sum.splits)
  show ?thesis
    unfolding readStringBody_def
    by (intro throwsOnlyRange_intros a b)
qed

lemma throwsOnlyRange_readStringAt: "throwsOnlyRange (readStringAt pf buf off isUTF8)"
  by (rule throwsOnlyRangeI)
     (auto simp add: readStringAt_def dest: throwsOnlyRangeD [OF throwsOnlyRange_readStringBody]
           split: sum.splits prod.splits)

lemma readStrings_err: "readStrings pf buf dataStart isUTF8 offs st = Inl e \<Longrightarrow> isRangeError e"
proof (induction offs arbitrary: st)
  case Nil
  then show ?case by simp
next
  case (Cons off offs)
  then show ?case
    using throwsOnlyRangeD [OF throwsOnlyRange_readStringAt]
    by (auto split: sum.splits prod.splits)
qed

lemma throwsOnlyRange_readStrings: "throwsOnlyRange (readStrings pf buf dataStart isUTF8 offs)"
  by (rule throwsOnlyRangeI) (rule readStrings_err)

lemma throwsOnlyRange_Inr: "throwsOnlyRange (\<lambda>st. Inr (f st))"
  by (simp add: throwsOnlyRange_def)

lemma throwsOnlyRange_comp: "throwsOnlyRange m \<Longrightarrow> throwsOnlyRange (\<lambda>st. m (f st))"
  by (simp add: throwsOnlyRange_def)

lemma throwsOnlyRange_parseStringPool:
  "throwsOnlyRange (parseStringPool pf buf chunkStart chunkSize)"
  unfolding parseStringPool_def
  by (intro throwsOnlyRange_intros throwsOnlyRange_readUint32s
        throwsOnlyRange_comp [where m = "bindS m k" for m k]
        throwsOnlyRange_readStrings throwsOnlyRange_Inr)

lemma throwsOnlyRange_parseResourceMap: "throwsOnlyRange (parseResourceMap buf chunkSize)"
  unfolding parseResourceMap_def
  by (intro throwsOnlyRange_intros throwsOnlyRange_readUint32s throwsOnlyRange_Inr)

lemma throwsOnlyRange_parseStartNamespace: "throwsOnlyRange (parseStartNamespace buf)"
proof -
  have a: "throwsOnlyRange (\<lambda>st.
       case (axml_str (strings st) (int prefix), axml_str (strings st) (int uri)) of
         (Some prefixStr, Some uriStr) \<Rightarrow>
           if prefixStr \<noteq> [] \<and> uriStr \<noteq> []
           then Inr ((), st\<lparr>namespaces := setProp False uriStr prefixStr (namespaces st)\<rparr>)
           else Inr ((), st)
       | _ \<Rightarrow> Inr ((), st))" for prefix uri
    by (rule throwsOnlyRangeI) (auto split: option.splits if_splits)
  show ?thesis
    unfolding parseStartNamespace_def
    by (intro throwsOnlyRange_intros a)
qed

lemma throwsOnlyRange_skipNodeBody: "throwsOnlyRange skipNodeBody"
  by (simp add: throwsOnlyRange_def skipNodeBody_def)

lemma bindS_Inl:
  "bindS m k s = Inl e \<Longrightarrow> m s = Inl e \<or> (\<exists>a s'. m s = Inr (a, s') \<and> k a s' = Inl e)"
  by (auto simp add: bindS_def split: sum.splits prod.splits)

lemma throwsOnlyRange_parseAttr: "throwsOnlyRange (parseAttr pf buf attrSize el)"
proof (rule throwsOnlyRangeI)
  fix s e
  assume a: "parseAttr pf buf attrSize el s = Inl e"
  note rd = throwsOnlyRangeD [OF throwsOnlyRange_readInt32]
    throwsOnlyRangeD [OF throwsOnlyRange_readUint32]
    throwsOnlyRangeD [OF throwsOnlyRange_readUint16]
    throwsOnlyRangeD [OF throwsOnlyRange_readUint8]
  from a show "isRangeError e"
    unfolding parseAttr_def Let_def
    by (auto dest!: bindS_Inl dest: rd)
qed

lemma parseAttrs_err: "parseAttrs pf buf attrSize n el st = Inl e \<Longrightarrow> isRangeError e"
proof (induction n arbitrary: el st)
  case 0
  then show ?case by simp
next
  case (Suc n)
  then show ?case
    using throwsOnlyRangeD [OF throwsOnlyRange_parseAttr]
    by (auto split: sum.splits prod.splits)
qed

lemma throwsOnlyRange_parseAttrs: "throwsOnlyRange (\<lambda>st. parseAttrs pf buf attrSize n (el st) (f st))"
  by (rule throwsOnlyRangeI) (rule parseAttrs_err)

lemma throwsOnlyRange_parseStartElement: "throwsOnlyRange (parseStartElement pf buf chunkStart)"
  unfolding parseStartElement_def
  by (intro throwsOnlyRange_intros throwsOnlyRange_parseAttrs)

lemma throwsOnlyRange_parseChunk:
  "throwsOnlyRange (parseChunk pf buf chunkType chunkStart chunkSize stack)"
  unfolding parseChunk_def
  by (intro throwsOnlyRange_intros throwsOnlyRange_parseStringPool
        throwsOnlyRange_parseResourceMap throwsOnlyRange_parseStartNamespace
        throwsOnlyRange_skipNodeBody throwsOnlyRange_parseStartElement)

lemma throwsOnlyRange_readChunkHeader: "throwsOnlyRange (readChunkHeader buf)"
  unfolding readChunkHeader_def
  by (intro throwsOnlyRange_intros)

lemma chunkLoop_err:
  "chunkLoop pf buf fileSize stack st = Inl e \<Longrightarrow> isRangeError e"
proof (induction pf buf fileSize stack st rule: chunkLoop.induct)
  case (1 pf buf fileSize stack st)
  show ?case
  proof (cases "offset st < fileSize \<and> offset st < length buf")
    case False
    with "1.prems" show ?thesis by (simp add: chunkLoop.simps)
  next
    case inside: True
    show ?thesis
    proof (cases "readChunkHeader buf st")
      case (Inl e')
      with "1.prems" inside have "e' = e" by (simp add: chunkLoop.simps)
      with Inl show ?thesis
        using throwsOnlyRangeD [OF throwsOnlyRange_readChunkHeader] by blast
    next
      case (Inr r)
      obtain chunkType chunkHeaderSize chunkSize st1
        where r: "r = ((chunkType, chunkHeaderSize, chunkSize), st1)"
        by (cases r) auto
      show ?thesis
      proof (cases "chunkSize < 8 \<or> offset st + chunkSize > length buf")
        case True
        with "1.prems" inside Inr r show ?thesis by (simp add: chunkLoop.simps)
      next
        case ok: False
        show ?thesis
        proof (cases "parseChunk pf buf chunkType (offset st) chunkSize stack st1")
          case (Inl e')
          with "1.prems" inside Inr r ok have "e' = e" by (simp add: chunkLoop.simps)
          with Inl show ?thesis
            using throwsOnlyRangeD [OF throwsOnlyRange_parseChunk] by blast
        next
          case (Inr r2)
          obtain stack' st2 where r2: "r2 = (stack', st2)" by (cases r2) auto
          have "chunkLoop pf buf fileSize stack' (st2\<lparr>offset := offset st + chunkSize\<rparr>) = Inl e"
            using "1.prems" inside \<open>readChunkHeader buf st = Inr r\<close> r ok Inr r2
            by (simp add: chunkLoop.simps [of pf buf fileSize stack st])
          then show ?thesis
            using "1.IH" [OF inside \<open>readChunkHeader buf st = Inr r\<close> r [symmetric] _ _ ok Inr r2 [symmetric]]
            by blast
        qed
      qed
    qed
  qed
qed

subsection \<open>The file header and the chunk loop\<close>

lemma notAxml_not_range: "\<not> isRangeError notAxml"
  by (simp add: notAxml_def isRangeError_def)

lemma getUint16_ok: "off + 2 \<le> length buf \<Longrightarrow> \<exists>v. getUint16 buf off = Inr v"
  by (simp add: getUint16_def)

lemma getUint32_ok: "off + 4 \<le> length buf \<Longrightarrow> \<exists>v. getUint32 buf off = Inr v"
  by (simp add: getUint32_def)

lemma getInt32_ok: "off + 4 \<le> length buf \<Longrightarrow> \<exists>v. getInt32 buf off = Inr v"
  by (simp add: getInt32_def getUint32_def)

lemma getUint8_ok: "off + 1 \<le> length buf \<Longrightarrow> \<exists>v. getUint8 buf off = Inr v"
  by (simp add: getUint8_def)

lemma header_reads:
  assumes "8 \<le> length buf"
  shows "\<exists>t h f. getUint16 buf 0 = Inr t \<and> getUint16 buf 2 = Inr h \<and> getUint32 buf 4 = Inr f
           \<and> axml_parse pf buf =
               (case (if t \<noteq> 3 then Inl notAxml
                      else chunkLoop pf buf f [rootDocument] (newAXMLParser\<lparr>offset := 8\<rparr>)) of
                  Inl e \<Rightarrow> Inl e
                | Inr (stack, st) \<Rightarrow>
                    (case children (closeAll stack) of
                       [] \<Rightarrow> Inr (closeAll stack)
                     | c # cs \<Rightarrow> Inr c))"
  using assms
  by (simp add: axml_parse_def bindS_def readUint16_def readUint32_def getUint16_def
        getUint32_def newAXMLParser_def)

lemma header_short:
  assumes "length buf < 8" and "axml_parse pf buf = Inl e"
  shows "isRangeError e"
  using assms
  by (auto simp add: axml_parse_def bindS_def readUint16_def readUint32_def getUint16_def
        getUint32_def newAXMLParser_def isRangeError_dataView
      split: if_splits sum.splits prod.splits)

lemma axml_parse_err:
  assumes "axml_parse pf buf = Inl e"
  shows "(e = notAxml \<and> 8 \<le> length buf \<and> getUint16 buf 0 \<noteq> Inr 3) \<or> isRangeError e"
proof (cases "8 \<le> length buf")
  case False
  then show ?thesis using header_short [of buf pf e] assms by simp
next
  case True
  from header_reads [OF True, of pf] obtain t f where
    t: "getUint16 buf 0 = Inr t" and
    p: "axml_parse pf buf =
               (case (if t \<noteq> 3 then Inl notAxml
                      else chunkLoop pf buf f [rootDocument] (newAXMLParser\<lparr>offset := 8\<rparr>)) of
                  Inl e \<Rightarrow> Inl e
                | Inr (stack, st) \<Rightarrow>
                    (case children (closeAll stack) of
                       [] \<Rightarrow> Inr (closeAll stack)
                     | c # cs \<Rightarrow> Inr c))"
    by blast
  show ?thesis
  proof (cases "t = 3")
    case False
    with p assms t True show ?thesis by simp
  next
    case True
    with p assms have "chunkLoop pf buf f [rootDocument] (newAXMLParser\<lparr>offset := 8\<rparr>) = Inl e"
      by (auto split: sum.splits prod.splits list.splits)
    then show ?thesis using chunkLoop_err by blast
  qed
qed

lemma axml_parse_notAxml:
  assumes "8 \<le> length buf" and "getUint16 buf 0 \<noteq> Inr 3"
  shows "axml_parse pf buf = Inl notAxml"
  using header_reads [OF assms(1), of pf] assms(2) by auto

lemma readChunkHeader_ok:
  assumes "offset st + 8 \<le> length buf"
  shows "\<exists>t h sz. getUint16 buf (offset st) = Inr t \<and> getUint16 buf (offset st + 2) = Inr h
           \<and> getUint32 buf (offset st + 4) = Inr sz
           \<and> readChunkHeader buf st = Inr ((t, h, sz), st\<lparr>offset := offset st + 8\<rparr>)"
  using assms
  by (simp add: readChunkHeader_def bindS_def retS_def readUint16_def readUint32_def
        getUint16_def getUint32_def add.commute)

text \<open>
  Claim C5, as amended. \<open>axml_parse\<close> is a total function: \<^verbatim>\<open>AXMLParser.parse\<close> terminates
  on every buffer, since each iteration of the chunk loop moves the cursor forward by
  \<open>chunkSize \<ge> 8\<close> inside the buffer. The errors it throws are \<^verbatim>\<open>NotAxml\<close> and
  \<^verbatim>\<open>RangeError\<close>: it throws \<^verbatim>\<open>NotAxml\<close> exactly when the eight bytes of the file header
  are there and the opening type is not 0x0003, and every other error is the
  \<^verbatim>\<open>RangeError\<close> of a read outside the buffer (a string pool cut short, for one). When
  the chunk loop returns, the result is the first child of the document built so far,
  or the document itself. The loop stops, keeping the stack, when the cursor has
  reached the file size or the end of the buffer, and also when a chunk header that is
  readable gives \<open>chunkSize < 8\<close> or a chunk that overruns the buffer; otherwise it
  decodes the chunk and goes on at \<open>chunkStart + chunkSize\<close>.
\<close>

theorem axml_parse_errors_and_chunk_loop:
  "(axml_parse pf buf = Inl e \<longrightarrow> e = notAxml \<or> isRangeError e)
   \<and> (axml_parse pf buf = Inl notAxml \<longleftrightarrow> 8 \<le> length buf \<and> getUint16 buf 0 \<noteq> Inr 3)
   \<and> (8 \<le> length buf \<and> getUint16 buf 0 = Inr 3 \<and> getUint32 buf 4 = Inr declared
        \<and> chunkLoop pf buf declared [rootDocument] (newAXMLParser\<lparr>offset := 8\<rparr>) = Inr (stk, st')
      \<longrightarrow> axml_parse pf buf =
            Inr (case children (closeAll stk) of [] \<Rightarrow> closeAll stk | c # cs \<Rightarrow> c))
   \<and> (\<not> (offset st < fileSize \<and> offset st < length buf)
      \<longrightarrow> chunkLoop pf buf fileSize stack st = Inr (stack, st))
   \<and> (offset st < fileSize \<and> offset st + 8 \<le> length buf
        \<and> getUint32 buf (offset st + 4) = Inr chunkSize
        \<and> (chunkSize < 8 \<or> length buf < offset st + chunkSize)
      \<longrightarrow> chunkLoop pf buf fileSize stack st = Inr (stack, st\<lparr>offset := offset st + 8\<rparr>))
   \<and> (offset st < fileSize \<and> offset st + 8 \<le> length buf
        \<and> getUint16 buf (offset st) = Inr chunkType
        \<and> getUint32 buf (offset st + 4) = Inr chunkSize
        \<and> 8 \<le> chunkSize \<and> offset st + chunkSize \<le> length buf
      \<longrightarrow> chunkLoop pf buf fileSize stack st =
            (case parseChunk pf buf chunkType (offset st) chunkSize stack
                    (st\<lparr>offset := offset st + 8\<rparr>) of
               Inl err \<Rightarrow> Inl err
             | Inr (stack', st2) \<Rightarrow>
                 chunkLoop pf buf fileSize stack' (st2\<lparr>offset := offset st + chunkSize\<rparr>)))"
proof (intro conjI impI)
  assume "axml_parse pf buf = Inl e"
  then show "e = notAxml \<or> isRangeError e" using axml_parse_err by blast
next
  show "axml_parse pf buf = Inl notAxml \<longleftrightarrow> 8 \<le> length buf \<and> getUint16 buf 0 \<noteq> Inr 3"
    using axml_parse_err [of pf buf notAxml] axml_parse_notAxml [of buf pf] notAxml_not_range
    by blast
next
  assume a: "8 \<le> length buf \<and> getUint16 buf 0 = Inr 3 \<and> getUint32 buf 4 = Inr declared
        \<and> chunkLoop pf buf declared [rootDocument] (newAXMLParser\<lparr>offset := 8\<rparr>) = Inr (stk, st')"
  then show "axml_parse pf buf =
            Inr (case children (closeAll stk) of [] \<Rightarrow> closeAll stk | c # cs \<Rightarrow> c)"
    using header_reads [of buf pf] by (auto split: list.splits)
next
  assume n: "\<not> (offset st < fileSize \<and> offset st < length buf)"
  show "chunkLoop pf buf fileSize stack st = Inr (stack, st)"
    by (subst chunkLoop.simps) (simp only: n if_False)
next
  assume a: "offset st < fileSize \<and> offset st + 8 \<le> length buf
        \<and> getUint32 buf (offset st + 4) = Inr chunkSize
        \<and> (chunkSize < 8 \<or> length buf < offset st + chunkSize)"
  then have "offset st + 8 \<le> length buf" by simp
  from readChunkHeader_ok [OF this] a
  show "chunkLoop pf buf fileSize stack st = Inr (stack, st\<lparr>offset := offset st + 8\<rparr>)"
    by (subst chunkLoop.simps) auto
next
  assume a: "offset st < fileSize \<and> offset st + 8 \<le> length buf
        \<and> getUint16 buf (offset st) = Inr chunkType
        \<and> getUint32 buf (offset st + 4) = Inr chunkSize
        \<and> 8 \<le> chunkSize \<and> offset st + chunkSize \<le> length buf"
  then have "offset st + 8 \<le> length buf" by simp
  from readChunkHeader_ok [OF this] a
  show "chunkLoop pf buf fileSize stack st =
            (case parseChunk pf buf chunkType (offset st) chunkSize stack
                    (st\<lparr>offset := offset st + 8\<rparr>) of
               Inl err \<Rightarrow> Inl err
             | Inr (stack', st2) \<Rightarrow>
                 chunkLoop pf buf fileSize stack' (st2\<lparr>offset := offset st + chunkSize\<rparr>))"
    by (subst chunkLoop.simps) auto
qed

lemma chunkLoop_stop:
  "\<not> (offset st < fileSize \<and> offset st < length buf)
   \<Longrightarrow> chunkLoop pf buf fileSize stack st = Inr (stack, st)"
  by (subst chunkLoop.simps) auto

lemma chunkLoop_go:
  "offset st < fileSize \<Longrightarrow> offset st < length buf
   \<Longrightarrow> chunkLoop pf buf fileSize stack st =
       (case readChunkHeader buf st of
           Inl e \<Rightarrow> Inl e
         | Inr ((chunkType, chunkHeaderSize, chunkSize), st1) \<Rightarrow>
             if chunkSize < 8 \<or> offset st + chunkSize > length buf then Inr (stack, st1)
             else
               (case parseChunk pf buf chunkType (offset st) chunkSize stack st1 of
                  Inl e \<Rightarrow> Inl e
                | Inr (stack', st2) \<Rightarrow>
                    chunkLoop pf buf fileSize stack' (st2\<lparr>offset := offset st + chunkSize\<rparr>)))"
  by (subst chunkLoop.simps) simp

lemma readUint32s_numeral:
  "readUint32s buf (numeral k) st =
     (case readUint32 buf st of
        Inl e \<Rightarrow> Inl e
      | Inr (v, st1) \<Rightarrow>
          (case readUint32s buf (pred_numeral k) st1 of
             Inl e \<Rightarrow> Inl e
           | Inr (vs, st2) \<Rightarrow> Inr (v # vs, st2)))"
  by (simp add: numeral_eq_Suc)

lemma readUint32s_1:
  "readUint32s buf 1 st =
     (case readUint32 buf st of
        Inl e \<Rightarrow> Inl e
      | Inr (v, st1) \<Rightarrow> Inr ([v], st1))"
  by (simp split: sum.splits)

lemma getUint16s_numeral:
  "getUint16s buf off (numeral k) =
     (case getUint16 buf off of
        Inl e \<Rightarrow> Inl e
      | Inr v \<Rightarrow>
          (case getUint16s buf (off + 2) (pred_numeral k) of
             Inl e \<Rightarrow> Inl e
           | Inr vs \<Rightarrow> Inr (v # vs)))"
  by (simp add: numeral_eq_Suc)

lemma parseAttrs_numeral:
  "parseAttrs pf buf attrSize (numeral k) el st =
     (case parseAttr pf buf attrSize el st of
        Inl e \<Rightarrow> Inl e
      | Inr (el', st') \<Rightarrow> parseAttrs pf buf attrSize (pred_numeral k) el' st')"
  by (simp add: numeral_eq_Suc)

lemma parseAttrs_1:
  "parseAttrs pf buf attrSize 1 el st = parseAttr pf buf attrSize el st"
  by (simp split: sum.splits)

lemmas axml_eval_defs =
  axml_parse_def bindS_def retS_def readUint8_def readUint16_def readUint32_def readInt32_def
  getUint8_def getUint16_def getUint32_def getInt32_def newAXMLParser_def
  readChunkHeader_def parseChunk_def parseStringPool_def parseResourceMap_def
  parseStartNamespace_def skipNodeBody_def parseStartElement_def parseAttr_def
  readStringAt_def readStringBody_def axml_str_def strVal_def strText_def resolveValue_def
  attrKey_def putProp_def setProp_def lookupProp_def emptyObject_def protoName_def
  rootDocument_def addChild_def chunkLoop_stop chunkLoop_go Let_def
  readUint32s_numeral readUint32s_1 getUint16s_numeral parseAttrs_numeral parseAttrs_1
  asciiPlatform_def

text \<open>
  Witness for C5: a buffer of eight bytes whose opening type is 0 is refused with
  \<^verbatim>\<open>NotAxml\<close>, and the chunk loop of a file that ends with its header stops at once.
\<close>

theorem axml_parse_errors_and_chunk_loop_witness:
  "axml_parse asciiPlatform [0, 0, 8, 0, 8, 0, 0, 0] = Inl notAxml
   \<and> chunkLoop asciiPlatform [3, 0, 8, 0, 8, 0, 0, 0] 8 [rootDocument] (newAXMLParser\<lparr>offset := 8\<rparr>)
       = Inr ([rootDocument], newAXMLParser\<lparr>offset := 8\<rparr>)"
proof -
  have a: "8 \<le> length [0, 0, 8, 0, 8, 0, 0, 0 :: 8 word]
           \<and> getUint16 [0, 0, 8, 0, 8, 0, 0, 0] 0 \<noteq> Inr 3"
    by (simp add: getUint16_def)
  have b: "\<not> (offset (newAXMLParser\<lparr>offset := 8\<rparr>) < 8
              \<and> offset (newAXMLParser\<lparr>offset := 8\<rparr>) < length [3, 0, 8, 0, 8, 0, 0, 0 :: 8 word])"
    by simp
  note t1 = axml_parse_errors_and_chunk_loop
      [where pf = asciiPlatform and buf = "[0, 0, 8, 0, 8, 0, 0, 0]",
        THEN conjunct2, THEN conjunct1, THEN iffD2, OF a]
  note t2 = axml_parse_errors_and_chunk_loop
      [where pf = asciiPlatform and buf = "[3, 0, 8, 0, 8, 0, 0, 0]" and fileSize = 8
         and st = "newAXMLParser\<lparr>offset := 8\<rparr>" and stack = "[rootDocument]",
        THEN conjunct2, THEN conjunct2, THEN conjunct2, THEN conjunct1, THEN mp, OF b]
  from t1 t2 show ?thesis by (rule conjI)
qed

text \<open>
  Counterexample to C5 as stated: a buffer that opens with type 0x0003 and holds one
  string pool chunk of 28 bytes announcing one string, whose offset table is missing.
  The read of the first string offset is outside the buffer, and \<^verbatim>\<open>parse\<close> throws a
  \<^verbatim>\<open>RangeError\<close>, which is not \<^verbatim>\<open>NotAxml\<close>.
\<close>

theorem axml_parse_truncated_pool_throws:
  "getUint16 [3, 0, 8, 0, 36, 0, 0, 0,
              1, 0, 28, 0, 28, 0, 0, 0, 1, 0, 0, 0, 0, 0, 0, 0, 0, 0, 0, 0, 32, 0, 0, 0,
              0, 0, 0, 0] 0 = Inr 3
   \<and> axml_parse asciiPlatform
       [3, 0, 8, 0, 36, 0, 0, 0,
        1, 0, 28, 0, 28, 0, 0, 0, 1, 0, 0, 0, 0, 0, 0, 0, 0, 0, 0, 0, 32, 0, 0, 0,
        0, 0, 0, 0] = Inl dataViewRangeError
   \<and> dataViewRangeError \<noteq> notAxml"
  by (simp add: axml_eval_defs dataViewRangeError_def notAxml_def)


text \<open>
  A minimal document decodes: a string pool with \<open>manifest\<close>, \<open>package\<close> and
  \<open>com.example\<close>, one start element \<open>manifest\<close> with the attribute
  \<open>package = "com.example"\<close> given as a raw string, and its end element.
\<close>

lemma axml_parse_minimal_document:
  "axml_parse asciiPlatform 
       [3, 0, 8, 0, 164, 0, 0, 0, 1, 0, 28, 0, 76, 0, 0, 0, 3, 0, 0, 0, 0, 0, 0, 0, 0, 1, 0, 0, 40, 0, 0, 0, 0, 0, 0, 0, 0, 0, 0, 0, 11, 0, 0, 0, 21, 0, 0, 0, 8, 8, 109, 97, 110, 105, 102, 101, 115, 116, 0, 7, 7, 112, 97, 99, 107, 97, 103, 101, 0, 11, 11, 99, 111, 109, 46, 101, 120, 97, 109, 112, 108, 101, 0, 0, 2, 1, 16, 0, 56, 0, 0, 0, 1, 0, 0, 0, 255, 255, 255, 255, 255, 255, 255, 255, 0, 0, 0, 0, 20, 0, 20, 0, 1, 0, 0, 0, 0, 0, 0, 0, 255, 255, 255, 255, 1, 0, 0, 0, 2, 0, 0, 0, 8, 0, 0, 3, 2, 0, 0, 0, 3, 1, 16, 0, 24, 0, 0, 0, 1, 0, 0, 0, 255, 255, 255, 255, 255, 255, 255, 255, 0, 0, 0, 0]
   = Inr (Element (JStr (lit ''manifest''))
            (JsObject [(lit ''package'', JStr (lit ''com.example''))] True) []
            [\<lparr>ra_namespace = JNull, ra_name = JStr (lit ''package''),
              ra_value = JStr (lit ''com.example''), ra_type = Some 3, ra_data = Some 2\<rparr>])"
  by (simp add: axml_eval_defs lit_def bit_Suc_0_iff)

subsection \<open>String-pool indices\<close>

definition pooled :: "jsstring list \<Rightarrow> jsval set" where
  "pooled strs = insert JNull (JStr ` set strs)"

lemma strVal_axml_str_pooled: "strVal (axml_str strs i) \<in> pooled strs"
proof (cases "i < 0 \<or> int (length strs) \<le> i")
  case True
  then show ?thesis by (auto simp add: strVal_def axml_str_def pooled_def)
next
  case False
  then have "nat i < length strs" by auto
  then have "strs ! nat i \<in> set strs" by (rule nth_mem)
  with False show ?thesis by (auto simp add: strVal_def axml_str_def pooled_def)
qed

lemma strVal_if_pooled:
  "strVal (if c then axml_str strs i else None) \<in> pooled strs"
  using strVal_axml_str_pooled [of strs i] by (simp add: strVal_def pooled_def)

lemma parseAttr_ok:
  assumes "offset st + 20 \<le> length buf"
  shows "\<exists>aNs aName aRaw aType aData.
           getInt32 buf (offset st) = Inr aNs
         \<and> getUint32 buf (offset st + 4) = Inr aName
         \<and> getInt32 buf (offset st + 8) = Inr aRaw
         \<and> getUint8 buf (offset st + 15) = Inr aType
         \<and> getUint32 buf (offset st + 16) = Inr aData
         \<and> parseAttr pf buf attrSize el st =
             Inr (Element (tag el)
                    (putProp
                       (attrKey pf (namespaces st)
                          (if 0 \<le> aNs then axml_str (strings st) aNs else None)
                          (axml_str (strings st) (int aName)))
                       (if 0 \<le> aRaw then strVal (axml_str (strings st) aRaw)
                        else resolveValue pf (strings st) aType aData) (attributes el))
                    (children el)
                    (rawAttrs el @
                     [\<lparr>ra_namespace = strVal (if 0 \<le> aNs then axml_str (strings st) aNs else None),
                       ra_name = strVal (axml_str (strings st) (int aName)),
                       ra_value = (if 0 \<le> aRaw then strVal (axml_str (strings st) aRaw)
                                   else resolveValue pf (strings st) aType aData),
                       ra_type = Some aType, ra_data = Some aData\<rparr>]),
                  st\<lparr>offset := offset st + (if attrSize \<noteq> 0 then attrSize else 20)\<rparr>)"
  using assms
  by (simp add: parseAttr_def bindS_def readUint8_def readUint16_def readUint32_def
        readInt32_def getUint8_def getUint16_def getUint32_def getInt32_def Let_def add.commute)

lemma parseAttrs_ok:
  assumes "\<forall>i<n. offset st + i * (if attrSize \<noteq> 0 then attrSize else 20) + 20 \<le> length buf"
  shows "\<exists>el' st'. parseAttrs pf buf attrSize n el st = Inr (el', st')
           \<and> tag el' = tag el
           \<and> length (rawAttrs el') = length (rawAttrs el) + n
           \<and> strings st' = strings st
           \<and> (\<forall>r \<in> set (rawAttrs el'). r \<in> set (rawAttrs el)
                  \<or> (ra_name r \<in> pooled (strings st) \<and> ra_namespace r \<in> pooled (strings st)))"
  using assms
proof (induction n arbitrary: el st)
  case 0
  then show ?case by simp
next
  case (Suc n)
  let ?stride = "if attrSize \<noteq> 0 then attrSize else 20"
  from Suc.prems have "offset st + 0 * ?stride + 20 \<le> length buf" by blast
  then have b0: "offset st + 20 \<le> length buf" by simp
  from parseAttr_ok [OF b0, of pf attrSize el] obtain el1 st1 where
    p: "parseAttr pf buf attrSize el st = Inr (el1, st1)" and
    tg: "tag el1 = tag el" and
    off: "offset st1 = offset st + ?stride" and
    strs: "strings st1 = strings st" and
    raws: "\<exists>r. rawAttrs el1 = rawAttrs el @ [r]
                \<and> ra_name r \<in> pooled (strings st) \<and> ra_namespace r \<in> pooled (strings st)"
    by (auto simp add: strVal_axml_str_pooled strVal_if_pooled)
  have "\<forall>i<n. offset st1 + i * ?stride + 20 \<le> length buf"
  proof (intro allI impI)
    fix i assume "i < n"
    then have "offset st + Suc i * ?stride + 20 \<le> length buf" using Suc.prems by auto
    then show "offset st1 + i * ?stride + 20 \<le> length buf" by (simp add: off add.assoc)
  qed
  from Suc.IH [OF this, of el1] obtain el' st' where
    q: "parseAttrs pf buf attrSize n el1 st1 = Inr (el', st')" and
    tg': "tag el' = tag el1" and
    len': "length (rawAttrs el') = length (rawAttrs el1) + n" and
    strs': "strings st' = strings st1" and
    raws': "\<forall>r \<in> set (rawAttrs el'). r \<in> set (rawAttrs el1)
                  \<or> (ra_name r \<in> pooled (strings st1) \<and> ra_namespace r \<in> pooled (strings st1))"
    by blast
  from raws obtain r0 where r0: "rawAttrs el1 = rawAttrs el @ [r0]"
    "ra_name r0 \<in> pooled (strings st)" "ra_namespace r0 \<in> pooled (strings st)" by blast
  have "parseAttrs pf buf attrSize (Suc n) el st = Inr (el', st')" using p q by simp
  moreover have "tag el' = tag el" using tg tg' by simp
  moreover have "length (rawAttrs el') = length (rawAttrs el) + Suc n" using len' r0(1) by simp
  moreover have "strings st' = strings st" using strs strs' by simp
  moreover have "\<forall>r \<in> set (rawAttrs el'). r \<in> set (rawAttrs el)
                  \<or> (ra_name r \<in> pooled (strings st) \<and> ra_namespace r \<in> pooled (strings st))"
    using raws' r0 strs by auto
  ultimately show ?case by blast
qed

lemma parseStartElement_header:
  assumes "offset st + 28 \<le> length buf"
  shows "\<exists>name attrStart attrSize attrCount.
           getUint32 buf (offset st + 12) = Inr name
         \<and> getUint16 buf (offset st + 16) = Inr attrStart
         \<and> getUint16 buf (offset st + 18) = Inr attrSize
         \<and> getUint16 buf (offset st + 20) = Inr attrCount
         \<and> parseStartElement pf buf chunkStart st =
             parseAttrs pf buf attrSize attrCount
               (Element (strVal (axml_str (strings st) (int name))) emptyObject [] [])
               (st\<lparr>offset := chunkStart + 16 + attrStart\<rparr>)"
  using assms
  by (simp add: parseStartElement_def bindS_def readUint16_def readUint32_def
        readInt32_def getUint16_def getUint32_def getInt32_def add.commute)

text \<open>
  Claim C6. \<^verbatim>\<open>_str\<close> resolves an index that is negative or not below the length of the
  pool to \<^verbatim>\<open>null\<close>, and an index in range to the pooled string; it is a total function
  and throws nothing. \<^verbatim>\<open>_parseStartElement\<close> uses it for the element name, for the
  namespace and the name of every attribute, and for a value given as a raw string or
  typed as a string: when the bytes of the element header and of its attribute records
  are inside the buffer, the element is returned whatever the indices are, its tag is
  the pooled string or \<^verbatim>\<open>null\<close>, and the namespace and the name of every attribute are
  \<^verbatim>\<open>null\<close> or strings of the pool.
\<close>

theorem string_pool_indices_resolve_or_null:
  "(index < 0 \<or> int (length strs) \<le> index \<longrightarrow> strVal (axml_str strs index) = JNull)
   \<and> (0 \<le> index \<and> index < int (length strs)
        \<longrightarrow> strVal (axml_str strs index) = JStr (strs ! nat index))
   \<and> resolveValue pf strs 3 data = strVal (axml_str strs (int data))
   \<and> (offset st + 28 \<le> length buf
        \<and> getUint32 buf (offset st + 12) = Inr name
        \<and> getUint16 buf (offset st + 16) = Inr attrStart
        \<and> getUint16 buf (offset st + 18) = Inr attrSize
        \<and> getUint16 buf (offset st + 20) = Inr attrCount
        \<and> (\<forall>i<attrCount. chunkStart + 16 + attrStart
                 + i * (if attrSize \<noteq> 0 then attrSize else 20) + 20 \<le> length buf)
      \<longrightarrow> (\<exists>el st'. parseStartElement pf buf chunkStart st = Inr (el, st')
             \<and> tag el = strVal (axml_str (strings st) (int name))
             \<and> length (rawAttrs el) = attrCount
             \<and> (\<forall>r \<in> set (rawAttrs el).
                    ra_name r \<in> pooled (strings st) \<and> ra_namespace r \<in> pooled (strings st))))
   \<and> (offset st + 20 \<le> length buf
        \<and> getInt32 buf (offset st) = Inr aNs
        \<and> getUint32 buf (offset st + 4) = Inr aName
        \<and> getInt32 buf (offset st + 8) = Inr aRaw
        \<and> getUint8 buf (offset st + 15) = Inr aType
        \<and> getUint32 buf (offset st + 16) = Inr aData
      \<longrightarrow> (\<exists>el' st'. parseAttr pf buf asz el0 st = Inr (el', st')
             \<and> last (rawAttrs el') =
                 \<lparr>ra_namespace = (if 0 \<le> aNs then strVal (axml_str (strings st) aNs) else JNull),
                   ra_name = strVal (axml_str (strings st) (int aName)),
                   ra_value = (if 0 \<le> aRaw then strVal (axml_str (strings st) aRaw)
                               else resolveValue pf (strings st) aType aData),
                   ra_type = Some aType, ra_data = Some aData\<rparr>))"
proof (intro conjI impI)
  assume "index < 0 \<or> int (length strs) \<le> index"
  then show "strVal (axml_str strs index) = JNull"
    by (auto simp add: axml_str_def strVal_def)
next
  assume "0 \<le> index \<and> index < int (length strs)"
  then show "strVal (axml_str strs index) = JStr (strs ! nat index)"
    by (auto simp add: axml_str_def strVal_def)
next
  show "resolveValue pf strs 3 data = strVal (axml_str strs (int data))"
    by (simp add: resolveValue_def)
next
  assume a: "offset st + 28 \<le> length buf
        \<and> getUint32 buf (offset st + 12) = Inr name
        \<and> getUint16 buf (offset st + 16) = Inr attrStart
        \<and> getUint16 buf (offset st + 18) = Inr attrSize
        \<and> getUint16 buf (offset st + 20) = Inr attrCount
        \<and> (\<forall>i<attrCount. chunkStart + 16 + attrStart
                 + i * (if attrSize \<noteq> 0 then attrSize else 20) + 20 \<le> length buf)"
  then have b: "offset st + 28 \<le> length buf" by simp
  from parseStartElement_header [OF b, of pf chunkStart] a
  have p: "parseStartElement pf buf chunkStart st =
             parseAttrs pf buf attrSize attrCount
               (Element (strVal (axml_str (strings st) (int name))) emptyObject [] [])
               (st\<lparr>offset := chunkStart + 16 + attrStart\<rparr>)"
    by auto
  have "\<forall>i<attrCount. offset (st\<lparr>offset := chunkStart + 16 + attrStart\<rparr>)
           + i * (if attrSize \<noteq> 0 then attrSize else 20) + 20 \<le> length buf"
    using a by simp
  from parseAttrs_ok [OF this, of pf "Element (strVal (axml_str (strings st) (int name))) emptyObject [] []"]
  show "\<exists>el st'. parseStartElement pf buf chunkStart st = Inr (el, st')
             \<and> tag el = strVal (axml_str (strings st) (int name))
             \<and> length (rawAttrs el) = attrCount
             \<and> (\<forall>r \<in> set (rawAttrs el).
                    ra_name r \<in> pooled (strings st) \<and> ra_namespace r \<in> pooled (strings st))"
    unfolding p by auto
next
  assume a: "offset st + 20 \<le> length buf
        \<and> getInt32 buf (offset st) = Inr aNs
        \<and> getUint32 buf (offset st + 4) = Inr aName
        \<and> getInt32 buf (offset st + 8) = Inr aRaw
        \<and> getUint8 buf (offset st + 15) = Inr aType
        \<and> getUint32 buf (offset st + 16) = Inr aData"
  then have b: "offset st + 20 \<le> length buf" by simp
  from parseAttr_ok [OF b, of pf asz el0] a
  show "\<exists>el' st'. parseAttr pf buf asz el0 st = Inr (el', st')
             \<and> last (rawAttrs el') =
                 \<lparr>ra_namespace = (if 0 \<le> aNs then strVal (axml_str (strings st) aNs) else JNull),
                   ra_name = strVal (axml_str (strings st) (int aName)),
                   ra_value = (if 0 \<le> aRaw then strVal (axml_str (strings st) aRaw)
                               else resolveValue pf (strings st) aType aData),
                   ra_type = Some aType, ra_data = Some aData\<rparr>"
    by (auto simp add: strVal_def)
qed

text \<open>
  Witness for C6: in a pool of two strings the indices 2 and -1 resolve to \<^verbatim>\<open>null\<close>
  and the index 1 to the second string.
\<close>

theorem string_pool_indices_resolve_or_null_witness:
  "strVal (axml_str [lit ''manifest'', lit ''package''] 2) = JNull
   \<and> strVal (axml_str [lit ''manifest'', lit ''package''] (- 1)) = JNull
   \<and> strVal (axml_str [lit ''manifest'', lit ''package''] 1) = JStr (lit ''package'')"
proof -
  note t = string_pool_indices_resolve_or_null [where strs = "[lit ''manifest'', lit ''package'']"]
  have a: "(2::int) < 0 \<or> int (length [lit ''manifest'', lit ''package'']) \<le> 2" by simp
  have b: "(- 1::int) < 0 \<or> int (length [lit ''manifest'', lit ''package'']) \<le> - 1" by simp
  have c: "(0::int) \<le> 1 \<and> 1 < int (length [lit ''manifest'', lit ''package''])" by simp
  from t [where index = 2, THEN conjunct1, THEN mp, OF a]
       t [where index = "- 1", THEN conjunct1, THEN mp, OF b]
       t [where index = 1, THEN conjunct2, THEN conjunct1, THEN mp, OF c]
  show ?thesis by simp
qed

section \<open>Manifest projector and archive parsers: definitions\<close>

subsection \<open>Strings and regular expressions of the source\<close>

text \<open>\<^verbatim>\<open>s.startsWith(p)\<close>, \<^verbatim>\<open>s.endsWith(p)\<close> and \<^verbatim>\<open>s.includes(p)\<close>.\<close>

definition startsWith :: "jsstring \<Rightarrow> jsstring \<Rightarrow> bool" where
  "startsWith s p = prefix p s"

definition endsWith :: "jsstring \<Rightarrow> jsstring \<Rightarrow> bool" where
  "endsWith s p = suffix p s"

definition includesStr :: "jsstring \<Rightarrow> jsstring \<Rightarrow> bool" where
  "includesStr s p = sublist p s"

text \<open>
  Matching under the flag \<^verbatim>\<open>i\<close> of a regular expression without the flag \<^verbatim>\<open>u\<close>:
  two code units match when their canonical forms are equal, and a code unit has the
  canonical form of an ASCII letter only if it is that letter in either case. The
  patterns of the source are ASCII, so comparing after \<open>upperAscii\<close> is exact for them.
\<close>

definition upperAscii :: "nat \<Rightarrow> nat" where
  "upperAscii c = (if 97 \<le> c \<and> c \<le> 122 then c - 32 else c)"

definition eqCI :: "jsstring \<Rightarrow> jsstring \<Rightarrow> bool" where
  "eqCI s p = (map upperAscii s = map upperAscii p)"

definition endsWithCI :: "jsstring \<Rightarrow> jsstring \<Rightarrow> bool" where
  "endsWithCI s p = (length p \<le> length s \<and> eqCI (drop (length s - length p) s) p)"

subsection \<open>Tree helpers and the launcher test\<close>

text \<open>\<^verbatim>\<open>_child(el, tag)\<close> and \<^verbatim>\<open>_children(el, tag)\<close>.\<close>

definition child_of :: "element \<Rightarrow> jsstring \<Rightarrow> element option" where
  "child_of el t = find (\<lambda>c. tag c = JStr t) (children el)"

definition children_of :: "element \<Rightarrow> jsstring \<Rightarrow> element list" where
  "children_of el t = filter (\<lambda>c. tag c = JStr t) (children el)"

definition isLauncher :: "element \<Rightarrow> bool" where
  "isLauncher activity =
     list_ex (\<lambda>f.
        let hasMain = list_ex (\<lambda>a. getProp (attributes a) (lit ''android:name'')
                                      = JStr (lit ''android.intent.action.MAIN''))
                        (children_of f (lit ''action''));
            hasLauncher = list_ex (\<lambda>c. getProp (attributes c) (lit ''android:name'')
                                      = JStr (lit ''android.intent.category.LAUNCHER''))
                            (children_of f (lit ''category''))
        in hasMain \<and> hasLauncher)
       (children_of activity (lit ''intent-filter''))"

subsection \<open>BuildInfo\<close>

text \<open>
  The object \<^verbatim>\<open>info\<close> of \<^verbatim>\<open>APKParser.parse\<close>. The field \<^verbatim>\<open>type\<close> is \<open>artifact\<close>;
  \<^verbatim>\<open>_manifestError\<close> is \<open>manifestError\<close>, absent (\<open>None\<close>) until it is assigned. An icon
  is the object URL made from the bytes of a blob.
\<close>

record activityInfo =
  activityName :: jsval
  activityIsLauncher :: bool

record signing =
  isSigned :: bool
  certFile :: jsstring
  signatureFiles :: "jsstring list"

datatype objectURL = ObjectURL u8array

record buildinfo =
  artifact :: jsstring
  fileName :: jsstring
  fileSize :: nat
  package :: jsval
  appName :: jsval
  versionCode :: jsval
  versionName :: jsval
  minSdkVersion :: jsval
  targetSdkVersion :: jsval
  permissions :: "jsval list"
  activities :: "activityInfo list"
  services :: "jsval list"
  receivers :: "jsval list"
  icon :: "objectURL option"
  iconPath :: jsval
  signingInfo :: "signing option"
  debuggable :: bool
  architectures :: "jsstring list option"
  dexCount :: nat
  totalFiles :: nat
  manifestError :: "jsstring option"

text \<open>The initial \<^verbatim>\<open>info\<close> of \<^verbatim>\<open>APKParser.parse\<close>, for a file and a number of entries.\<close>

definition initialInfo :: "jsstring \<Rightarrow> nat \<Rightarrow> nat \<Rightarrow> buildinfo" where
  "initialInfo name sz n =
     \<lparr>artifact = lit ''APK'', fileName = name, fileSize = sz, package = JNull, appName = JNull,
      versionCode = JNull, versionName = JNull, minSdkVersion = JNull,
      targetSdkVersion = JNull, permissions = [], activities = [], services = [],
      receivers = [], icon = None, iconPath = JNull, signingInfo = None, debuggable = False,
      architectures = None, dexCount = 0, totalFiles = n, manifestError = None\<rparr>"

text \<open>\<^verbatim>\<open>v ?? d\<close> and \<^verbatim>\<open>v || d\<close>.\<close>

definition nullish :: "jsval \<Rightarrow> jsval \<Rightarrow> jsval" where
  "nullish v d = (if v = JUndefined \<or> v = JNull then d else v)"

definition orElse :: "jsval \<Rightarrow> jsval \<Rightarrow> jsval" where
  "orElse v d = (if truthy v then v else d)"

definition attr :: "element \<Rightarrow> string \<Rightarrow> jsval" where
  "attr el k = getProp (attributes el) (lit k)"

text \<open>\<^verbatim>\<open>_extractManifest(manifest, info)\<close>; the tree is an object, so \<^verbatim>\<open>!manifest\<close> is false.\<close>

definition extractManifest :: "element \<Rightarrow> buildinfo \<Rightarrow> buildinfo" where
  "extractManifest manifest info =
     (if tag manifest \<noteq> JStr (lit ''manifest'') then info
      else
        let info1 = info\<lparr>package := nullish (attr manifest ''package'') JNull,
                          versionCode := nullish (attr manifest ''android:versionCode'') JNull,
                          versionName := nullish (attr manifest ''android:versionName'') JNull\<rparr>;
            info2 = (case child_of manifest (lit ''uses-sdk'') of
                       None \<Rightarrow> info1
                     | Some sdk \<Rightarrow>
                         info1\<lparr>minSdkVersion := nullish (attr sdk ''android:minSdkVersion'') JNull,
                                targetSdkVersion :=
                                  nullish (attr sdk ''android:targetSdkVersion'') JNull\<rparr>);
            info3 = info2\<lparr>permissions :=
                      filter truthy
                        (map (\<lambda>p. orElse (attr p ''android:name'') (JStr []))
                           (children_of manifest (lit ''uses-permission'')))\<rparr>
        in case child_of manifest (lit ''application'') of
             None \<Rightarrow> info3
           | Some app \<Rightarrow>
               let iconAttr = attr app ''android:icon'';
                   info4 = info3\<lparr>appName := nullish (attr app ''android:label'') JNull,
                                  debuggable := (attr app ''android:debuggable'' = JBool True)\<rparr>;
                   info5 = (case iconAttr of
                              JStr s \<Rightarrow> if \<not> startsWith s (lit ''@'')
                                        then info4\<lparr>iconPath := iconAttr\<rparr> else info4
                            | _ \<Rightarrow> info4)
               in info5\<lparr>activities :=
                           map (\<lambda>a. \<lparr>activityName = orElse (attr a ''android:name'') (JStr []),
                                      activityIsLauncher = isLauncher a\<rparr>)
                             (children_of app (lit ''activity'')),
                         services :=
                           filter truthy
                             (map (\<lambda>s. orElse (attr s ''android:name'') (JStr []))
                                (children_of app (lit ''service''))),
                         receivers :=
                           filter truthy
                             (map (\<lambda>r. orElse (attr r ''android:name'') (JStr []))
                                (children_of app (lit ''receiver'')))\<rparr>)"

subsection \<open>The archive\<close>

text \<open>
  A loaded \<^verbatim>\<open>JSZip\<close> archive: \<^verbatim>\<open>zip.files\<close> as the list of its entries in the order of
  \<^verbatim>\<open>Object.keys\<close>, the names distinct. An entry is a folder or a file; \<open>content\<close> is what
  \<^verbatim>\<open>await entry.async(...)\<close> gives, the bytes or the error it rejects with (the same for
  \<^verbatim>\<open>'arraybuffer'\<close>, \<^verbatim>\<open>'uint8array'\<close> and \<^verbatim>\<open>'blob'\<close>). \<^verbatim>\<open>zip.file(name)\<close> is the entry of
  that name unless it is absent or a folder. \<^verbatim>\<open>JSZip.loadAsync\<close> has succeeded when the
  parsers below start: they take the archive it returned.
\<close>

record zipEntry =
  dir :: bool
  content :: "js_error + u8array"

type_synonym zip = "(jsstring \<times> zipEntry) list"

definition zipFile :: "zip \<Rightarrow> jsstring \<Rightarrow> zipEntry option" where
  "zipFile z name =
     (case map_of z name of
        None \<Rightarrow> None
      | Some e \<Rightarrow> if dir e then None else Some e)"

text \<open>\<^verbatim>\<open>URL.createObjectURL(await entry.async('blob'))\<close>.\<close>

definition blobURL :: "zipEntry \<Rightarrow> js_error + objectURL" where
  "blobURL e = (case content e of Inl err \<Rightarrow> Inl err | Inr bytes \<Rightarrow> Inr (ObjectURL bytes))"

subsection \<open>APKParser\<close>

definition manifestStage :: "platform \<Rightarrow> zip \<Rightarrow> buildinfo \<Rightarrow> buildinfo" where
  "manifestStage pf z info =
     (case zipFile z (lit ''AndroidManifest.xml'') of
        None \<Rightarrow> info
      | Some manifestEntry \<Rightarrow>
          (case content manifestEntry of
             Inl e \<Rightarrow> info\<lparr>manifestError := Some (message e)\<rparr>
           | Inr buf \<Rightarrow>
               (case axml_parse pf buf of
                  Inl e \<Rightarrow> info\<lparr>manifestError := Some (message e)\<rparr>
                | Inr tree \<Rightarrow> extractManifest tree info)))"

definition iconCandidates :: "jsstring list" where
  "iconCandidates = map lit
     [''res/mipmap-xxxhdpi-v4/ic_launcher.png'',
      ''res/mipmap-xxhdpi-v4/ic_launcher.png'',
      ''res/mipmap-xhdpi-v4/ic_launcher.png'',
      ''res/mipmap-hdpi-v4/ic_launcher.png'',
      ''res/mipmap-mdpi-v4/ic_launcher.png'',
      ''res/mipmap-xxxhdpi/ic_launcher.png'',
      ''res/mipmap-xxhdpi/ic_launcher.png'',
      ''res/mipmap-xhdpi/ic_launcher.png'',
      ''res/mipmap-hdpi/ic_launcher.png'',
      ''res/drawable-xxxhdpi-v4/ic_launcher.png'',
      ''res/drawable-xxhdpi-v4/ic_launcher.png'',
      ''res/drawable-xhdpi-v4/ic_launcher.png'',
      ''res/drawable-hdpi-v4/ic_launcher.png'',
      ''res/mipmap-xxxhdpi-v4/ic_launcher_round.png'',
      ''res/mipmap-xxhdpi-v4/ic_launcher_round.png'',
      ''res/mipmap-xxxhdpi/ic_launcher_round.png'',
      ''res/mipmap-xxhdpi/ic_launcher_round.png'']"

text \<open>The first candidate path that names a file of the archive.\<close>

fun firstEntry :: "zip \<Rightarrow> jsstring list \<Rightarrow> (jsstring \<times> zipEntry) option" where
  "firstEntry z [] = None"
| "firstEntry z (path # paths) =
     (case zipFile z path of
        None \<Rightarrow> firstEntry z paths
      | Some entry \<Rightarrow> Some (path, entry))"

text \<open>\<^verbatim>\<open>/ic_launcher[^/]*\.png$/i.test(f)\<close>.\<close>

definition isLauncherPng :: "jsstring \<Rightarrow> bool" where
  "isLauncherPng f =
     (endsWithCI f (lit ''.png'')
      \<and> list_ex (\<lambda>i. i + 15 \<le> length f
                       \<and> eqCI (take 11 (drop i f)) (lit ''ic_launcher'')
                       \<and> 47 \<notin> set (take (length f - 4 - (i + 11)) (drop (i + 11) f)))
           [0..<length f])"

definition densityRank :: "jsstring list" where
  "densityRank = map lit [''xxxhdpi'', ''xxhdpi'', ''xhdpi'', ''hdpi'', ''mdpi'']"

text \<open>\<^verbatim>\<open>ai < 0 ? 99 : ai\<close> for \<^verbatim>\<open>ai = densityRank.findIndex(d => a.includes(d))\<close>.\<close>

definition densityIndex :: "jsstring \<Rightarrow> nat" where
  "densityIndex a =
     (case filter (\<lambda>i. includesStr a (densityRank ! i)) [0..<length densityRank] of
        [] \<Rightarrow> 99
      | i # rest \<Rightarrow> i)"

text \<open>
  \<^verbatim>\<open>_extractIcon(zip, info)\<close>. \<^verbatim>\<open>info.iconPath\<close> is \<^verbatim>\<open>null\<close> or a string. The sort of the
  source is stable, as \<open>sort_key\<close> is, so element 0 of the sorted array is the first
  match of least rank.
\<close>

definition extractIcon :: "zip \<Rightarrow> buildinfo \<Rightarrow> js_error + (objectURL option \<times> buildinfo)" where
  "extractIcon z info =
     (case (case iconPath info of
              JStr p \<Rightarrow> if p \<noteq> [] then zipFile z p else None
            | _ \<Rightarrow> None) of
        Some entry \<Rightarrow>
          (case blobURL entry of Inl e \<Rightarrow> Inl e | Inr url \<Rightarrow> Inr (Some url, info))
      | None \<Rightarrow>
          (case firstEntry z iconCandidates of
             Some (path, entry) \<Rightarrow>
               (case blobURL entry of
                  Inl e \<Rightarrow> Inl e
                | Inr url \<Rightarrow> Inr (Some url, info\<lparr>iconPath := JStr path\<rparr>))
           | None \<Rightarrow>
               (case sort_key densityIndex (filter isLauncherPng (map fst z)) of
                  [] \<Rightarrow> Inr (None, info)
                | match # rest \<Rightarrow>
                    (case zipFile z match of
                       None \<Rightarrow> Inr (None, info)
                     | Some entry \<Rightarrow>
                         (case blobURL entry of
                            Inl e \<Rightarrow> Inl e
                          | Inr url \<Rightarrow> Inr (Some url, info\<lparr>iconPath := JStr match\<rparr>))))))"

text \<open>\<^verbatim>\<open>/\.(RSA|DSA|EC)$/i.test(f)\<close> and \<^verbatim>\<open>/\.(SF|MF)$/i.test(f)\<close>.\<close>

definition isCertFile :: "jsstring \<Rightarrow> bool" where
  "isCertFile f =
     (endsWithCI f (lit ''.RSA'') \<or> endsWithCI f (lit ''.DSA'') \<or> endsWithCI f (lit ''.EC''))"

definition isSignatureFile :: "jsstring \<Rightarrow> bool" where
  "isSignatureFile f = (endsWithCI f (lit ''.SF'') \<or> endsWithCI f (lit ''.MF''))"

text \<open>\<^verbatim>\<open>f.split('/')[1]\<close> for a name with a slash.\<close>

definition secondSegment :: "jsstring \<Rightarrow> jsstring" where
  "secondSegment f = takeWhile (\<lambda>c. c \<noteq> 47) (drop 1 (dropWhile (\<lambda>c. c \<noteq> 47) f))"

text \<open>\<^verbatim>\<open>[...new Set(xs)]\<close>: the first occurrence of each element, in order.\<close>

definition setOrder :: "'a list \<Rightarrow> 'a list" where
  "setOrder xs = rev (remdups (rev xs))"

definition signingOf :: "jsstring list \<Rightarrow> signing option" where
  "signingOf keys =
     (let metaFiles = filter (\<lambda>f. startsWith f (lit ''META-INF/'')) keys
      in case find isCertFile metaFiles of
           None \<Rightarrow> None
         | Some cf \<Rightarrow>
             Some \<lparr>isSigned = True, certFile = cf,
                   signatureFiles = filter isSignatureFile metaFiles\<rparr>)"

definition architecturesOf :: "jsstring list \<Rightarrow> jsstring list option" where
  "architecturesOf keys =
     (let soFiles = filter (\<lambda>f. startsWith f (lit ''lib/'') \<and> endsWith f (lit ''.so'')) keys
      in if soFiles \<noteq> [] then Some (setOrder (map secondSegment soFiles)) else None)"

definition dexCountOf :: "jsstring list \<Rightarrow> nat" where
  "dexCountOf keys = length (filter (\<lambda>f. endsWith f (lit ''.dex'')) keys)"

text \<open>
  \<^verbatim>\<open>APKParser.parse(file)\<close> for the loaded archive \<open>z\<close> of a file with the given name and
  size.
\<close>

definition apk_parse :: "platform \<Rightarrow> zip \<Rightarrow> jsstring \<Rightarrow> nat \<Rightarrow> js_error + buildinfo" where
  "apk_parse pf z name sz =
     (case extractIcon z (manifestStage pf z (initialInfo name sz (length z))) of
        Inl e \<Rightarrow> Inl e
      | Inr (ic, info) \<Rightarrow>
          Inr (info\<lparr>icon := ic,
                     signingInfo := signingOf (map fst z),
                     architectures := architecturesOf (map fst z),
                     dexCount := dexCountOf (map fst z)\<rparr>))"

subsection \<open>Fixtures\<close>

text \<open>
  The manifest of the launcher fixture: an application with two activities, the second
  of which has an intent filter with the MAIN action and the LAUNCHER category; the
  first has an intent filter with the MAIN action only.
\<close>

definition leaf :: "string \<Rightarrow> string \<Rightarrow> element" where
  "leaf t nm = Element (JStr (lit t)) (JsObject [(lit ''android:name'', JStr (lit nm))] True) [] []"

definition node :: "string \<Rightarrow> string \<Rightarrow> element list \<Rightarrow> element" where
  "node t nm cs = Element (JStr (lit t)) (JsObject [(lit ''android:name'', JStr (lit nm))] True) cs []"

definition firstActivity :: element where
  "firstActivity =
     node ''activity'' ''com.example.Settings''
       [Element (JStr (lit ''intent-filter'')) emptyObject [leaf ''action'' ''android.intent.action.MAIN''] []]"

definition secondActivity :: element where
  "secondActivity =
     node ''activity'' ''com.example.Main''
       [Element (JStr (lit ''intent-filter'')) emptyObject
          [leaf ''action'' ''android.intent.action.MAIN'',
           leaf ''category'' ''android.intent.category.LAUNCHER''] []]"

definition launcherApp :: element where
  "launcherApp = Element (JStr (lit ''application'')) emptyObject [firstActivity, secondActivity] []"

definition launcherManifest :: element where
  "launcherManifest =
     Element (JStr (lit ''manifest'')) (JsObject [(lit ''package'', JStr (lit ''com.example''))] True)
       [launcherApp] []"

text \<open>
  An archive whose manifest is eight zero bytes (not AXML) and whose launcher icon cannot
  be read.
\<close>

definition brokenIconApk :: zip where
  "brokenIconApk =
     [(lit ''AndroidManifest.xml'', \<lparr>dir = False, content = Inr [0, 0, 8, 0, 8, 0, 0, 0]\<rparr>),
      (lit ''res/mipmap-mdpi-v4/ic_launcher.png'',
       \<lparr>dir = False, content = Inl (JsError (lit ''invalid block type''))\<rparr>)]"

text \<open>The same manifest in an archive with code, a native library and a signature.\<close>

definition brokenManifestApk :: zip where
  "brokenManifestApk =
     [(lit ''AndroidManifest.xml'', \<lparr>dir = False, content = Inr [0, 0, 8, 0, 8, 0, 0, 0]\<rparr>),
      (lit ''classes.dex'', \<lparr>dir = False, content = Inr [100, 101, 120]\<rparr>),
      (lit ''lib/arm64-v8a/libapp.so'', \<lparr>dir = False, content = Inr [127, 69, 76, 70]\<rparr>),
      (lit ''META-INF/CERT.RSA'', \<lparr>dir = False, content = Inr [48]\<rparr>),
      (lit ''META-INF/CERT.SF'', \<lparr>dir = False, content = Inr [83]\<rparr>)]"

section \<open>Manifest projector: theorems\<close>

lemma lit_eq_iff: "lit a = lit b \<longleftrightarrow> a = b"
proof -
  have "inj (of_char :: char \<Rightarrow> nat)" by (rule inj_of_char)
  then have "inj (map (of_char :: char \<Rightarrow> nat))" by (rule iffD2 [OF inj_map])
  then show ?thesis unfolding lit_def by (rule inj_eq)
qed

lemma extractManifest_activities:
  assumes "tag manifest = JStr (lit ''manifest'')"
    and "child_of manifest (lit ''application'') = Some app"
  shows "activities (extractManifest manifest info)
         = map (\<lambda>a. \<lparr>activityName = orElse (attr a ''android:name'') (JStr []),
                      activityIsLauncher = isLauncher a\<rparr>)
             (children_of app (lit ''activity''))"
  using assms
  by (simp add: extractManifest_def Let_def split: option.splits jsval.splits)

text \<open>
  Claim C4. \<^verbatim>\<open>_isLauncher\<close> holds of an activity element if and only if one of its
  \<open>intent-filter\<close> children has both an \<open>action\<close> child whose \<open>android:name\<close> is
  \<open>android.intent.action.MAIN\<close> and a \<open>category\<close> child whose \<open>android:name\<close> is
  \<open>android.intent.category.LAUNCHER\<close>; and \<^verbatim>\<open>_extractManifest\<close> records, for the
  \<open>i\<close>-th \<open>activity\<close> child of the application, that flag at \<open>activities[i].isLauncher\<close>.
\<close>

theorem isLauncher_iff_main_and_launcher:
  "(isLauncher activity \<longleftrightarrow>
      (\<exists>f \<in> set (children activity). tag f = JStr (lit ''intent-filter'')
         \<and> (\<exists>a \<in> set (children f). tag a = JStr (lit ''action'')
               \<and> getProp (attributes a) (lit ''android:name'')
                   = JStr (lit ''android.intent.action.MAIN''))
         \<and> (\<exists>c \<in> set (children f). tag c = JStr (lit ''category'')
               \<and> getProp (attributes c) (lit ''android:name'')
                   = JStr (lit ''android.intent.category.LAUNCHER''))))
   \<and> (tag manifest = JStr (lit ''manifest'')
        \<and> child_of manifest (lit ''application'') = Some app
        \<and> i < length (children_of app (lit ''activity''))
      \<longrightarrow> length (activities (extractManifest manifest info))
            = length (children_of app (lit ''activity''))
          \<and> activityIsLauncher (activities (extractManifest manifest info) ! i)
            = isLauncher (children_of app (lit ''activity'') ! i))"
proof (intro conjI impI)
  show "isLauncher activity \<longleftrightarrow>
      (\<exists>f \<in> set (children activity). tag f = JStr (lit ''intent-filter'')
         \<and> (\<exists>a \<in> set (children f). tag a = JStr (lit ''action'')
               \<and> getProp (attributes a) (lit ''android:name'')
                   = JStr (lit ''android.intent.action.MAIN''))
         \<and> (\<exists>c \<in> set (children f). tag c = JStr (lit ''category'')
               \<and> getProp (attributes c) (lit ''android:name'')
                   = JStr (lit ''android.intent.category.LAUNCHER'')))"
    by (auto simp add: isLauncher_def children_of_def list_ex_iff Let_def)
next
  assume a: "tag manifest = JStr (lit ''manifest'')
        \<and> child_of manifest (lit ''application'') = Some app
        \<and> i < length (children_of app (lit ''activity''))"
  then have e: "activities (extractManifest manifest info)
         = map (\<lambda>a. \<lparr>activityName = orElse (attr a ''android:name'') (JStr []),
                      activityIsLauncher = isLauncher a\<rparr>)
             (children_of app (lit ''activity''))"
    using extractManifest_activities by blast
  show "length (activities (extractManifest manifest info))
            = length (children_of app (lit ''activity''))"
    by (simp add: e)
  show "activityIsLauncher (activities (extractManifest manifest info) ! i)
            = isLauncher (children_of app (lit ''activity'') ! i)"
    using a by (simp add: e)
qed

lemmas launcher_fixture_defs =
  launcherManifest_def launcherApp_def firstActivity_def secondActivity_def node_def leaf_def
  child_of_def children_of_def getProp_def lookupProp_def emptyObject_def lit_eq_iff

text \<open>
  Witness for C4, the launcher fixture: of two activities only the second has a filter
  with both MAIN and LAUNCHER, so \<open>activities[1].isLauncher\<close> is true and
  \<open>activities[0].isLauncher\<close> is false.
\<close>

theorem isLauncher_iff_main_and_launcher_witness:
  "activityIsLauncher
     (activities (extractManifest launcherManifest (initialInfo (lit ''app.apk'') 1024 1)) ! 1)
   \<and> \<not> activityIsLauncher
     (activities (extractManifest launcherManifest (initialInfo (lit ''app.apk'') 1024 1)) ! 0)"
proof -
  let ?info = "initialInfo (lit ''app.apk'') 1024 1"
  have acts: "children_of launcherApp (lit ''activity'') = [firstActivity, secondActivity]"
    by (simp add: launcher_fixture_defs)
  have pre: "tag launcherManifest = JStr (lit ''manifest'')
        \<and> child_of launcherManifest (lit ''application'') = Some launcherApp
        \<and> i < length (children_of launcherApp (lit ''activity''))" if "i < 2" for i
    using that by (simp add: launcher_fixture_defs)
  have second: "\<exists>f \<in> set (children secondActivity). tag f = JStr (lit ''intent-filter'')
         \<and> (\<exists>a \<in> set (children f). tag a = JStr (lit ''action'')
               \<and> getProp (attributes a) (lit ''android:name'')
                   = JStr (lit ''android.intent.action.MAIN''))
         \<and> (\<exists>c \<in> set (children f). tag c = JStr (lit ''category'')
               \<and> getProp (attributes c) (lit ''android:name'')
                   = JStr (lit ''android.intent.category.LAUNCHER''))"
    by (simp add: launcher_fixture_defs)
  have first: "\<not> (\<exists>f \<in> set (children firstActivity). tag f = JStr (lit ''intent-filter'')
         \<and> (\<exists>a \<in> set (children f). tag a = JStr (lit ''action'')
               \<and> getProp (attributes a) (lit ''android:name'')
                   = JStr (lit ''android.intent.action.MAIN''))
         \<and> (\<exists>c \<in> set (children f). tag c = JStr (lit ''category'')
               \<and> getProp (attributes c) (lit ''android:name'')
                   = JStr (lit ''android.intent.category.LAUNCHER'')))"
    by (simp add: launcher_fixture_defs)
  note t = isLauncher_iff_main_and_launcher
  have l2: "isLauncher secondActivity"
    using t [where activity = secondActivity, THEN conjunct1] second by blast
  have l1: "\<not> isLauncher firstActivity"
    using t [where activity = firstActivity, THEN conjunct1] first by blast
  have a1: "activityIsLauncher (activities (extractManifest launcherManifest ?info) ! 1)
            = isLauncher ([firstActivity, secondActivity] ! 1)"
    using t [where manifest = launcherManifest and app = launcherApp and i = 1 and info = ?info,
        THEN conjunct2, THEN mp, OF pre, THEN conjunct2]
    by (simp add: acts)
  have a0: "activityIsLauncher (activities (extractManifest launcherManifest ?info) ! 0)
            = isLauncher ([firstActivity, secondActivity] ! 0)"
    using t [where manifest = launcherManifest and app = launcherApp and i = 0 and info = ?info,
        THEN conjunct2, THEN mp, OF pre, THEN conjunct2]
    by (simp add: acts)
  show ?thesis using a0 a1 l1 l2 by simp
qed

section \<open>APKParser: theorems\<close>

lemma extractIcon_Inr:
  assumes "extractIcon z info = Inr (ic, info')"
  shows "info' = info \<or> (\<exists>p. info' = info\<lparr>iconPath := JStr p\<rparr>)"
  using assms
  by (auto simp add: extractIcon_def split: option.splits sum.splits list.splits prod.splits)

lemma firstEntry_Some:
  "firstEntry z paths = Some (p, entry) \<Longrightarrow> zipFile z p = Some entry"
  by (induction paths) (auto split: option.splits)

lemma extractIcon_Inl:
  assumes "extractIcon z info = Inl err"
  shows "\<exists>p entry. zipFile z p = Some entry \<and> content entry = Inl err"
  using assms
  by (auto simp add: extractIcon_def blobURL_def dest: firstEntry_Some
      split: option.splits sum.splits list.splits prod.splits jsval.splits if_splits)

lemma manifestStage_failure:
  assumes "zipFile z (lit ''AndroidManifest.xml'') = Some entry"
    and "content entry = Inl e \<or> (\<exists>buf. content entry = Inr buf \<and> axml_parse pf buf = Inl e)"
  shows "manifestStage pf z info = info\<lparr>manifestError := Some (message e)\<rparr>"
  using assms by (auto simp add: manifestStage_def)

text \<open>
  When \<open>AndroidManifest.xml\<close> is a file of the archive and reading or decoding it throws
  \<open>e\<close>, the manifest stage of \<^verbatim>\<open>APKParser.parse\<close> does not throw: it records the message
  of \<open>e\<close> as \<^verbatim>\<open>_manifestError\<close> and changes nothing else; and whenever the icon lookup
  that follows returns, the parse returns a BuildInfo that carries the recorded message,
  the file size, the number of entries, the dex count, the architectures and the
  signing info.
\<close>

lemma manifest_failure_recorded:
  assumes "zipFile z (lit ''AndroidManifest.xml'') = Some entry"
    and "content entry = Inl e \<or> (\<exists>buf. content entry = Inr buf \<and> axml_parse pf buf = Inl e)"
  shows "manifestStage pf z (initialInfo name sz (length z))
           = (initialInfo name sz (length z))\<lparr>manifestError := Some (message e)\<rparr>
       \<and> (\<forall>ic info2.
              extractIcon z ((initialInfo name sz (length z))\<lparr>manifestError := Some (message e)\<rparr>)
                = Inr (ic, info2)
              \<longrightarrow> (\<exists>info. apk_parse pf z name sz = Inr info
                     \<and> manifestError info = Some (message e)
                     \<and> fileSize info = sz
                     \<and> totalFiles info = length z
                     \<and> dexCount info = dexCountOf (map fst z)
                     \<and> architectures info = architecturesOf (map fst z)
                     \<and> signingInfo info = signingOf (map fst z)))"
proof (intro conjI allI impI)
  let ?i0 = "initialInfo name sz (length z)"
  let ?i1 = "?i0\<lparr>manifestError := Some (message e)\<rparr>"
  show st: "manifestStage pf z ?i0 = ?i1"
    using assms by (rule manifestStage_failure)
  fix ic info2
  assume ok: "extractIcon z ?i1 = Inr (ic, info2)"
  let ?r = "info2\<lparr>icon := ic, signingInfo := signingOf (map fst z),
                   architectures := architecturesOf (map fst z),
                   dexCount := dexCountOf (map fst z)\<rparr>"
  have p: "apk_parse pf z name sz = Inr ?r"
    by (simp add: apk_parse_def st ok)
  from extractIcon_Inr [OF ok]
  have kept: "manifestError info2 = Some (message e) \<and> fileSize info2 = sz
              \<and> totalFiles info2 = length z"
    by (auto simp add: initialInfo_def)
  show "\<exists>info. apk_parse pf z name sz = Inr info
                   \<and> manifestError info = Some (message e)
                   \<and> fileSize info = sz
                   \<and> totalFiles info = length z
                   \<and> dexCount info = dexCountOf (map fst z)
                   \<and> architectures info = architecturesOf (map fst z)
                   \<and> signingInfo info = signingOf (map fst z)"
    using p kept by simp
qed

lemma notAxml_zero_header: "axml_parse pf [0, 0, 8, 0, 8, 0, 0, 0] = Inl notAxml"
  by (rule axml_parse_notAxml) (simp_all add: getUint16_def)

text \<open>
  The manifest of the archive \<open>brokenManifestApk\<close> is not AXML and the archive has no
  icon: the parse returns the message of \<^verbatim>\<open>NotAxml\<close> as \<^verbatim>\<open>_manifestError\<close>, with the
  archive-level fields computed.
\<close>

lemma apk_parse_brokenManifestApk:
  "\<exists>info. apk_parse asciiPlatform brokenManifestApk (lit ''app.apk'') 4096 = Inr info
      \<and> manifestError info = Some (lit ''Not a valid Android Binary XML file'')
      \<and> fileSize info = 4096
      \<and> totalFiles info = 5
      \<and> dexCount info = 1
      \<and> architectures info = Some [lit ''arm64-v8a'']
      \<and> signingInfo info = Some \<lparr>isSigned = True, certFile = lit ''META-INF/CERT.RSA'',
                                   signatureFiles = [lit ''META-INF/CERT.SF'']\<rparr>"
proof -
  let ?entry = "\<lparr>dir = False, content = Inr [0, 0, 8, 0, 8, 0, 0, 0]\<rparr>"
  let ?i1 = "(initialInfo (lit ''app.apk'') 4096 (length brokenManifestApk))
               \<lparr>manifestError := Some (message notAxml)\<rparr>"
  have m: "zipFile brokenManifestApk (lit ''AndroidManifest.xml'') = Some ?entry"
    by (simp add: brokenManifestApk_def zipFile_def)
  have c: "content ?entry = Inl notAxml
           \<or> (\<exists>buf. content ?entry = Inr buf \<and> axml_parse asciiPlatform buf = Inl notAxml)"
    by (simp add: notAxml_zero_header)
  have none: "firstEntry brokenManifestApk iconCandidates = None"
    by (simp add: brokenManifestApk_def iconCandidates_def zipFile_def lit_eq_iff)
  have nopng: "filter isLauncherPng (map fst brokenManifestApk) = []"
    by code_simp
  have ic: "extractIcon brokenManifestApk ?i1 = Inr (None, ?i1)"
    by (simp add: extractIcon_def none nopng initialInfo_def)
  have msg: "message notAxml = lit ''Not a valid Android Binary XML file''"
    by (simp add: message_def notAxml_def)
  have len: "length brokenManifestApk = 5"
    by (simp add: brokenManifestApk_def)
  have dex: "dexCountOf (map fst brokenManifestApk) = 1"
    by code_simp
  have arch: "architecturesOf (map fst brokenManifestApk) = Some [lit ''arm64-v8a'']"
    by code_simp
  have sig: "signingOf (map fst brokenManifestApk)
             = Some \<lparr>isSigned = True, certFile = lit ''META-INF/CERT.RSA'',
                     signatureFiles = [lit ''META-INF/CERT.SF'']\<rparr>"
    by code_simp
  from manifest_failure_recorded [OF m c, of "lit ''app.apk''" 4096,
      THEN conjunct2, THEN spec, THEN spec, THEN mp, OF ic]
  show ?thesis
    unfolding msg len dex arch sig .
qed

text \<open>
  Claim C9. If decoding \<open>AndroidManifest.xml\<close> throws, \<^verbatim>\<open>APKParser.parse\<close> is not to abort:
  the message is recorded as \<^verbatim>\<open>_manifestError\<close> and a BuildInfo with the archive-level
  fields is returned. The code departs from that at the archive \<open>brokenIconApk\<close>: its
  manifest is not AXML, the manifest stage records the message of \<^verbatim>\<open>NotAxml\<close>, and the
  read of the blob of its icon, which no \<^verbatim>\<open>try\<close> encloses, rejects; the parse rejects with
  that error and returns no BuildInfo.
\<close>

theorem apk_parse_aborts_on_icon_read:
  "zipFile brokenIconApk (lit ''AndroidManifest.xml'')
     = Some \<lparr>dir = False, content = Inr [0, 0, 8, 0, 8, 0, 0, 0]\<rparr>
   \<and> axml_parse asciiPlatform [0, 0, 8, 0, 8, 0, 0, 0] = Inl notAxml
   \<and> manifestError (manifestStage asciiPlatform brokenIconApk
                        (initialInfo (lit ''app.apk'') 4096 (length brokenIconApk)))
       = Some (lit ''Not a valid Android Binary XML file'')
   \<and> apk_parse asciiPlatform brokenIconApk (lit ''app.apk'') 4096
       = Inl (JsError (lit ''invalid block type''))"
  by (simp add: notAxml_zero_header apk_parse_def manifestStage_def extractIcon_def
        brokenIconApk_def zipFile_def initialInfo_def iconCandidates_def blobURL_def lit_eq_iff
        message_def notAxml_def)

section \<open>Binary property list decoder: definitions\<close>

subsection \<open>Numbers\<close>

text \<open>
  The numbers of the decoder are integers computed in double precision. \<open>Num z\<close> is the
  integer \<open>z\<close>, of magnitude below \<open>2 ^ 53\<close>, where the arithmetic of the source is exact;
  \<open>Huge\<close> is a result of \<open>2 ^ 53\<close> or more (rounded, or infinite), whose value the model
  does not follow; \<open>NaN\<close> comes from arithmetic on \<^verbatim>\<open>undefined\<close>, the value of a typed
  array read outside the array.
\<close>

datatype jsnum = Num int | NaN | Huge

definition exactInt :: "int \<Rightarrow> jsnum" where
  "exactInt z = (if z < 2 ^ 53 then Num z else Huge)"

fun jadd :: "jsnum \<Rightarrow> jsnum \<Rightarrow> jsnum" where
  "jadd (Num a) (Num b) = exactInt (a + b)"
| "jadd NaN y = NaN"
| "jadd x NaN = NaN"
| "jadd Huge y = Huge"
| "jadd x Huge = Huge"

text \<open>\<^verbatim>\<open>i * size\<close> for a loop index and a size that is a byte or \<^verbatim>\<open>undefined\<close>.\<close>

definition scaled :: "nat \<Rightarrow> nat option \<Rightarrow> jsnum" where
  "scaled i sz = (case sz of None \<Rightarrow> NaN | Some s \<Rightarrow> exactInt (int i * int s))"

text \<open>\<^verbatim>\<open>this.bytes[k]\<close>: \<^verbatim>\<open>undefined\<close> unless \<open>k\<close> is an index of the array.\<close>

definition byteAt :: "u8array \<Rightarrow> jsnum \<Rightarrow> nat option" where
  "byteAt bytes k =
     (case k of
        Num z \<Rightarrow> if 0 \<le> z \<and> z < int (length bytes) then Some (unat (bytes ! nat z)) else None
      | _ \<Rightarrow> None)"

text \<open>
  \<^verbatim>\<open>_readBigEndian(offset, size)\<close>: \<open>val = val * 256 + this.bytes[offset + i]\<close> for
  \<open>i\<close> from 0 up to \<open>size\<close>, from \<open>val = 0\<close>.
\<close>

definition beStep :: "u8array \<Rightarrow> jsnum \<Rightarrow> jsnum \<Rightarrow> nat \<Rightarrow> jsnum" where
  "beStep bytes off val i =
     (case byteAt bytes (jadd off (Num (int i))) of
        None \<Rightarrow> NaN
      | Some b \<Rightarrow>
          (case val of
             Num v \<Rightarrow> exactInt (v * 256 + int b)
           | NaN \<Rightarrow> NaN
           | Huge \<Rightarrow> Huge))"

definition readBigEndian :: "u8array \<Rightarrow> jsnum \<Rightarrow> nat \<Rightarrow> jsnum" where
  "readBigEndian bytes off sz = foldl (beStep bytes off) (Num 0) [0..<sz]"

text \<open>The same for a size that is a byte or \<^verbatim>\<open>undefined\<close>: \<^verbatim>\<open>i < undefined\<close> is false.\<close>

definition readBigEndianOpt :: "u8array \<Rightarrow> jsnum \<Rightarrow> nat option \<Rightarrow> jsnum" where
  "readBigEndianOpt bytes off sz =
     (case sz of None \<Rightarrow> Num 0 | Some s \<Rightarrow> readBigEndian bytes off s)"

subsection \<open>Values\<close>

text \<open>
  The value tree the decoder returns. \<open>PReal32 w\<close>, \<open>PReal64 w\<close> are the numbers with the
  IEEE-754 bits \<open>w\<close>, \<open>PDate w\<close> is the \<^verbatim>\<open>Date\<close> made from the seconds with the bits
  \<open>w\<close>. \<open>PDict\<close> lists the assignments \<^verbatim>\<open>dict[key] = value\<close> in the order they are made,
  with the key as decoded, before its conversion to a property name.
\<close>

datatype plist =
    PUndefined
  | PNull
  | PBool bool
  | PNumber jsnum
  | PReal32 "32 word"
  | PReal64 "64 word"
  | PDate "64 word"
  | PData u8array
  | PString jsstring
  | PUid jsnum
  | PArray "plist list"
  | PDict "(plist \<times> plist) list"

subsection \<open>The parser object\<close>

text \<open>
  The fields of a \<^verbatim>\<open>BPlistParser\<close> that \<^verbatim>\<open>parse\<close> sets once; the cache \<^verbatim>\<open>_parsed\<close> is
  the mutable state, a map from object indices to values.
\<close>

record bplist =
  bytes :: u8array
  offsets :: "jsnum list"
  objectRefSize :: "nat option"

type_synonym cache = "jsnum \<Rightarrow> plist option"

definition invalidArrayLength :: js_error where
  "invalidArrayLength = JsRangeError (lit ''Invalid array length'')"

definition invalidStringLength :: js_error where
  "invalidStringLength = JsRangeError (lit ''Invalid string length'')"

subsection \<open>Type parsers without references\<close>

definition parseSimple :: "nat \<Rightarrow> plist" where
  "parseSimple info = (if info = 0x08 then PBool False else if info = 0x09 then PBool True else PNull)"

definition parseInt :: "u8array \<Rightarrow> nat \<Rightarrow> nat \<Rightarrow> plist" where
  "parseInt bs off info = PNumber (readBigEndian bs (Num (int off + 1)) (2 ^ info))"

text \<open>\<^verbatim>\<open>DataView\<close> reads of \<open>n\<close> bytes, big-endian, as one word.\<close>

definition getBytesBE :: "u8array \<Rightarrow> nat \<Rightarrow> nat \<Rightarrow> js_error + nat" where
  "getBytesBE bs off n =
     (if off + n \<le> length bs
      then Inr (foldl (\<lambda>v b. v * 256 + unat b) 0 (take n (drop off bs)))
      else Inl dataViewRangeError)"

definition parseReal :: "u8array \<Rightarrow> nat \<Rightarrow> nat \<Rightarrow> js_error + plist" where
  "parseReal bs off info =
     (if (2::nat) ^ info = 4 then
        (case getBytesBE bs (off + 1) 4 of Inl e \<Rightarrow> Inl e | Inr w \<Rightarrow> Inr (PReal32 (word_of_nat w)))
      else if (2::nat) ^ info = 8 then
        (case getBytesBE bs (off + 1) 8 of Inl e \<Rightarrow> Inl e | Inr w \<Rightarrow> Inr (PReal64 (word_of_nat w)))
      else Inr (PNumber (Num 0)))"

definition parseDate :: "u8array \<Rightarrow> nat \<Rightarrow> js_error + plist" where
  "parseDate bs off =
     (case getBytesBE bs (off + 1) 8 of Inl e \<Rightarrow> Inl e | Inr w \<Rightarrow> Inr (PDate (word_of_nat w)))"

text \<open>\<^verbatim>\<open>_getCount(offset, info)\<close>: the count and the length of the header.\<close>

definition getCount :: "u8array \<Rightarrow> nat \<Rightarrow> nat \<Rightarrow> jsnum \<times> nat" where
  "getCount bs off info =
     (if info \<noteq> 0x0f then (Num (int info), 1)
      else
        let intInfo = (case byteAt bs (Num (int off + 1)) of None \<Rightarrow> 0 | Some m \<Rightarrow> m mod 16);
            byteCount = 2 ^ intInfo
        in (readBigEndian bs (Num (int off + 2)) byteCount, 2 + byteCount))"

text \<open>
  \<^verbatim>\<open>this.bytes.slice(start, start + count)\<close>: an end that is \<^verbatim>\<open>NaN\<close> counts as 0, an end
  past the array as its length.
\<close>

definition parseData :: "u8array \<Rightarrow> nat \<Rightarrow> nat \<Rightarrow> plist" where
  "parseData bs off info =
     (case getCount bs off info of
        (count, headerLen) \<Rightarrow>
          (case count of
             Num n \<Rightarrow> PData (take (nat n) (drop (off + headerLen) bs))
           | NaN \<Rightarrow> PData []
           | Huge \<Rightarrow> PData (drop (off + headerLen) bs)))"

text \<open>
  \<^verbatim>\<open>_ascii(offset, len)\<close>: \<^verbatim>\<open>String.fromCharCode(undefined)\<close> is the code unit 0. A string
  holds fewer than \<open>2 ^ 53\<close> code units, so a length of \<open>2 ^ 53\<close> or more ends in a
  \<^verbatim>\<open>RangeError\<close>; the smaller limit of an engine is not modelled.
\<close>

definition ascii :: "u8array \<Rightarrow> nat \<Rightarrow> jsnum \<Rightarrow> js_error + jsstring" where
  "ascii bs off len =
     (case len of
        Num n \<Rightarrow> Inr (map (\<lambda>i. case byteAt bs (Num (int off + int i)) of None \<Rightarrow> 0 | Some b \<Rightarrow> b)
                        [0..<nat n])
      | NaN \<Rightarrow> Inr []
      | Huge \<Rightarrow> Inl invalidStringLength)"

definition parseAscii :: "u8array \<Rightarrow> nat \<Rightarrow> nat \<Rightarrow> js_error + plist" where
  "parseAscii bs off info =
     (case getCount bs off info of
        (count, headerLen) \<Rightarrow>
          (case ascii bs (off + headerLen) count of Inl e \<Rightarrow> Inl e | Inr s \<Rightarrow> Inr (PString s)))"

text \<open>
  \<^verbatim>\<open>_parseUnicode\<close>: \<^verbatim>\<open>getUint16(start + i * 2, false)\<close> for \<open>i\<close> below the count; the first
  read outside the buffer throws, and a count of \<open>2 ^ 53\<close> or more reaches one.
\<close>

primrec getUint16sBE :: "u8array \<Rightarrow> nat \<Rightarrow> nat \<Rightarrow> js_error + nat list" where
  "getUint16sBE bs off 0 = Inr []"
| "getUint16sBE bs off (Suc n) =
     (case getBytesBE bs off 2 of
        Inl e \<Rightarrow> Inl e
      | Inr v \<Rightarrow>
          (case getUint16sBE bs (off + 2) n of
             Inl e \<Rightarrow> Inl e
           | Inr vs \<Rightarrow> Inr (v # vs)))"

definition parseUnicode :: "u8array \<Rightarrow> nat \<Rightarrow> nat \<Rightarrow> js_error + plist" where
  "parseUnicode bs off info =
     (case getCount bs off info of
        (count, headerLen) \<Rightarrow>
          (case count of
             Num n \<Rightarrow>
               (case getUint16sBE bs (off + headerLen) (nat n) of
                  Inl e \<Rightarrow> Inl e
                | Inr units \<Rightarrow> Inr (PString units))
           | NaN \<Rightarrow> Inr (PString [])
           | Huge \<Rightarrow> Inl dataViewRangeError))"

definition parseUid :: "u8array \<Rightarrow> nat \<Rightarrow> nat \<Rightarrow> plist" where
  "parseUid bs off info = PUid (readBigEndian bs (Num (int off + 1)) (info + 1))"

subsection \<open>References\<close>

text \<open>
  The object references of an array, a set or a dictionary:
  \<^verbatim>\<open>_readBigEndian(start + i * this.objectRefSize, this.objectRefSize)\<close>.
\<close>

definition refAt :: "bplist \<Rightarrow> jsnum \<Rightarrow> nat \<Rightarrow> jsnum" where
  "refAt bp start i =
     readBigEndianOpt (bytes bp) (jadd start (scaled i (objectRefSize bp))) (objectRefSize bp)"

subsection \<open>Objects\<close>

text \<open>
  A computation that may not return: \<open>None\<close> is a call whose recursion has no end (an
  engine runs it until its call stack is exhausted), \<open>Some (Inl e)\<close> one that throws
  \<open>e\<close>, \<open>Some (Inr (v, c))\<close> one that returns \<open>v\<close> and leaves the cache
  \<open>c\<close>. \<open>eachRef f refs c\<close> runs \<open>f\<close> on the references in order, threading the cache,
  and collects the values: the body of the loops of \<^verbatim>\<open>_parseArray\<close> and
  \<^verbatim>\<open>_parseDict\<close>.
\<close>

type_synonym 'a outcome = "(js_error + ('a \<times> cache)) option"

fun eachRef :: "(cache \<Rightarrow> jsnum \<Rightarrow> plist outcome) \<Rightarrow> jsnum list \<Rightarrow> cache \<Rightarrow> (plist list) outcome" where
  "eachRef f [] c = Some (Inr ([], c))"
| "eachRef f (r # rs) c =
     Option.bind (f c r) (\<lambda>res.
       case res of
         Inl e \<Rightarrow> Some (Inl e)
       | Inr (v, c') \<Rightarrow>
           Option.bind (eachRef f rs c') (\<lambda>res'.
             case res' of
               Inl e \<Rightarrow> Some (Inl e)
             | Inr (vs, c'') \<Rightarrow> Some (Inr (v # vs, c''))))"

lemma eachRef_mono [partial_function_mono]:
  assumes "\<And>c r. mono_option (\<lambda>f. F f c r)"
  shows "mono_option (\<lambda>f. eachRef (F f) rs c)"
proof (induction rs arbitrary: c)
  case Nil
  show ?case by (simp add: option.const_mono)
next
  case (Cons r rs)
  show ?case
    unfolding eachRef.simps
  proof (rule bind_mono [OF assms])
    fix y :: "js_error + plist \<times> cache"
    show "mono_option (\<lambda>f. case y of
              Inl e \<Rightarrow> Some (Inl e)
            | Inr (v, c') \<Rightarrow>
                Option.bind (eachRef (F f) rs c') (\<lambda>res'.
                  case res' of
                    Inl e \<Rightarrow> Some (Inl e)
                  | Inr (vs, c'') \<Rightarrow> Some (Inr (v # vs, c''))))"
    proof (cases y)
      case (Inl e)
      then show ?thesis by (simp add: option.const_mono)
    next
      case (Inr p)
      obtain v c' where p: "p = (v, c')" by (cases p) auto
      show ?thesis
        unfolding Inr p
        by simp (rule bind_mono [OF Cons.IH], rule option.const_mono)
    qed
  qed
qed

fun pairs :: "'a list \<Rightarrow> ('a \<times> 'a) list" where
  "pairs (k # v # rest) = (k, v) # pairs rest"
| "pairs rest = []"

text \<open>\<^verbatim>\<open>this.offsets[index]\<close> and, from it, \<^verbatim>\<open>this.bytes[offset]\<close> with its offset.\<close>

definition offsetOf :: "bplist \<Rightarrow> jsnum \<Rightarrow> jsnum option" where
  "offsetOf bp index =
     (case index of
        Num z \<Rightarrow> if 0 \<le> z \<and> z < int (length (offsets bp)) then Some (offsets bp ! nat z) else None
      | _ \<Rightarrow> None)"

definition markerOf :: "bplist \<Rightarrow> jsnum \<Rightarrow> (nat \<times> nat) option" where
  "markerOf bp index =
     (case offsetOf bp index of
        None \<Rightarrow> None
      | Some off \<Rightarrow>
          (case byteAt (bytes bp) off of
             None \<Rightarrow> None
           | Some marker \<Rightarrow> (case off of Num z \<Rightarrow> Some (nat z, marker) | _ \<Rightarrow> None)))"

text \<open>
  \<^verbatim>\<open>_parseObject(index)\<close>, with \<^verbatim>\<open>_parseArray\<close> and \<^verbatim>\<open>_parseDict\<close> in its body. An
  undefined marker gives type 0 and info 0. \<^verbatim>\<open>new Array(count)\<close> throws unless the count
  is an integer below \<open>2 ^ 32\<close>. The loop of \<^verbatim>\<open>_parseDict\<close> does not end when the count is
  \<open>2 ^ 53\<close> or more, since its index stops growing at \<open>2 ^ 53\<close> (a count of exactly
  \<open>2 ^ 53\<close> would end it after as many iterations; the model does not follow the loop
  that far).
\<close>

partial_function (option) parseObject :: "bplist \<Rightarrow> cache \<Rightarrow> jsnum \<Rightarrow> plist outcome" where
  "parseObject bp c index =
     (case c index of
        Some v \<Rightarrow> Some (Inr (v, c))
      | None \<Rightarrow>
          (case markerOf bp index of
             None \<Rightarrow> Some (Inr (PNull, c(index \<mapsto> PNull)))
           | Some (off, marker) \<Rightarrow>
               Option.bind
                 (if marker div 16 = 0x0 then Some (Inr (parseSimple (marker mod 16), c))
                  else if marker div 16 = 0x1
                    then Some (Inr (parseInt (bytes bp) off (marker mod 16), c))
                  else if marker div 16 = 0x2
                    then Some (map_sum id (\<lambda>v. (v, c)) (parseReal (bytes bp) off (marker mod 16)))
                  else if marker div 16 = 0x3
                    then Some (map_sum id (\<lambda>v. (v, c)) (parseDate (bytes bp) off))
                  else if marker div 16 = 0x4
                    then Some (Inr (parseData (bytes bp) off (marker mod 16), c))
                  else if marker div 16 = 0x5
                    then Some (map_sum id (\<lambda>v. (v, c)) (parseAscii (bytes bp) off (marker mod 16)))
                  else if marker div 16 = 0x6
                    then Some (map_sum id (\<lambda>v. (v, c)) (parseUnicode (bytes bp) off (marker mod 16)))
                  else if marker div 16 = 0x8
                    then Some (Inr (parseUid (bytes bp) off (marker mod 16), c))
                  else if marker div 16 = 0xa \<or> marker div 16 = 0xc then
                    (case getCount (bytes bp) off (marker mod 16) of
                       (count, headerLen) \<Rightarrow>
                         (case count of
                            Num n \<Rightarrow>
                              if n < 2 ^ 32 then
                                Option.bind
                                  (eachRef (\<lambda>c' r. parseObject bp c' r)
                                     (map (refAt bp (Num (int off + int headerLen))) [0..<nat n]) c)
                                  (\<lambda>res. Some (map_sum id (\<lambda>(vs, c'). (PArray vs, c')) res))
                              else Some (Inl invalidArrayLength)
                          | NaN \<Rightarrow> Some (Inl invalidArrayLength)
                          | Huge \<Rightarrow> Some (Inl invalidArrayLength)))
                  else if marker div 16 = 0xd then
                    (case getCount (bytes bp) off (marker mod 16) of
                       (count, headerLen) \<Rightarrow>
                         (case count of
                            Num n \<Rightarrow>
                              Option.bind
                                (eachRef (\<lambda>c' r. parseObject bp c' r)
                                   (concat (map (\<lambda>i.
                                      [refAt bp (Num (int off + int headerLen)) i,
                                       refAt bp (jadd (Num (int off + int headerLen))
                                                   (scaled (nat n) (objectRefSize bp))) i])
                                      [0..<nat n])) c)
                                (\<lambda>res. Some (map_sum id (\<lambda>(vs, c'). (PDict (pairs vs), c')) res))
                          | NaN \<Rightarrow> Some (Inr (PDict [], c))
                          | Huge \<Rightarrow> None))
                  else Some (Inr (PUndefined, c)))
                 (\<lambda>res. case res of
                    Inl e \<Rightarrow> Some (Inl e)
                  | Inr (v, c') \<Rightarrow> Some (Inr (v, c'(index \<mapsto> v))))))"

definition notBplist :: js_error where
  "notBplist = JsError (lit ''Not a binary plist file'')"

text \<open>
  \<^verbatim>\<open>new BPlistParser(buffer).parse()\<close>, in two parts: \<open>readTrailer\<close> is the body of
  \<^verbatim>\<open>parse\<close> up to the offset table, giving the parser object and the top index, and
  \<open>bplist_parse\<close> ends with \<^verbatim>\<open>return this._parseObject(topIndex)\<close>.
\<close>

definition readTrailer :: "u8array \<Rightarrow> js_error + (bplist \<times> jsnum)" where
  "readTrailer buf =
     (if ascii buf 0 (Num 6) \<noteq> Inr (lit ''bplist'') then Inl notBplist
      else
        let tOff = int (length buf) - 32;
            offsetIntSize = byteAt buf (Num (tOff + 6));
            refSize = byteAt buf (Num (tOff + 7));
            numObjects = readBigEndian buf (Num (tOff + 8)) 8;
            topIndex = readBigEndian buf (Num (tOff + 16)) 8;
            tableOffset = readBigEndian buf (Num (tOff + 24)) 8
        in case numObjects of
             Num n \<Rightarrow>
               if n < 2 ^ 32 then
                 Inr (\<lparr>bytes = buf,
                       offsets = map (\<lambda>i. readBigEndianOpt buf
                                             (jadd tableOffset (scaled i offsetIntSize))
                                             offsetIntSize) [0..<nat n],
                       objectRefSize = refSize\<rparr>, topIndex)
               else Inl invalidArrayLength
           | NaN \<Rightarrow> Inl invalidArrayLength
           | Huge \<Rightarrow> Inl invalidArrayLength)"

definition bplist_parse :: "u8array \<Rightarrow> (js_error + plist) option" where
  "bplist_parse buf =
     (case readTrailer buf of
        Inl e \<Rightarrow> Some (Inl e)
      | Inr (bp, topIndex) \<Rightarrow> map_option (map_sum id fst) (parseObject bp Map.empty topIndex))"



text \<open>
  A marker of none of the types of the \<^verbatim>\<open>switch\<close> of \<^verbatim>\<open>_parseObject\<close>, and the caches in
  which every index with such a marker, if cached, holds \<^verbatim>\<open>undefined\<close>: the empty cache is
  one, and \<^verbatim>\<open>_parseObject\<close> keeps the property.
\<close>

definition unknownType :: "nat \<Rightarrow> bool" where
  "unknownType marker =
     (marker div 16 \<notin> {0x0, 0x1, 0x2, 0x3, 0x4, 0x5, 0x6, 0x8, 0xA, 0xC, 0xD})"

definition unknownAsUndefined :: "bplist \<Rightarrow> cache \<Rightarrow> bool" where
  "unknownAsUndefined bp c =
     (\<forall>index off marker v.
        markerOf bp index = Some (off, marker) \<and> unknownType marker \<and> c index = Some v
        \<longrightarrow> v = PUndefined)"

subsection \<open>Fixtures\<close>


text \<open>A file whose only object has the marker \<^verbatim>\<open>70\<close>, of no type.\<close>

definition unknownTypeObject :: u8array where
  "unknownTypeObject =
     [98, 112, 108, 105, 115, 116, 48, 48, 0x70, 8,
      0, 0, 0, 0, 0, 0, 1, 1,
      0, 0, 0, 0, 0, 0, 0, 1,
      0, 0, 0, 0, 0, 0, 0, 0,
      0, 0, 0, 0, 0, 0, 0, 9]"

text \<open>
  The array \<^verbatim>\<open>[true]\<close>: the array \<^verbatim>\<open>A1 01\<close> at offset 8, the value \<^verbatim>\<open>09\<close> at offset 10,
  the offset table \<^verbatim>\<open>08 0A\<close> at offset 11, and the parser object \<^verbatim>\<open>parse\<close> builds from
  the file.
\<close>

definition arrayOfTrue :: u8array where
  "arrayOfTrue =
     [98, 112, 108, 105, 115, 116, 48, 48, 0xA1, 1, 0x09, 8, 10,
      0, 0, 0, 0, 0, 0, 1, 1,
      0, 0, 0, 0, 0, 0, 0, 2,
      0, 0, 0, 0, 0, 0, 0, 0,
      0, 0, 0, 0, 0, 0, 0, 11]"

definition arrayOfTrueParser :: bplist where
  "arrayOfTrueParser = \<lparr>bytes = arrayOfTrue, offsets = [Num 8, Num 10], objectRefSize = Some 1\<rparr>"

definition unknownTypeParser :: bplist where
  "unknownTypeParser = \<lparr>bytes = unknownTypeObject, offsets = [Num 8], objectRefSize = Some 1\<rparr>"


section \<open>Binary property list decoder: theorems\<close>

lemma parseObject_cached:
  "c index = Some v \<Longrightarrow> parseObject bp c index = Some (Inr (v, c))"
  by (subst parseObject.simps) simp



lemma unknownAsUndefined_empty:
  "unknownAsUndefined bp Map.empty"
  by (simp add: unknownAsUndefined_def)

lemma unknownAsUndefined_update:
  assumes "unknownAsUndefined bp c"
    and "\<And>off marker. markerOf bp index = Some (off, marker) \<Longrightarrow> unknownType marker \<Longrightarrow> v = PUndefined"
  shows "unknownAsUndefined bp (c(index \<mapsto> v))"
  using assms unfolding unknownAsUndefined_def by (auto split: if_splits)

lemma eachRef_unknownAsUndefined:
  assumes f: "\<And>c r v c'. f c r = Some (Inr (v, c')) \<Longrightarrow> unknownAsUndefined bp c
                \<Longrightarrow> unknownAsUndefined bp c'"
    and "eachRef f rs c = Some (Inr (vs, c'))"
    and "unknownAsUndefined bp c"
  shows "unknownAsUndefined bp c'"
  using assms(2,3)
proof (induction rs arbitrary: c vs)
  case Nil
  then show ?case by simp
next
  case (Cons r rs)
  from Cons.prems(1) obtain res where r: "f c r = Some res"
    by (cases "f c r") auto
  with Cons.prems(1) obtain v c1 where res: "res = Inr (v, c1)"
    by (cases res) auto
  from f [OF r [unfolded res] Cons.prems(2)] have c1: "unknownAsUndefined bp c1" .
  from Cons.prems(1) r res obtain res' where e: "eachRef f rs c1 = Some res'"
    by (cases "eachRef f rs c1") auto
  with Cons.prems(1) r res obtain ws where "res' = Inr (ws, c')"
    by (cases res') auto
  with e Cons.IH [OF _ c1] show ?case
    by simp
qed

lemma bind_cache_result:
  assumes "Option.bind m (\<lambda>res. case res of
              Inl e \<Rightarrow> Some (Inl e)
            | Inr (v, c') \<Rightarrow> Some (Inr (v, c'(index \<mapsto> v)))) = Some (Inr (w, c''))"
  shows "\<exists>c1. m = Some (Inr (w, c1)) \<and> c'' = c1(index \<mapsto> w)"
proof (cases m)
  case None
  with assms show ?thesis by simp
next
  case (Some r)
  show ?thesis
  proof (cases r)
    case (Inl e)
    with assms Some show ?thesis by simp
  next
    case (Inr p)
    obtain v c' where "p = (v, c')" by (cases p) auto
    with assms Some Inr show ?thesis by auto
  qed
qed

lemma container_result:
  assumes "Option.bind e (\<lambda>res. Some (map_sum id (\<lambda>(vs, c'). (g vs, c')) res)) = Some (Inr (v, c1))"
  shows "\<exists>vs. e = Some (Inr (vs, c1))"
proof (cases e)
  case None
  with assms show ?thesis by simp
next
  case (Some r)
  with assms show ?thesis
    by (cases r) auto
qed

lemma leaf_result:
  assumes "map_sum id (\<lambda>v. (v, c)) r = Inr (v, c1)"
  shows "c1 = c"
  using assms by (cases r) auto

lemma parseObject_unknownAsUndefined_aux:
  assumes "parseObject bp c index = Some y"
  shows "unknownAsUndefined bp c \<longrightarrow> (\<forall>v c'. y = Inr (v, c') \<longrightarrow> unknownAsUndefined bp c')"
proof (rule parseObject.raw_induct [where P = "\<lambda>bp c index y.
          unknownAsUndefined bp c \<longrightarrow> (\<forall>v c'. y = Inr (v, c') \<longrightarrow> unknownAsUndefined bp c')",
          OF _ assms])
  fix f :: "bplist \<Rightarrow> cache \<Rightarrow> jsnum \<Rightarrow> plist outcome" and bp c index y
  assume IH: "\<And>bp c index y. f bp c index = Some y \<Longrightarrow>
                unknownAsUndefined bp c \<longrightarrow> (\<forall>v c'. y = Inr (v, c') \<longrightarrow> unknownAsUndefined bp c')"
  assume body: "(case c index of
      None \<Rightarrow>
        case markerOf bp index of
        None \<Rightarrow> Some (Inr (PNull, c(index \<mapsto> PNull)))
        | Some (off, marker) \<Rightarrow>
            Option.bind
             (if marker div 16 = 0
              then Some (Inr (parseSimple (marker mod 16), c))
              else if marker div 16 = 1
                   then Some (Inr (parseInt (bytes bp) off (marker mod 16), c))
                   else if marker div 16 = 2
                        then Some (map_sum id (\<lambda>v. (v, c)) (parseReal (bytes bp) off (marker mod 16)))
                        else if marker div 16 = 3
                             then Some (map_sum id (\<lambda>v. (v, c)) (parseDate (bytes bp) off))
                             else if marker div 16 = 4
                                  then Some (Inr (parseData (bytes bp) off (marker mod 16), c))
                                  else if marker div 16 = 5
 then Some (map_sum id (\<lambda>v. (v, c)) (parseAscii (bytes bp) off (marker mod 16)))
 else if marker div 16 = 6
      then Some (map_sum id (\<lambda>v. (v, c)) (parseUnicode (bytes bp) off (marker mod 16)))
      else if marker div 16 = 8
           then Some (Inr (parseUid (bytes bp) off (marker mod 16), c))
           else if marker div 16 = 10 \<or> marker div 16 = 12
                then case getCount (bytes bp) off (marker mod 16) of
                     (Num n, headerLen) \<Rightarrow>
                       if n < 2 ^ 32
                       then Option.bind
                             (eachRef (f bp)
                               (map (refAt bp (Num (int off + int headerLen))) [0..<nat n])
                               c)
                             (\<lambda>res. Some (map_sum id (\<lambda>(vs, c'). (PArray vs, c')) res))
                       else Some (Inl invalidArrayLength)
                     | (_, headerLen) \<Rightarrow> Some (Inl invalidArrayLength)
                else if marker div 16 = 13
                     then case getCount (bytes bp) off (marker mod 16) of
                          (Num n, headerLen) \<Rightarrow>
                            Option.bind
                             (eachRef (f bp)
                               (concat
                                 (map (\<lambda>i.
    [refAt bp (Num (int off + int headerLen)) i,
     refAt bp (jadd (Num (int off + int headerLen)) (scaled (nat n) (objectRefSize bp))) i])
                                   [0..<nat n]))
                               c)
                             (\<lambda>res. Some (map_sum id (\<lambda>(vs, c'). (PDict (pairs vs), c')) res))
                          | (NaN, headerLen) \<Rightarrow> Some (Inr (PDict [], c))
                          | (Huge, headerLen) \<Rightarrow> None
                     else Some (Inr (PUndefined, c)))
             (\<lambda>res. case res of Inl e \<Rightarrow> Some (Inl e)
                    | Inr (v, c') \<Rightarrow> Some (Inr (v, c'(index \<mapsto> v))))
      | Some v \<Rightarrow> Some (Inr (v, c))) = Some y"
  show "unknownAsUndefined bp c \<longrightarrow> (\<forall>v c'. y = Inr (v, c') \<longrightarrow> unknownAsUndefined bp c')"
  proof (intro impI allI)
    fix v c'
    assume inv: "unknownAsUndefined bp c" and y: "y = Inr (v, c')"
    have step: "\<And>c0 r w c1. f bp c0 r = Some (Inr (w, c1)) \<Longrightarrow> unknownAsUndefined bp c0
                  \<Longrightarrow> unknownAsUndefined bp c1"
      using IH by blast
    have refs: "\<And>rs vs c1. eachRef (f bp) rs c = Some (Inr (vs, c1)) \<Longrightarrow> unknownAsUndefined bp c1"
      by (rule eachRef_unknownAsUndefined [of "f bp" bp _ c]) (auto intro: step inv)
    show "unknownAsUndefined bp c'"
    proof (cases "c index")
      case (Some w)
      with body y inv show ?thesis by simp
    next
      case None
      show ?thesis
      proof (cases "markerOf bp index")
        case n: None
        with body y None have c': "c' = c(index \<mapsto> PNull)"
          by simp
        show ?thesis
          unfolding c' using inv n
          by (intro unknownAsUndefined_update) simp_all
      next
        case (Some p)
        obtain off marker where p: "p = (off, marker)" by (cases p) auto
        from body [unfolded y] obtain m where
          m: "Option.bind m (\<lambda>res. case res of Inl e \<Rightarrow> Some (Inl e)
                    | Inr (v, c') \<Rightarrow> Some (Inr (v, c'(index \<mapsto> v)))) = Some (Inr (v, c'))"
          and mdef: "m = (if marker div 16 = 0
              then Some (Inr (parseSimple (marker mod 16), c))
              else if marker div 16 = 1
                   then Some (Inr (parseInt (bytes bp) off (marker mod 16), c))
                   else if marker div 16 = 2
                        then Some (map_sum id (\<lambda>v. (v, c)) (parseReal (bytes bp) off (marker mod 16)))
                        else if marker div 16 = 3
                             then Some (map_sum id (\<lambda>v. (v, c)) (parseDate (bytes bp) off))
                             else if marker div 16 = 4
                                  then Some (Inr (parseData (bytes bp) off (marker mod 16), c))
                                  else if marker div 16 = 5
 then Some (map_sum id (\<lambda>v. (v, c)) (parseAscii (bytes bp) off (marker mod 16)))
 else if marker div 16 = 6
      then Some (map_sum id (\<lambda>v. (v, c)) (parseUnicode (bytes bp) off (marker mod 16)))
      else if marker div 16 = 8
           then Some (Inr (parseUid (bytes bp) off (marker mod 16), c))
           else if marker div 16 = 10 \<or> marker div 16 = 12
                then case getCount (bytes bp) off (marker mod 16) of
                     (Num n, headerLen) \<Rightarrow>
                       if n < 2 ^ 32
                       then Option.bind
                             (eachRef (f bp)
                               (map (refAt bp (Num (int off + int headerLen))) [0..<nat n])
                               c)
                             (\<lambda>res. Some (map_sum id (\<lambda>(vs, c'). (PArray vs, c')) res))
                       else Some (Inl invalidArrayLength)
                     | (_, headerLen) \<Rightarrow> Some (Inl invalidArrayLength)
                else if marker div 16 = 13
                     then case getCount (bytes bp) off (marker mod 16) of
                          (Num n, headerLen) \<Rightarrow>
                            Option.bind
                             (eachRef (f bp)
                               (concat
                                 (map (\<lambda>i.
    [refAt bp (Num (int off + int headerLen)) i,
     refAt bp (jadd (Num (int off + int headerLen)) (scaled (nat n) (objectRefSize bp))) i])
                                   [0..<nat n]))
                               c)
                             (\<lambda>res. Some (map_sum id (\<lambda>(vs, c'). (PDict (pairs vs), c')) res))
                          | (NaN, headerLen) \<Rightarrow> Some (Inr (PDict [], c))
                          | (Huge, headerLen) \<Rightarrow> None
                     else Some (Inr (PUndefined, c)))"
          by (simp add: None Some p)
        from bind_cache_result [OF m] obtain c1 where
          m1: "m = Some (Inr (v, c1))" and c': "c' = c1(index \<mapsto> v)"
          by blast
        have c1: "unknownAsUndefined bp c1"
          using m1 [unfolded mdef] inv refs
          by (auto split: if_splits prod.splits jsnum.splits
              dest!: container_result leaf_result)
        have v: "unknownType marker \<Longrightarrow> v = PUndefined"
          using m1 [unfolded mdef] by (simp add: unknownType_def)
        show ?thesis
          unfolding c' using c1 v Some p
          by (intro unknownAsUndefined_update) auto
      qed
    qed
  qed
qed


lemma parseObject_unknownAsUndefined:
  assumes "parseObject bp c index = Some (Inr (v, c'))" and "unknownAsUndefined bp c"
  shows "unknownAsUndefined bp c'"
  using parseObject_unknownAsUndefined_aux [OF assms(1)] assms(2) by blast


lemma readTrailer_unknownTypeObject:
  "readTrailer unknownTypeObject = Inr (unknownTypeParser, Num 0)"
  by code_simp

lemma readTrailer_arrayOfTrue:
  "readTrailer arrayOfTrue = Inr (arrayOfTrueParser, Num 0)"
  by code_simp


lemma eachRef_None:
  "f c r = None \<Longrightarrow> eachRef f (r # rs) c = None"
  by simp











lemma markerOf_unknownTypeParser:
  "markerOf unknownTypeParser (Num 0) = Some (8, 0x70)"
  by (simp add: markerOf_def offsetOf_def byteAt_def unknownTypeParser_def unknownTypeObject_def)






text \<open>
  Claim C7, as the code has it. For an object whose marker has a high nibble that is none
  of the types \<open>0x0, 0x1, 0x2, 0x3, 0x4, 0x5, 0x6, 0x8, 0xA, 0xC, 0xD\<close>, \<^verbatim>\<open>_parseObject\<close>
  returns \<^verbatim>\<open>undefined\<close>, which is not the \<^verbatim>\<open>null\<close> the decoder gives elsewhere, and caches it
  for the index. The cache is one the decoder can have reached: it starts empty, and
  \<^verbatim>\<open>_parseObject\<close> keeps in it \<^verbatim>\<open>undefined\<close> for every such object.
\<close>

theorem parseObject_unknown_type_is_undefined:
  assumes "markerOf bp index = Some (off, marker)"
    and "marker div 16 \<notin> {0x0, 0x1, 0x2, 0x3, 0x4, 0x5, 0x6, 0x8, 0xA, 0xC, 0xD}"
    and "unknownAsUndefined bp c"
  shows "parseObject bp c index = Some (Inr (PUndefined, c(index \<mapsto> PUndefined)))
       \<and> unknownAsUndefined bp (c(index \<mapsto> PUndefined))
       \<and> PUndefined \<noteq> PNull"
proof -
  have u: "unknownType marker"
    using assms(2) by (simp add: unknownType_def)
  have p: "parseObject bp c index = Some (Inr (PUndefined, c(index \<mapsto> PUndefined)))"
  proof (cases "c index")
    case None
    then show ?thesis
      using assms(1,2) by (subst parseObject.simps) simp
  next
    case (Some w)
    with assms(1,3) u have w: "c index = Some PUndefined"
      unfolding unknownAsUndefined_def by blast
    then have "c(index \<mapsto> PUndefined) = c"
      by (rule map_upd_triv)
    with parseObject_cached [of c index PUndefined bp] w show ?thesis
      by simp
  qed
  from parseObject_unknownAsUndefined [OF p assms(3)] p show ?thesis
    by simp
qed

theorem parseObject_unknown_type_is_undefined_witness:
  "parseObject unknownTypeParser Map.empty (Num 0)
     = Some (Inr (PUndefined, [Num 0 \<mapsto> PUndefined]))
   \<and> unknownAsUndefined unknownTypeParser [Num 0 \<mapsto> PUndefined]"
proof -
  have m: "(0x70::nat) div 16 \<notin> {0x0, 0x1, 0x2, 0x3, 0x4, 0x5, 0x6, 0x8, 0xA, 0xC, 0xD}"
    by simp
  from parseObject_unknown_type_is_undefined
         [OF markerOf_unknownTypeParser m unknownAsUndefined_empty]
  show ?thesis
    by simp
qed

text \<open>
  Claim C7, as stated, fails: the only object of the file \<open>unknownTypeObject\<close> has the
  marker \<^verbatim>\<open>70\<close>, of type 7, and decodes to \<^verbatim>\<open>undefined\<close>, not to \<^verbatim>\<open>null\<close>.
\<close>

theorem parseObject_unknown_type_not_null:
  "markerOf unknownTypeParser (Num 0) = Some (8, 0x70)
   \<and> (0x70 :: nat) div 16 = 7
   \<and> parseObject unknownTypeParser Map.empty (Num 0)
       = Some (Inr (PUndefined, [Num 0 \<mapsto> PUndefined]))
   \<and> bplist_parse unknownTypeObject = Some (Inr PUndefined)
   \<and> PUndefined \<noteq> PNull"
proof -
  have p: "parseObject unknownTypeParser Map.empty (Num 0)
             = Some (Inr (PUndefined, [Num 0 \<mapsto> PUndefined]))"
    by (subst parseObject.simps) (simp add: markerOf_unknownTypeParser)
  then have "bplist_parse unknownTypeObject = Some (Inr PUndefined)"
    by (simp add: bplist_parse_def readTrailer_unknownTypeObject)
  with p show ?thesis
    by (simp add: markerOf_unknownTypeParser)
qed

section \<open>IPAParser: definitions\<close>

text \<open>
  The object \<^verbatim>\<open>info\<close> of \<^verbatim>\<open>IPAParser.parse\<close>. The values a property list gives are of a
  type \<open>'v\<close>, the record a provisioning profile gives of a type \<open>'p\<close>; \<open>None\<close> is \<^verbatim>\<open>null\<close>,
  for \<open>supportedPlatforms\<close> the empty array. \<^verbatim>\<open>_plistError\<close> and \<^verbatim>\<open>_executableName\<close> are
  \<open>plistError\<close> and \<open>executableName\<close>, absent (\<open>None\<close>) until they are assigned.
\<close>

record ('v, 'p) ipainfo =
  artifact :: jsstring
  fileName :: jsstring
  fileSize :: nat
  bundleId :: "'v option"
  appName :: "'v option"
  displayName :: "'v option"
  version :: "'v option"
  buildNumber :: "'v option"
  minOSVersion :: "'v option"
  deviceFamilies :: "jsstring list"
  supportedPlatforms :: "'v option"
  icon :: "objectURL option"
  iconPath :: "jsstring option"
  hasProvisioning :: bool
  provisioningInfo :: "'p option"
  frameworks :: "jsstring list option"
  requiredCapabilities :: "'v option"
  backgroundModes :: "'v option"
  totalFiles :: nat
  plistError :: "jsstring option"
  executableName :: "'v option"



















subsection \<open>Fixtures\<close>




section \<open>IPAParser: theorems\<close>















section \<open>Proto-XML decoder: definitions\<close>

subsection \<open>ProtoDecoder\<close>

text \<open>
  An entry \<^verbatim>\<open>{ wt, v }\<close> of a field: the wire type fixes the form of the value, a number
  for the types 0, 1 and 5 and a reference \<^verbatim>\<open>{ off, len }\<close> into the buffer for the type
  2. The object \<^verbatim>\<open>fields\<close> maps a field number to the array of its entries, an
  association list here; \<open>fieldOf f num\<close> is \<^verbatim>\<open>f[num]\<close>, with no entries for an absent
  field.
\<close>

datatype entry = Varint nat | Fixed64 nat | Len nat nat | Fixed32 nat

fun wt :: "entry \<Rightarrow> nat" where
  "wt (Varint n) = 0"
| "wt (Fixed64 n) = 1"
| "wt (Len off len) = 2"
| "wt (Fixed32 n) = 5"

type_synonym fields = "(nat \<times> entry list) list"

definition noFields :: fields where
  "noFields = []"

definition fieldOf :: "fields \<Rightarrow> nat \<Rightarrow> entry list" where
  "fieldOf f num = (case map_of f num of None \<Rightarrow> [] | Some es \<Rightarrow> es)"

text \<open>
  \<^verbatim>\<open>_varint()\<close> from the position \<open>pos\<close>, with the shift \<open>s\<close> and the bits \<open>r\<close> read so
  far: the value and the new position. A byte outside the array is \<^verbatim>\<open>undefined\<close>, whose
  bits are those of 0. Only the shifts below 28 contribute, so the value is below
  \<open>2 ^ 28\<close> and \<^verbatim>\<open>r >>> 0\<close> changes nothing.
\<close>

function varintLoop :: "u8array \<Rightarrow> nat \<Rightarrow> nat \<Rightarrow> nat \<Rightarrow> nat \<Rightarrow> nat \<times> nat" where
  "varintLoop bs stop pos s r =
     (if pos < stop then
        let b = (if pos < length bs then unat (bs ! pos) else 0);
            r' = (if s < 28 then r OR push_bit s (b AND 0x7f) else r)
        in if b AND 0x80 = 0 then (r', pos + 1)
           else varintLoop bs stop (pos + 1) (s + 7) r'
      else (r, pos))"
  by pat_completeness auto
termination
  by (relation "measure (\<lambda>(bs, stop, pos, s, r). stop - pos)") auto

declare varintLoop.simps [simp del]

definition varint :: "u8array \<Rightarrow> nat \<Rightarrow> nat \<Rightarrow> nat \<times> nat" where
  "varint bs stop pos = varintLoop bs stop pos 0 0"

text \<open>
  The number a double holds for the integer \<open>n\<close>: \<open>n\<close> itself below \<open>2 ^ 53\<close>, else \<open>n\<close>
  rounded to 53 significant bits, ties to even.
\<close>

function bitLength :: "nat \<Rightarrow> nat" where
  "bitLength n = (if n = 0 then 0 else Suc (bitLength (n div 2)))"
  by pat_completeness auto
termination
  by (relation "measure id") auto

declare bitLength.simps [simp del]

definition toDouble :: "nat \<Rightarrow> nat" where
  "toDouble n =
     (if n < 2 ^ 53 then n
      else
        let e = bitLength n - 53;
            q = n div 2 ^ e;
            r = n mod 2 ^ e
        in (if 2 ^ e < 2 * r \<or> (2 * r = 2 ^ e \<and> odd q) then q + 1 else q) * 2 ^ e)"

text \<open>\<^verbatim>\<open>_fixed32()\<close> and \<^verbatim>\<open>_fixed64()\<close> at a position: reads of the view of the whole buffer.\<close>

definition fixed32 :: "u8array \<Rightarrow> nat \<Rightarrow> js_error + nat" where
  "fixed32 buf pos = getUint32 buf pos"

definition fixed64 :: "u8array \<Rightarrow> nat \<Rightarrow> js_error + nat" where
  "fixed64 buf pos =
     (case getUint32 buf pos of
        Inl e \<Rightarrow> Inl e
      | Inr lo \<Rightarrow>
          (case getUint32 buf (pos + 4) of
             Inl e \<Rightarrow> Inl e
           | Inr hi \<Rightarrow> Inr (toDouble (lo + hi * 0x100000000))))"

text \<open>\<^verbatim>\<open>(fields[num] || (fields[num] = [])).push({ wt, v })\<close>.\<close>

definition pushEntry :: "fields \<Rightarrow> nat \<Rightarrow> entry \<Rightarrow> fields" where
  "pushEntry fs num e = AList.update num (fieldOf fs num @ [e]) fs"

lemma fieldOf_pushEntry:
  "fieldOf (pushEntry fs num e) k = (if k = num then fieldOf fs num @ [e] else fieldOf fs k)"
  by (simp add: fieldOf_def pushEntry_def update_conv')

lemma fieldOf_noFields:
  "fieldOf noFields k = []"
  by (simp add: fieldOf_def noFields_def)

lemma varintLoop_pos:
  "varintLoop bs stop pos s r = (v, p) \<Longrightarrow> pos \<le> p \<and> (pos < stop \<longrightarrow> pos < p)"
proof (induction bs stop pos s r rule: varintLoop.induct)
  case (1 bs stop pos s r)
  show ?case
  proof (cases "pos < stop")
    case False
    with "1.prems" show ?thesis
      by (simp add: varintLoop.simps [of bs stop pos])
  next
    case True
    define b where "b = (if pos < length bs then unat (bs ! pos) else 0)"
    define r' where "r' = (if s < 28 then r OR push_bit s (b AND 0x7f) else r)"
    have eq: "varintLoop bs stop pos s r =
                (if b AND 0x80 = 0 then (r', pos + 1)
                 else varintLoop bs stop (pos + 1) (s + 7) r')"
      by (subst varintLoop.simps) (simp only: True if_True Let_def b_def r'_def)
    show ?thesis
    proof (cases "b AND 0x80 = 0")
      case z: True
      with "1.prems" eq show ?thesis
        by simp
    next
      case nz: False
      from "1.prems" eq nz have "varintLoop bs stop (pos + 1) (s + 7) r' = (v, p)"
        by simp
      from "1.IH" [OF True b_def r'_def nz this] show ?thesis
        by simp
    qed
  qed
qed

lemma varint_pos:
  "varint bs stop pos = (v, p) \<Longrightarrow> pos \<le> p \<and> (pos < stop \<longrightarrow> pos < p)"
  unfolding varint_def by (rule varintLoop_pos)

text \<open>
  \<^verbatim>\<open>readFields()\<close> of a decoder at the position \<open>pos\<close> with the end \<open>stop\<close>, from the fields
  read so far.
\<close>

function fieldsLoop :: "u8array \<Rightarrow> nat \<Rightarrow> nat \<Rightarrow> fields \<Rightarrow> js_error + fields" where
  "fieldsLoop buf stop pos fs =
     (if pos < stop then
        (case varint buf stop pos of
           (tg, p1) \<Rightarrow>
             if drop_bit 3 tg = 0 then Inr fs
             else if tg AND 7 = 0 then
               (case varint buf stop p1 of
                  (n, p2) \<Rightarrow> fieldsLoop buf stop p2 (pushEntry fs (drop_bit 3 tg) (Varint n)))
             else if tg AND 7 = 1 then
               (case fixed64 buf p1 of
                  Inl e \<Rightarrow> Inl e
                | Inr n \<Rightarrow> fieldsLoop buf stop (p1 + 8) (pushEntry fs (drop_bit 3 tg) (Fixed64 n)))
             else if tg AND 7 = 2 then
               (case varint buf stop p1 of
                  (n, p2) \<Rightarrow> fieldsLoop buf stop (p2 + n) (pushEntry fs (drop_bit 3 tg) (Len p2 n)))
             else if tg AND 7 = 5 then
               (case fixed32 buf p1 of
                  Inl e \<Rightarrow> Inl e
                | Inr n \<Rightarrow> fieldsLoop buf stop (p1 + 4) (pushEntry fs (drop_bit 3 tg) (Fixed32 n)))
             else Inr fs)
      else Inr fs)"
  by pat_completeness auto
termination
proof (relation "measure (\<lambda>(buf, stop, pos, fs). stop - pos)")
  show "wf (measure (\<lambda>(buf, stop, pos, fs). stop - pos))"
    by auto
next
  fix buf stop pos fs x y xa ya
  assume "pos < stop" "(x, y) = varint buf stop pos" "(xa, ya) = varint buf stop y"
  with varint_pos [of buf stop pos x y, OF sym] varint_pos [of buf stop y xa ya, OF sym]
  show "((buf, stop, ya, pushEntry fs (drop_bit 3 x) (Varint xa)), buf, stop, pos, fs)
          \<in> measure (\<lambda>(buf, stop, pos, fs). stop - pos)"
    by auto
next
  fix buf stop pos fs x y b
  assume "pos < stop" "(x, y) = varint buf stop pos"
  with varint_pos [of buf stop pos x y, OF sym]
  show "((buf, stop, y + 8, pushEntry fs (drop_bit 3 x) (Fixed64 b)), buf, stop, pos, fs)
          \<in> measure (\<lambda>(buf, stop, pos, fs). stop - pos)"
    by auto
next
  fix buf stop pos fs x y xa ya
  assume "pos < stop" "(x, y) = varint buf stop pos" "(xa, ya) = varint buf stop y"
  with varint_pos [of buf stop pos x y, OF sym] varint_pos [of buf stop y xa ya, OF sym]
  show "((buf, stop, ya + xa, pushEntry fs (drop_bit 3 x) (Len ya xa)), buf, stop, pos, fs)
          \<in> measure (\<lambda>(buf, stop, pos, fs). stop - pos)"
    by auto
next
  fix buf stop pos fs x y b
  assume "pos < stop" "(x, y) = varint buf stop pos"
  with varint_pos [of buf stop pos x y, OF sym]
  show "((buf, stop, y + 4, pushEntry fs (drop_bit 3 x) (Fixed32 b)), buf, stop, pos, fs)
          \<in> measure (\<lambda>(buf, stop, pos, fs). stop - pos)"
    by auto
qed

declare fieldsLoop.simps [simp del]

text \<open>
  \<^verbatim>\<open>new ProtoDecoder(buffer, start, len).readFields()\<close> and
  \<^verbatim>\<open>new ProtoDecoder(buffer).readFields()\<close>.
\<close>

definition readFieldsAt :: "u8array \<Rightarrow> nat \<Rightarrow> nat \<Rightarrow> js_error + fields" where
  "readFieldsAt buf start len = fieldsLoop buf (start + len) start noFields"

definition readFields :: "u8array \<Rightarrow> js_error + fields" where
  "readFields buf = fieldsLoop buf (length buf) 0 noFields"


lemma varintLoop_outside:
  assumes "length bs \<le> pos"
  shows "fst (varintLoop bs stop pos s r) = r"
  using assms by (subst varintLoop.simps) simp

lemma varint_outside:
  assumes "length bs \<le> pos" and "varint bs stop pos = (t, p)"
  shows "t = 0"
  using varintLoop_outside [OF assms(1), of stop 0 0] assms(2) by (simp add: varint_def)

text \<open>
  Every entry a decoder adds starts inside the buffer, and a reference it adds points
  behind the position the decoder started at.
\<close>

lemma fieldsLoop_entries:
  assumes "fieldsLoop buf stop pos fs = Inr f" and "e \<in> set (fieldOf f k)"
  shows "e \<in> set (fieldOf fs k) \<or> (pos < length buf \<and> (\<forall>off len. e = Len off len \<longrightarrow> pos < off))"
  using assms
proof (induction buf stop pos fs rule: fieldsLoop.induct)
  case (1 buf stop pos fs)
  show ?case
  proof (cases "pos < stop")
    case False
    with "1.prems" show ?thesis
      by (simp add: fieldsLoop.simps [of buf stop pos])
  next
    case True
    obtain t p1 where v1: "varint buf stop pos = (t, p1)"
      by (cases "varint buf stop pos") auto
    obtain n p2 where v2: "varint buf stop p1 = (n, p2)"
      by (cases "varint buf stop p1") auto
    from varint_pos [OF v1] True have p1: "pos < p1"
      by simp
    from varint_pos [OF v2] have p2: "p1 \<le> p2"
      by simp
    show ?thesis
    proof (cases "drop_bit 3 t = 0")
      case z: True
      with "1.prems" True v1 show ?thesis
        by (simp add: fieldsLoop.simps [of buf stop pos])
    next
      case nz: False
      then have "t \<noteq> 0"
        by (cases "t = 0") simp_all
      with varint_outside [OF _ v1] have inside: "pos < length buf"
        by (cases "pos < length buf") auto
      have new: "e \<in> set (fieldOf (pushEntry fs (drop_bit 3 t) e') k) \<Longrightarrow>
                   e \<in> set (fieldOf fs k) \<or> e = e'" for e'
        by (auto simp add: fieldOf_pushEntry split: if_splits)
      consider (w0) "t AND 7 = 0" | (w1) "t AND 7 = 1" | (w2) "t AND 7 = 2" | (w5) "t AND 7 = 5"
        | (other) "t AND 7 \<noteq> 0" "t AND 7 \<noteq> 1" "t AND 7 \<noteq> 2" "t AND 7 \<noteq> 5"
        by blast
      then show ?thesis
      proof cases
        case w0
        from "1.prems"(1) True v1 v2 nz w0
        have "fieldsLoop buf stop p2 (pushEntry fs (drop_bit 3 t) (Varint n)) = Inr f"
          by (simp add: fieldsLoop.simps [of buf stop pos])
        from "1.IH"(1) [OF True v1 [symmetric] nz w0 v2 [symmetric] this "1.prems"(2)]
        show ?thesis
          using new [of "Varint n"] inside p1 p2 by auto
      next
        case w1
        from "1.prems"(1) True v1 nz w1 obtain m where m: "fixed64 buf p1 = Inr m"
          and r: "fieldsLoop buf stop (p1 + 8) (pushEntry fs (drop_bit 3 t) (Fixed64 m)) = Inr f"
          by (cases "fixed64 buf p1") (auto simp add: fieldsLoop.simps [of buf stop pos])
        have ne: "t AND 7 \<noteq> 0"
          using w1 by simp
        from "1.IH"(2) [OF True v1 [symmetric] nz ne w1 m r "1.prems"(2)]
        show ?thesis
          using new [of "Fixed64 m"] inside p1 by auto
      next
        case w2
        from "1.prems"(1) True v1 v2 nz w2
        have r: "fieldsLoop buf stop (p2 + n) (pushEntry fs (drop_bit 3 t) (Len p2 n)) = Inr f"
          by (simp add: fieldsLoop.simps [of buf stop pos])
        have ne: "t AND 7 \<noteq> 0" "t AND 7 \<noteq> 1"
          using w2 by simp_all
        from "1.IH"(3) [OF True v1 [symmetric] nz ne w2 v2 [symmetric] r "1.prems"(2)]
        show ?thesis
          using new [of "Len p2 n"] inside p1 p2 by auto
      next
        case w5
        from "1.prems"(1) True v1 nz w5 obtain m where m: "fixed32 buf p1 = Inr m"
          and r: "fieldsLoop buf stop (p1 + 4) (pushEntry fs (drop_bit 3 t) (Fixed32 m)) = Inr f"
          by (cases "fixed32 buf p1") (auto simp add: fieldsLoop.simps [of buf stop pos])
        have ne: "t AND 7 \<noteq> 0" "t AND 7 \<noteq> 1" "t AND 7 \<noteq> 2"
          using w5 by simp_all
        from "1.IH"(4) [OF True v1 [symmetric] nz ne w5 m r "1.prems"(2)]
        show ?thesis
          using new [of "Fixed32 m"] inside p1 by auto
      next
        case other
        with "1.prems" True v1 nz show ?thesis
          by (simp add: fieldsLoop.simps [of buf stop pos])
      qed
    qed
  qed
qed

lemma readFieldsAt_entries:
  assumes "readFieldsAt buf start len = Inr f" and "Len off' len' \<in> set (fieldOf f k)"
  shows "start < length buf \<and> start < off'"
  using fieldsLoop_entries [OF assms [unfolded readFieldsAt_def]] by (simp add: fieldOf_noFields)


subsection \<open>ProtoXMLParser\<close>

text \<open>
  \<^verbatim>\<open>_sub(entry)\<close>. The decoders share the buffer, and \<^verbatim>\<open>this.namespaces\<close>, a map from
  a URI to a prefix, is the state of the parser.
\<close>

definition sub :: "u8array \<Rightarrow> entry \<Rightarrow> js_error + fields" where
  "sub buf e = (case e of Len off len \<Rightarrow> readFieldsAt buf off len | _ \<Rightarrow> Inr noFields)"

text \<open>The test \<^verbatim>\<open>f[num] && f[num][0].wt === w\<close> and \<^verbatim>\<open>this._sub(f[num][0])\<close> under it.\<close>

definition firstWt :: "fields \<Rightarrow> nat \<Rightarrow> nat \<Rightarrow> bool" where
  "firstWt f num w = (case fieldOf f num of [] \<Rightarrow> False | e # rest \<Rightarrow> wt e = w)"

definition subFirst :: "u8array \<Rightarrow> fields \<Rightarrow> nat \<Rightarrow> js_error + fields" where
  "subFirst buf f num = (case fieldOf f num of [] \<Rightarrow> Inr noFields | e # rest \<Rightarrow> sub buf e)"

text \<open>
  \<^verbatim>\<open>_str(fields, num)\<close>: \<^verbatim>\<open>null\<close>, or the text of the bytes referred to. The view
  \<^verbatim>\<open>new Uint8Array(this.buf, off, len)\<close> throws when it does not lie in the buffer.
\<close>

definition str :: "platform \<Rightarrow> u8array \<Rightarrow> fields \<Rightarrow> nat \<Rightarrow> js_error + jsval" where
  "str pf buf f num =
     (case fieldOf f num of
        [] \<Rightarrow> Inr JNull
      | e # rest \<Rightarrow>
          (case e of
             Len off len \<Rightarrow>
               if len = 0 then Inr (JStr [])
               else if length buf < off + len then Inl (typedArrayRangeError len)
               else Inr (JStr (utf8Decode pf (take len (drop off buf))))
           | _ \<Rightarrow> Inr JNull))"

text \<open>
  \<^verbatim>\<open>_primitive(f)\<close>. The float is read back from the four bytes the number was written
  to, so its bits are the number.
\<close>

fun numberOf :: "entry \<Rightarrow> nat" where
  "numberOf (Varint n) = n"
| "numberOf (Fixed64 n) = n"
| "numberOf (Fixed32 n) = n"
| "numberOf (Len off len) = 0"

definition firstNumber :: "fields \<Rightarrow> nat \<Rightarrow> nat" where
  "firstNumber f num = (case fieldOf f num of [] \<Rightarrow> 0 | e # rest \<Rightarrow> numberOf e)"

definition primitive :: "fields \<Rightarrow> jsval" where
  "primitive f =
     (if firstWt f 6 0 then JNum (int (firstNumber f 6))
      else if firstWt f 7 0 then JNum (int (firstNumber f 7))
      else if firstWt f 8 0 then JBool (firstNumber f 8 \<noteq> 0)
      else if firstWt f 3 5 then JFloat (word_of_nat (firstNumber f 3))
      else if fieldOf f 1 \<noteq> [] then JNull
      else JUndefined)"

text \<open>
  \<^verbatim>\<open>id.toString(16)\<close> for \<^verbatim>\<open>id = ref[1] ? ref[1][0].v : 0\<close>: the wire type of the entry is
  not tested, and a reference \<^verbatim>\<open>{ off, len }\<close> has the text of an object.
\<close>

fun idText :: "entry \<Rightarrow> jsstring" where
  "idText (Len off len) = lit ''[object Object]''"
| "idText e = hexLower (numberOf e)"

text \<open>\<^verbatim>\<open>_item(f)\<close>.\<close>

definition item :: "platform \<Rightarrow> u8array \<Rightarrow> fields \<Rightarrow> js_error + jsval" where
  "item pf buf f =
     (if firstWt f 1 2 then
        (case subFirst buf f 1 of
           Inl e \<Rightarrow> Inl e
         | Inr ref \<Rightarrow>
             Inr (JStr (lit ''@0x'' @ (case fieldOf ref 1 of [] \<Rightarrow> hexLower 0 | e # rest \<Rightarrow> idText e))))
      else if firstWt f 2 2 then
        (case subFirst buf f 2 of Inl e \<Rightarrow> Inl e | Inr g \<Rightarrow> str pf buf g 1)
      else if firstWt f 3 2 then
        (case subFirst buf f 3 of Inl e \<Rightarrow> Inl e | Inr g \<Rightarrow> str pf buf g 1)
      else if firstWt f 7 2 then
        (case subFirst buf f 7 of Inl e \<Rightarrow> Inl e | Inr g \<Rightarrow> Inr (primitive g))
      else Inr JUndefined)"

text \<open>A loop over the entries of a field that ends at the first error.\<close>

fun foldE :: "('a \<Rightarrow> 's \<Rightarrow> js_error + 's) \<Rightarrow> 'a list \<Rightarrow> 's \<Rightarrow> js_error + 's" where
  "foldE f [] s = Inr s"
| "foldE f (x # xs) s = (case f x s of Inl e \<Rightarrow> Inl e | Inr s' \<Rightarrow> foldE f xs s')"

lemma foldE_cong [fundef_cong]:
  assumes "xs = ys" and "s = t" and "\<And>x s. x \<in> set ys \<Longrightarrow> f x s = g x s"
  shows "foldE f xs s = foldE g ys t"
  unfolding assms(1,2) using assms(3)
proof (induction ys arbitrary: t)
  case Nil
  show ?case by simp
next
  case (Cons y ys)
  then show ?case
    by (cases "g y t") auto
qed

text \<open>The string of a value that is a string.\<close>

definition strOpt :: "jsval \<Rightarrow> jsstring option" where
  "strOpt v = (case v of JStr s \<Rightarrow> Some s | _ \<Rightarrow> None)"

text \<open>One namespace declaration: \<^verbatim>\<open>if (prefix && uri) this.namespaces[uri] = prefix\<close>.\<close>

definition protoNamespace ::
  "platform \<Rightarrow> u8array \<Rightarrow> entry \<Rightarrow> jsstring jsobject \<Rightarrow> js_error + jsstring jsobject" where
  "protoNamespace pf buf ns nss =
     (if wt ns \<noteq> 2 then Inr nss
      else
        case sub buf ns of
          Inl e \<Rightarrow> Inl e
        | Inr nsf \<Rightarrow>
            (case str pf buf nsf 1 of
               Inl e \<Rightarrow> Inl e
             | Inr pre \<Rightarrow>
                 (case str pf buf nsf 2 of
                    Inl e \<Rightarrow> Inl e
                  | Inr uri \<Rightarrow>
                      Inr (case strOpt pre of
                             None \<Rightarrow> nss
                           | Some p \<Rightarrow>
                               (case strOpt uri of
                                  None \<Rightarrow> nss
                                | Some u \<Rightarrow>
                                    if p \<noteq> [] \<and> u \<noteq> [] then setProp False u p nss
                                    else nss)))))"

text \<open>
  One attribute. The value is the raw string of field 3, \<^verbatim>\<open>null\<close> without one, unless
  field 6 holds a compiled item that gives a value other than \<^verbatim>\<open>undefined\<close>; it is stored
  by \<^verbatim>\<open>element.attributes[key] = value\<close> and pushed to \<^verbatim>\<open>_rawAttrs\<close>.
\<close>

definition protoAttr ::
  "platform \<Rightarrow> u8array \<Rightarrow> jsstring jsobject \<Rightarrow> entry
     \<Rightarrow> jsval jsobject \<times> rawattr list
     \<Rightarrow> js_error + (jsval jsobject \<times> rawattr list)" where
  "protoAttr pf buf nss a acc =
     (if wt a \<noteq> 2 then Inr acc
      else
        case sub buf a of
          Inl e \<Rightarrow> Inl e
        | Inr af \<Rightarrow>
            (case str pf buf af 1 of
               Inl e \<Rightarrow> Inl e
             | Inr nsUri \<Rightarrow>
                 (case str pf buf af 2 of
                    Inl e \<Rightarrow> Inl e
                  | Inr name \<Rightarrow>
                      (case str pf buf af 3 of
                         Inl e \<Rightarrow> Inl e
                       | Inr raw \<Rightarrow>
                           (case (if firstWt af 6 2 then
                                    (case subFirst buf af 6 of
                                       Inl e \<Rightarrow> Inl e
                                     | Inr itf \<Rightarrow>
                                         (case item pf buf itf of
                                            Inl e \<Rightarrow> Inl e
                                          | Inr typed \<Rightarrow>
                                              Inr (if typed \<noteq> JUndefined then typed else raw)))
                                  else Inr raw) of
                              Inl e \<Rightarrow> Inl e
                            | Inr val \<Rightarrow>
                                Inr (putProp (attrKey pf nss (strOpt nsUri) (strOpt name)) val
                                       (fst acc),
                                     snd acc @ [\<lparr>ra_namespace = nsUri, ra_name = name,
                                                 ra_value = val, ra_type = None,
                                                 ra_data = None\<rparr>]))))))"

text \<open>
  \<^verbatim>\<open>_xmlElement(f)\<close>, where \<open>walk c\<close> is \<^verbatim>\<open>this._xmlNode(this._sub(c))\<close> for an entry \<open>c\<close>
  of field 5; \<open>protoChild\<close> is one iteration of the loop over the children.
\<close>

definition protoChild ::
  "(entry \<Rightarrow> jsstring jsobject \<Rightarrow> js_error + (element option \<times> jsstring jsobject))
     \<Rightarrow> entry \<Rightarrow> element list \<times> jsstring jsobject
     \<Rightarrow> js_error + (element list \<times> jsstring jsobject)" where
  "protoChild walk c acc =
     (if wt c \<noteq> 2 then Inr acc
      else
        case walk c (snd acc) of
          Inl e \<Rightarrow> Inl e
        | Inr (child, nss') \<Rightarrow>
            Inr (case child of None \<Rightarrow> fst acc | Some el \<Rightarrow> fst acc @ [el], nss'))"

definition xmlElementWith ::
  "(entry \<Rightarrow> jsstring jsobject \<Rightarrow> js_error + (element option \<times> jsstring jsobject))
     \<Rightarrow> platform \<Rightarrow> u8array \<Rightarrow> fields \<Rightarrow> jsstring jsobject
     \<Rightarrow> js_error + (element \<times> jsstring jsobject)" where
  "xmlElementWith walk pf buf f nss =
     (case foldE (protoNamespace pf buf) (fieldOf f 1) nss of
        Inl e \<Rightarrow> Inl e
      | Inr nss1 \<Rightarrow>
          (case str pf buf f 3 of
             Inl e \<Rightarrow> Inl e
           | Inr t \<Rightarrow>
               (case foldE (protoAttr pf buf nss1) (fieldOf f 4) (emptyObject, []) of
                  Inl e \<Rightarrow> Inl e
                | Inr (attrs, raws) \<Rightarrow>
                    (case foldE (protoChild walk) (fieldOf f 5) ([], nss1) of
                       Inl e \<Rightarrow> Inl e
                     | Inr (kids, nss2) \<Rightarrow>
                         Inr (Element (if truthy t then t else JStr []) attrs kids raws, nss2)))))"

lemma xmlElementWith_cong [fundef_cong]:
  assumes "pf = pf'" and "buf = buf'" and "f = f'" and "nss = nss'"
    and "\<And>c s. c \<in> set (fieldOf f' 5) \<Longrightarrow> wt c = 2 \<Longrightarrow> walk c s = walk' c s"
  shows "xmlElementWith walk pf buf f nss = xmlElementWith walk' pf' buf' f' nss'"
proof -
  have "foldE (protoChild walk) (fieldOf f' 5) s = foldE (protoChild walk') (fieldOf f' 5) s" for s
    by (rule foldE_cong) (auto simp add: protoChild_def assms(5))
  then show ?thesis
    unfolding xmlElementWith_def assms(1-4) by (simp only:)
qed

lemma sub_entries:
  assumes "sub buf c = Inr f" and "e \<in> set (fieldOf f k)" and "wt e = 2"
  shows "\<exists>off len off' len'. c = Len off len \<and> e = Len off' len'
           \<and> off < length buf \<and> off < off'"
proof -
  from assms(3) obtain off' len' where e: "e = Len off' len'"
    by (cases e) auto
  from assms(1,2) obtain off len where c: "c = Len off len"
    by (cases c) (auto simp add: sub_def fieldOf_noFields)
  from assms(1) have "readFieldsAt buf off len = Inr f"
    by (simp add: sub_def c)
  from readFieldsAt_entries [OF this, of off' len' k] assms(2) e c show ?thesis
    by simp
qed

text \<open>\<^verbatim>\<open>this._xmlNode(this._sub(c))\<close> for an entry \<open>c\<close>.\<close>

function xmlNodeSub ::
  "platform \<Rightarrow> u8array \<Rightarrow> entry \<Rightarrow> jsstring jsobject
     \<Rightarrow> js_error + (element option \<times> jsstring jsobject)" where
  "xmlNodeSub pf buf c nss =
     (case sub buf c of
        Inl e \<Rightarrow> Inl e
      | Inr fs \<Rightarrow>
          (case fieldOf fs 1 of
             [] \<Rightarrow> Inr (None, nss)
           | e1 # rest \<Rightarrow>
               if wt e1 \<noteq> 2 then Inr (None, nss)
               else
                 case sub buf e1 of
                   Inl e \<Rightarrow> Inl e
                 | Inr f \<Rightarrow>
                     (case xmlElementWith (xmlNodeSub pf buf) pf buf f nss of
                        Inl e \<Rightarrow> Inl e
                      | Inr (el, nss') \<Rightarrow> Inr (Some el, nss'))))"
  by pat_completeness auto
termination
proof (relation "measure (\<lambda>(pf, buf, c, nss). case c of Len off len \<Rightarrow> length buf - off | _ \<Rightarrow> 0)")
  show "wf (measure (\<lambda>(pf, buf, c, nss). case c of Len off len \<Rightarrow> length buf - off | _ \<Rightarrow> 0))"
    by simp
next
  fix pf :: platform and buf c and nss s :: "jsstring jsobject" and fs e1 rest f c'
  assume a: "sub buf c = Inr fs" "fieldOf fs 1 = e1 # rest" "\<not> wt e1 \<noteq> 2" "sub buf e1 = Inr f"
    "c' \<in> set (fieldOf f 5)" "wt c' = 2"
  from a(2) have "e1 \<in> set (fieldOf fs 1)"
    by simp
  from sub_entries [OF a(1) this] a(3) obtain off len off1 len1 where
    c: "c = Len off len" and e1: "e1 = Len off1 len1" and o: "off < length buf" "off < off1"
    by auto
  from sub_entries [OF a(4,5,6)] e1 obtain off2 len2 where
    c': "c' = Len off2 len2" and o2: "off1 < off2"
    by auto
  from o o2 show "((pf, buf, c', s), pf, buf, c, nss)
      \<in> measure (\<lambda>(pf, buf, c, nss). case c of Len off len \<Rightarrow> length buf - off | _ \<Rightarrow> 0)"
    by (simp add: c c')
qed

declare xmlNodeSub.simps [simp del]

text \<open>\<^verbatim>\<open>_xmlElement(f)\<close>, \<^verbatim>\<open>_xmlNode(fields)\<close> and \<^verbatim>\<open>new ProtoXMLParser(buffer).parse()\<close>.\<close>

definition xmlElement ::
  "platform \<Rightarrow> u8array \<Rightarrow> fields \<Rightarrow> jsstring jsobject
     \<Rightarrow> js_error + (element \<times> jsstring jsobject)" where
  "xmlElement pf buf f nss = xmlElementWith (xmlNodeSub pf buf) pf buf f nss"

definition xmlNode ::
  "platform \<Rightarrow> u8array \<Rightarrow> fields \<Rightarrow> jsstring jsobject
     \<Rightarrow> js_error + (element option \<times> jsstring jsobject)" where
  "xmlNode pf buf fs nss =
     (if firstWt fs 1 2 then
        (case subFirst buf fs 1 of
           Inl e \<Rightarrow> Inl e
         | Inr f \<Rightarrow>
             (case xmlElement pf buf f nss of
                Inl e \<Rightarrow> Inl e
              | Inr (el, nss') \<Rightarrow> Inr (Some el, nss')))
      else Inr (None, nss))"

definition proto_parse :: "platform \<Rightarrow> u8array \<Rightarrow> js_error + element option" where
  "proto_parse pf buf =
     (case readFields buf of
        Inl e \<Rightarrow> Inl e
      | Inr fs \<Rightarrow> map_sum id fst (xmlNode pf buf fs emptyObject))"


subsection \<open>Fixtures\<close>

text \<open>
  An \<^verbatim>\<open>XmlNode\<close> whose element \<^verbatim>\<open>manifest\<close> has one attribute, with the name
  \<^verbatim>\<open>versionCode\<close> in field 2 and in field 6 a compiled item that is a primitive with
  the decimal integer 42: the bytes of the attribute are those from offset 14, of the
  item those from offset 29.
\<close>

definition versionCodeManifest :: u8array where
  "versionCodeManifest =
     [0x0A, 31,
      0x1A, 8, 109, 97, 110, 105, 102, 101, 115, 116,
      0x22, 19,
      0x12, 11, 118, 101, 114, 115, 105, 111, 110, 67, 111, 100, 101,
      0x32, 4,
      0x3A, 2,
      0x30, 42]"

text \<open>
  The same with the raw string \<^verbatim>\<open>7\<close> in field 3 of the attribute and a primitive of no
  known kind (its only field is 9) in the compiled item.
\<close>

definition unknownPrimitiveManifest :: u8array where
  "unknownPrimitiveManifest =
     [0x0A, 34,
      0x1A, 8, 109, 97, 110, 105, 102, 101, 115, 116,
      0x22, 22,
      0x12, 11, 118, 101, 114, 115, 105, 111, 110, 67, 111, 100, 101,
      0x1A, 1, 55,
      0x32, 4,
      0x3A, 2,
      0x48, 1]"

text \<open>
  The first document with the attribute named \<^verbatim>\<open>__proto__\<close> in place of \<^verbatim>\<open>versionCode\<close>.
\<close>

definition protoKeyManifest :: u8array where
  "protoKeyManifest =
     [0x0A, 29,
      0x1A, 8, 109, 97, 110, 105, 102, 101, 115, 116,
      0x22, 17,
      0x12, 9, 95, 95, 112, 114, 111, 116, 111, 95, 95,
      0x32, 4,
      0x3A, 2,
      0x30, 42]"

text \<open>The elements the three documents decode to.\<close>

definition versionCodeElement :: element where
  "versionCodeElement =
     Element (JStr (lit ''manifest'')) (JsObject [(lit ''versionCode'', JNum 42)] True) []
       [\<lparr>ra_namespace = JNull, ra_name = JStr (lit ''versionCode''), ra_value = JNum 42,
         ra_type = None, ra_data = None\<rparr>]"

definition unknownPrimitiveElement :: element where
  "unknownPrimitiveElement =
     Element (JStr (lit ''manifest'')) (JsObject [(lit ''versionCode'', JStr (lit ''7''))] True) []
       [\<lparr>ra_namespace = JNull, ra_name = JStr (lit ''versionCode''),
         ra_value = JStr (lit ''7''), ra_type = None, ra_data = None\<rparr>]"

definition protoKeyElement :: element where
  "protoKeyElement =
     Element (JStr (lit ''manifest'')) (JsObject [] True) []
       [\<lparr>ra_namespace = JNull, ra_name = JStr (lit ''__proto__''), ra_value = JNum 42,
         ra_type = None, ra_data = None\<rparr>]"

section \<open>Proto-XML decoder: theorems\<close>

lemma foldE_append:
  "foldE f (xs @ ys) s = (case foldE f xs s of Inl e \<Rightarrow> Inl e | Inr s' \<Rightarrow> foldE f ys s')"
proof (induction xs arbitrary: s)
  case Nil
  show ?case by simp
next
  case (Cons x xs)
  then show ?case
    by (cases "f x s") simp_all
qed

lemma getProp_putProp:
  assumes "key \<noteq> protoName \<or> \<not> plain obj"
  shows "getProp (putProp key v obj) key = v"
  using assms by (auto simp add: getProp_def putProp_def setProp_def lookupProp_def update_conv')

lemma putProp_protoName:
  assumes "plain obj"
  shows "own (putProp protoName v obj) = own obj"
  using assms by (simp add: putProp_def setProp_def)

lemma str_raw:
  assumes "str pf buf f num = Inr raw"
  shows "(firstWt f num 2 \<longrightarrow> (\<exists>s. raw = JStr s)) \<and> (\<not> firstWt f num 2 \<longrightarrow> raw = JNull)"
proof (cases "fieldOf f num")
  case Nil
  with assms show ?thesis
    by (simp add: str_def firstWt_def)
next
  case (Cons e rest)
  with assms show ?thesis
    by (cases e) (auto simp add: str_def firstWt_def split: if_splits)
qed

lemma primitive_unknown:
  "primitive g = JUndefined \<longleftrightarrow>
     (\<not> firstWt g 6 0 \<and> \<not> firstWt g 7 0 \<and> \<not> firstWt g 8 0 \<and> \<not> firstWt g 3 5 \<and> fieldOf g 1 = [])"
  by (simp add: primitive_def)

lemma item_primitive:
  assumes "\<not> firstWt itf 1 2" and "\<not> firstWt itf 2 2" and "\<not> firstWt itf 3 2"
    and "firstWt itf 7 2" and "subFirst buf itf 7 = Inr g"
  shows "item pf buf itf = Inr (primitive g)"
  using assms by (simp add: item_def)

text \<open>The walker stores no member of the prototype.\<close>

lemma str_not_member:
  "str pf buf f num = Inr v \<Longrightarrow> v \<noteq> JMember n"
  by (auto simp add: str_def split: list.splits entry.splits if_splits)

lemma item_not_member:
  "item pf buf f = Inr v \<Longrightarrow> v \<noteq> JMember n"
  by (auto simp add: item_def primitive_def dest: str_not_member split: if_splits sum.splits)

lemma protoAttr_cases:
  assumes "wt a = 2" and "sub buf a = Inr af" and "protoAttr pf buf nss a acc = Inr acc'"
  shows "\<exists>nsUri name raw val.
           str pf buf af 1 = Inr nsUri \<and> str pf buf af 2 = Inr name \<and> str pf buf af 3 = Inr raw
         \<and> (if firstWt af 6 2
              then \<exists>itf typed. subFirst buf af 6 = Inr itf \<and> item pf buf itf = Inr typed
                     \<and> val = (if typed \<noteq> JUndefined then typed else raw)
              else val = raw)
         \<and> acc' = (putProp (attrKey pf nss (strOpt nsUri) (strOpt name)) val (fst acc),
                    snd acc @ [\<lparr>ra_namespace = nsUri, ra_name = name, ra_value = val,
                                ra_type = None, ra_data = None\<rparr>])"
proof -
  from assms obtain nsUri where n: "str pf buf af 1 = Inr nsUri"
    by (cases "str pf buf af 1") (auto simp add: protoAttr_def)
  from assms n obtain name where m: "str pf buf af 2 = Inr name"
    by (cases "str pf buf af 2") (auto simp add: protoAttr_def)
  from assms n m obtain raw where r: "str pf buf af 3 = Inr raw"
    by (cases "str pf buf af 3") (auto simp add: protoAttr_def)
  show ?thesis
  proof (cases "firstWt af 6 2")
    case False
    with assms n m r show ?thesis
      by (auto simp add: protoAttr_def)
  next
    case True
    with assms n m r obtain itf where i: "subFirst buf af 6 = Inr itf"
      by (cases "subFirst buf af 6") (auto simp add: protoAttr_def)
    with assms n m r True obtain typed where t: "item pf buf itf = Inr typed"
      by (cases "item pf buf itf") (auto simp add: protoAttr_def)
    with assms n m r True i show ?thesis
      by (auto simp add: protoAttr_def)
  qed
qed

lemma xmlElement_attributes:
  assumes "xmlElement pf buf f nss = Inr (el, nss')"
  shows "\<exists>nss1. foldE (protoNamespace pf buf) (fieldOf f 1) nss = Inr nss1
           \<and> foldE (protoAttr pf buf nss1) (fieldOf f 4) (emptyObject, [])
               = Inr (attributes el, rawAttrs el)"
  using assms
  by (auto simp add: xmlElement_def xmlElementWith_def split: sum.splits prod.splits)

text \<open>
  Claim C3, as the code has it. In a decoded element, for every attribute (an entry of
  field 4 that is a message), the value assigned under the key of the attribute and
  pushed to \<^verbatim>\<open>_rawAttrs\<close> is the typed value when field 6 holds a compiled item that
  decodes to a value other than \<^verbatim>\<open>undefined\<close>; it is the raw string of field 3, \<^verbatim>\<open>null\<close>
  without one, when there is no compiled item or the item decodes to \<^verbatim>\<open>undefined\<close>, as a
  primitive of no known kind does. The assignment leaves the value in the attributes
  under the key, and it is the value of the key in the attributes of the element when
  no attribute follows, unless the key is \<^verbatim>\<open>__proto__\<close> and the attributes still have
  their prototype: then the assignment makes no property.
\<close>

theorem compiled_item_overrides_raw_string:
  assumes el: "xmlElement pf buf f nss = Inr (el, nss')"
    and f4: "fieldOf f 4 = before @ a # after"
    and a: "wt a = 2"
    and af: "sub buf a = Inr af"
  shows "\<exists>nss1 acc acc' nsUri name raw val key.
       foldE (protoNamespace pf buf) (fieldOf f 1) nss = Inr nss1
     \<and> foldE (protoAttr pf buf nss1) before (emptyObject, []) = Inr acc
     \<and> protoAttr pf buf nss1 a acc = Inr acc'
     \<and> foldE (protoAttr pf buf nss1) after acc' = Inr (attributes el, rawAttrs el)
     \<and> str pf buf af 1 = Inr nsUri \<and> str pf buf af 2 = Inr name \<and> str pf buf af 3 = Inr raw
     \<and> (firstWt af 3 2 \<longrightarrow> (\<exists>s. raw = JStr s)) \<and> (\<not> firstWt af 3 2 \<longrightarrow> raw = JNull)
     \<and> key = attrKey pf nss1 (strOpt nsUri) (strOpt name)
     \<and> fst acc' = putProp key val (fst acc)
     \<and> snd acc' = snd acc @ [\<lparr>ra_namespace = nsUri, ra_name = name, ra_value = val,
                                ra_type = None, ra_data = None\<rparr>]
     \<and> (key \<noteq> protoName \<or> \<not> plain (fst acc) \<longrightarrow> getProp (fst acc') key = val)
     \<and> (key = protoName \<and> plain (fst acc) \<longrightarrow> own (fst acc') = own (fst acc))
     \<and> (after = [] \<and> (key \<noteq> protoName \<or> \<not> plain (fst acc))
           \<longrightarrow> getProp (attributes el) key = val)
     \<and> (\<forall>itf typed. firstWt af 6 2 \<and> subFirst buf af 6 = Inr itf
           \<and> item pf buf itf = Inr typed \<and> typed \<noteq> JUndefined \<longrightarrow> val = typed)
     \<and> (\<forall>itf. firstWt af 6 2 \<and> subFirst buf af 6 = Inr itf
           \<and> item pf buf itf = Inr JUndefined \<longrightarrow> val = raw)
     \<and> (\<not> firstWt af 6 2 \<longrightarrow> val = raw)
     \<and> (\<forall>itf g. firstWt af 6 2 \<and> subFirst buf af 6 = Inr itf
           \<and> \<not> firstWt itf 1 2 \<and> \<not> firstWt itf 2 2 \<and> \<not> firstWt itf 3 2
           \<and> firstWt itf 7 2 \<and> subFirst buf itf 7 = Inr g
           \<and> \<not> firstWt g 6 0 \<and> \<not> firstWt g 7 0 \<and> \<not> firstWt g 8 0 \<and> \<not> firstWt g 3 5
           \<and> fieldOf g 1 = []
           \<longrightarrow> item pf buf itf = Inr JUndefined \<and> val = raw)"
proof -
  from xmlElement_attributes [OF el] obtain nss1 where
    ns: "foldE (protoNamespace pf buf) (fieldOf f 1) nss = Inr nss1"
    and all: "foldE (protoAttr pf buf nss1) (fieldOf f 4) (emptyObject, [])
                = Inr (attributes el, rawAttrs el)"
    by blast
  from all obtain acc where
    b: "foldE (protoAttr pf buf nss1) before (emptyObject, []) = Inr acc"
    and rest: "foldE (protoAttr pf buf nss1) (a # after) acc = Inr (attributes el, rawAttrs el)"
    unfolding f4 foldE_append
    by (cases "foldE (protoAttr pf buf nss1) before (emptyObject, [])") auto
  from rest obtain acc' where
    one: "protoAttr pf buf nss1 a acc = Inr acc'"
    and after: "foldE (protoAttr pf buf nss1) after acc' = Inr (attributes el, rawAttrs el)"
    by (cases "protoAttr pf buf nss1 a acc") auto
  from protoAttr_cases [OF a af one] obtain nsUri name raw val where
    n: "str pf buf af 1 = Inr nsUri" and m: "str pf buf af 2 = Inr name"
    and r: "str pf buf af 3 = Inr raw"
    and v: "if firstWt af 6 2
            then \<exists>itf typed. subFirst buf af 6 = Inr itf \<and> item pf buf itf = Inr typed
                   \<and> val = (if typed \<noteq> JUndefined then typed else raw)
            else val = raw"
    and acc': "acc' = (putProp (attrKey pf nss1 (strOpt nsUri) (strOpt name)) val (fst acc),
                      snd acc @ [\<lparr>ra_namespace = nsUri, ra_name = name, ra_value = val,
                                  ra_type = None, ra_data = None\<rparr>])"
    by blast
  define key where "key = attrKey pf nss1 (strOpt nsUri) (strOpt name)"
  have put: "fst acc' = putProp key val (fst acc)"
    by (simp add: acc' key_def)
  have pushed: "snd acc' = snd acc @ [\<lparr>ra_namespace = nsUri, ra_name = name, ra_value = val,
                                ra_type = None, ra_data = None\<rparr>]"
    by (simp add: acc')
  have stored: "key \<noteq> protoName \<or> \<not> plain (fst acc) \<longrightarrow> getProp (fst acc') key = val"
    unfolding put by (rule impI) (rule getProp_putProp)
  have ignored: "key = protoName \<and> plain (fst acc) \<longrightarrow> own (fst acc') = own (fst acc)"
    unfolding put by (auto intro: putProp_protoName)
  have last: "after = [] \<and> (key \<noteq> protoName \<or> \<not> plain (fst acc))
      \<longrightarrow> getProp (attributes el) key = val"
  proof
    assume h: "after = [] \<and> (key \<noteq> protoName \<or> \<not> plain (fst acc))"
    with after have "fst acc' = attributes el"
      by simp
    with stored h show "getProp (attributes el) key = val"
      by auto
  qed
  have typed: "\<forall>itf typed. firstWt af 6 2 \<and> subFirst buf af 6 = Inr itf
           \<and> item pf buf itf = Inr typed \<and> typed \<noteq> JUndefined \<longrightarrow> val = typed"
    using v by auto
  have undef: "\<forall>itf. firstWt af 6 2 \<and> subFirst buf af 6 = Inr itf
           \<and> item pf buf itf = Inr JUndefined \<longrightarrow> val = raw"
    using v by auto
  have none: "\<not> firstWt af 6 2 \<longrightarrow> val = raw"
    using v by auto
  have unknown: "\<forall>itf g. firstWt af 6 2 \<and> subFirst buf af 6 = Inr itf
           \<and> \<not> firstWt itf 1 2 \<and> \<not> firstWt itf 2 2 \<and> \<not> firstWt itf 3 2
           \<and> firstWt itf 7 2 \<and> subFirst buf itf 7 = Inr g
           \<and> \<not> firstWt g 6 0 \<and> \<not> firstWt g 7 0 \<and> \<not> firstWt g 8 0 \<and> \<not> firstWt g 3 5
           \<and> fieldOf g 1 = []
           \<longrightarrow> item pf buf itf = Inr JUndefined \<and> val = raw"
  proof (intro allI impI)
    fix itf g
    assume h: "firstWt af 6 2 \<and> subFirst buf af 6 = Inr itf
           \<and> \<not> firstWt itf 1 2 \<and> \<not> firstWt itf 2 2 \<and> \<not> firstWt itf 3 2
           \<and> firstWt itf 7 2 \<and> subFirst buf itf 7 = Inr g
           \<and> \<not> firstWt g 6 0 \<and> \<not> firstWt g 7 0 \<and> \<not> firstWt g 8 0 \<and> \<not> firstWt g 3 5
           \<and> fieldOf g 1 = []"
    then have "primitive g = JUndefined"
      by (simp add: primitive_unknown)
    with h item_primitive [of itf buf g pf] have i: "item pf buf itf = Inr JUndefined"
      by simp
    with undef h show "item pf buf itf = Inr JUndefined \<and> val = raw"
      by blast
  qed
  from str_raw [OF r] have sr: "firstWt af 3 2 \<longrightarrow> (\<exists>s. raw = JStr s)"
    and sn: "\<not> firstWt af 3 2 \<longrightarrow> raw = JNull"
    by simp_all
  show ?thesis
    apply (rule exI [of _ nss1])
    apply (rule exI [of _ acc])
    apply (rule exI [of _ acc'])
    apply (rule exI [of _ nsUri])
    apply (rule exI [of _ name])
    apply (rule exI [of _ raw])
    apply (rule exI [of _ val])
    apply (rule exI [of _ key])
    apply (intro conjI)
    apply (fact ns b one after n m r sr sn key_def put pushed stored ignored last typed undef
      none unknown)+
    done
qed

lemma xmlNodeSub_xmlNode:
  "xmlNodeSub pf buf c nss =
     (case sub buf c of Inl e \<Rightarrow> Inl e | Inr fs \<Rightarrow> xmlNode pf buf fs nss)"
  by (subst xmlNodeSub.simps)
    (auto simp add: xmlNode_def xmlElement_def firstWt_def subFirst_def
      split: sum.splits list.splits)

lemma proto_parse_versionCodeManifest:
  "proto_parse asciiPlatform versionCodeManifest = Inr (Some versionCodeElement)"
  by code_simp

lemma proto_parse_unknownPrimitiveManifest:
  "proto_parse asciiPlatform unknownPrimitiveManifest = Inr (Some unknownPrimitiveElement)"
  by code_simp

lemma versionCode_not_protoName:
  "lit ''versionCode'' \<noteq> protoName"
  by (simp add: protoName_def lit_eq_iff)

theorem compiled_item_overrides_raw_string_witness:
  "proto_parse asciiPlatform versionCodeManifest = Inr (Some versionCodeElement)
   \<and> getProp (attributes versionCodeElement) (lit ''versionCode'') = JNum 42
   \<and> getProp (attributes unknownPrimitiveElement) (lit ''versionCode'') = JStr (lit ''7'')"
proof (intro conjI)
  show "proto_parse asciiPlatform versionCodeManifest = Inr (Some versionCodeElement)"
    by (rule proto_parse_versionCodeManifest)
next
  let ?buf = versionCodeManifest
  let ?f = "[(3, [Len 4 8]), (4, [Len 14 19])]"
  let ?af = "[(2, [Len 16 11]), (6, [Len 29 4])]"
  let ?itf = "[(7, [Len 31 2])]"
  have el: "xmlElement asciiPlatform ?buf ?f emptyObject = Inr (versionCodeElement, emptyObject)"
    by code_simp
  have f4: "fieldOf ?f 4 = [] @ Len 14 19 # []"
    by code_simp
  have a: "wt (Len 14 19) = 2"
    by simp
  have af: "sub ?buf (Len 14 19) = Inr ?af"
    by code_simp
  from compiled_item_overrides_raw_string [OF el f4 a af]
  show "getProp (attributes versionCodeElement) (lit ''versionCode'') = JNum 42"
  proof (elim exE conjE)
  fix nss1 acc acc' nsUri name raw val key
  assume ns: "foldE (protoNamespace asciiPlatform ?buf) (fieldOf ?f 1) emptyObject = Inr nss1"
    and n: "str asciiPlatform ?buf ?af 1 = Inr nsUri"
    and m: "str asciiPlatform ?buf ?af 2 = Inr name"
    and key: "key = attrKey asciiPlatform nss1 (strOpt nsUri) (strOpt name)"
    and last: "[] = [] \<and> (key \<noteq> protoName \<or> \<not> plain (fst acc))
           \<longrightarrow> getProp (attributes versionCodeElement) key = val"
    and typed: "\<forall>itf typed. firstWt ?af 6 2 \<and> subFirst ?buf ?af 6 = Inr itf
           \<and> item asciiPlatform ?buf itf = Inr typed \<and> typed \<noteq> JUndefined \<longrightarrow> val = typed"
  have "foldE (protoNamespace asciiPlatform ?buf) (fieldOf ?f 1) emptyObject = Inr emptyObject"
    by code_simp
  with ns have nss1: "nss1 = emptyObject"
    by simp
  have "str asciiPlatform ?buf ?af 1 = Inr JNull"
    by code_simp
  with n have nsUri: "nsUri = JNull"
    by simp
  have "str asciiPlatform ?buf ?af 2 = Inr (JStr (lit ''versionCode''))"
    by code_simp
  with m have name: "name = JStr (lit ''versionCode'')"
    by simp
  have "attrKey asciiPlatform emptyObject (strOpt JNull) (strOpt (JStr (lit ''versionCode'')))
          = lit ''versionCode''"
    by code_simp
  with key have k: "key = lit ''versionCode''"
    by (simp only: nss1 nsUri name)
  have "firstWt ?af 6 2" and "subFirst ?buf ?af 6 = Inr ?itf"
    and "item asciiPlatform ?buf ?itf = Inr (JNum 42)"
    by code_simp+
  with typed have "val = JNum 42"
    by blast
  with last k versionCode_not_protoName
  show "getProp (attributes versionCodeElement) (lit ''versionCode'') = JNum 42"
    by simp
  qed
next
  let ?buf = unknownPrimitiveManifest
  let ?f = "[(3, [Len 4 8]), (4, [Len 14 22])]"
  let ?af = "[(2, [Len 16 11]), (3, [Len 29 1]), (6, [Len 32 4])]"
  let ?itf = "[(7, [Len 34 2])]"
  let ?g = "[(9, [Varint 1])]"
  have el: "xmlElement asciiPlatform ?buf ?f emptyObject
              = Inr (unknownPrimitiveElement, emptyObject)"
    by code_simp
  have f4: "fieldOf ?f 4 = [] @ Len 14 22 # []"
    by code_simp
  have a: "wt (Len 14 22) = 2"
    by simp
  have af: "sub ?buf (Len 14 22) = Inr ?af"
    by code_simp
  from compiled_item_overrides_raw_string [OF el f4 a af]
  show "getProp (attributes unknownPrimitiveElement) (lit ''versionCode'') = JStr (lit ''7'')"
  proof (elim exE conjE)
  fix nss1 acc acc' nsUri name raw val key
  assume ns: "foldE (protoNamespace asciiPlatform ?buf) (fieldOf ?f 1) emptyObject = Inr nss1"
    and n: "str asciiPlatform ?buf ?af 1 = Inr nsUri"
    and m: "str asciiPlatform ?buf ?af 2 = Inr name"
    and r: "str asciiPlatform ?buf ?af 3 = Inr raw"
    and key: "key = attrKey asciiPlatform nss1 (strOpt nsUri) (strOpt name)"
    and last: "[] = [] \<and> (key \<noteq> protoName \<or> \<not> plain (fst acc))
           \<longrightarrow> getProp (attributes unknownPrimitiveElement) key = val"
    and unknown: "\<forall>itf g. firstWt ?af 6 2 \<and> subFirst ?buf ?af 6 = Inr itf
           \<and> \<not> firstWt itf 1 2 \<and> \<not> firstWt itf 2 2 \<and> \<not> firstWt itf 3 2
           \<and> firstWt itf 7 2 \<and> subFirst ?buf itf 7 = Inr g
           \<and> \<not> firstWt g 6 0 \<and> \<not> firstWt g 7 0 \<and> \<not> firstWt g 8 0 \<and> \<not> firstWt g 3 5
           \<and> fieldOf g 1 = []
           \<longrightarrow> item asciiPlatform ?buf itf = Inr JUndefined \<and> val = raw"
  have "foldE (protoNamespace asciiPlatform ?buf) (fieldOf ?f 1) emptyObject = Inr emptyObject"
    by code_simp
  with ns have nss1: "nss1 = emptyObject"
    by simp
  have "str asciiPlatform ?buf ?af 1 = Inr JNull"
    by code_simp
  with n have nsUri: "nsUri = JNull"
    by simp
  have "str asciiPlatform ?buf ?af 2 = Inr (JStr (lit ''versionCode''))"
    by code_simp
  with m have name: "name = JStr (lit ''versionCode'')"
    by simp
  have "str asciiPlatform ?buf ?af 3 = Inr (JStr (lit ''7''))"
    by code_simp
  with r have raw: "raw = JStr (lit ''7'')"
    by simp
  have "attrKey asciiPlatform emptyObject (strOpt JNull) (strOpt (JStr (lit ''versionCode'')))
          = lit ''versionCode''"
    by code_simp
  with key have k: "key = lit ''versionCode''"
    by (simp only: nss1 nsUri name)
  have "firstWt ?af 6 2 \<and> subFirst ?buf ?af 6 = Inr ?itf
           \<and> \<not> firstWt ?itf 1 2 \<and> \<not> firstWt ?itf 2 2 \<and> \<not> firstWt ?itf 3 2
           \<and> firstWt ?itf 7 2 \<and> subFirst ?buf ?itf 7 = Inr ?g
           \<and> \<not> firstWt ?g 6 0 \<and> \<not> firstWt ?g 7 0 \<and> \<not> firstWt ?g 8 0 \<and> \<not> firstWt ?g 3 5
           \<and> fieldOf ?g 1 = []"
    by code_simp
  with unknown have "val = raw"
    by blast
  with last raw k versionCode_not_protoName
  show "getProp (attributes unknownPrimitiveElement) (lit ''versionCode'') = JStr (lit ''7'')"
    by simp
  qed
qed

text \<open>
  Claim C3, as stated, fails for the attribute named \<^verbatim>\<open>__proto__\<close> of the document
  \<open>protoKeyManifest\<close>: its compiled item decodes to 42, which \<^verbatim>\<open>_rawAttrs\<close> holds, but the
  attributes of the element have no property for it, and a read of the key gives the
  prototype, not 42.
\<close>

theorem proto_key_attribute_not_stored:
  "proto_parse asciiPlatform protoKeyManifest = Inr (Some protoKeyElement)
   \<and> map ra_value (rawAttrs protoKeyElement) = [JNum 42]
   \<and> own (attributes protoKeyElement) = []
   \<and> getProp (attributes protoKeyElement) (lit ''__proto__'') = JMember (lit ''__proto__'')
   \<and> JMember (lit ''__proto__'') \<noteq> JNum 42"
  by code_simp

end
